(* ===== verification/Prelude.thy ===== *)
theory Prelude
  imports Main "HOL-Library.Word" "HOL-Library.Sublist" "HOL-Library.AList"
    "HOL-Library.Multiset"
begin

unbundle bit_operations_syntax

text \<open>
  What the component theories share.

  Text. A \<open>QString\<close> is a list of UTF-16 code units (\<open>16 word\<close>), as Qt counts it; a
  \<open>QByteArray\<close> or \<open>std::string\<close> is a list of bytes (\<open>8 word\<close>). ASCII literals of the
  source are written \<open>qs ''...''\<close> and \<open>bs ''...''\<close>; text beyond ASCII is written as its list
  of code units. The small Qt text operations the sources call are functions here:
  \<open>trimmed\<close>, \<open>split\<close> with and without \<open>Qt::SkipEmptyParts\<close>, \<open>join\<close>, \<open>startsWith\<close>,
  \<open>endsWith\<close>, \<open>contains\<close>, decimal numbers. Case mapping (\<open>toLower\<close>) depends on the Unicode
  tables of Qt and is an argument \<open>lc\<close> of every definition that uses it; \<open>ascii_lower\<close> is the
  instance on ASCII text that the witnesses use.

  Containers. A \<open>std::vector\<close> or \<open>QStringList\<close> is a list; a \<open>QHash\<close>, \<open>std::map\<close> or
  \<open>std::unordered_map\<close> is an association list used through \<open>map_of\<close>, \<open>AList.update\<close> and
  \<open>AList.delete\<close>. \<open>upd_first\<close> is the loop that changes the first element that satisfies a
  test and stops.

  Numbers. \<open>int\<close>, \<open>qint64\<close> and \<open>size_t\<close> values are \<open>int\<close> or \<open>nat\<close> unless their width
  matters; \<open>clamp\<close> is \<open>std::clamp\<close>.
\<close>

section \<open>Text and bytes\<close>

type_synonym qchar = "16 word"
type_synonym qstring = "qchar list"
type_synonym byte = "8 word"
type_synonym bytes = "byte list"

definition qc :: "char \<Rightarrow> qchar" where
  "qc c = of_char c"

definition qs :: "string \<Rightarrow> qstring" where
  "qs s = map of_char s"

definition qu :: "nat list \<Rightarrow> qstring" where
  \<comment> \<open>text beyond ASCII, by its UTF-16 code units\<close>
  "qu ns = map of_nat ns"

definition bs :: "string \<Rightarrow> bytes" where
  "bs s = map of_char s"

lemma of_char_word_inj:
  assumes "8 \<le> LENGTH('a)" and "(of_char c :: 'a::len word) = of_char d"
  shows "c = d"
proof -
  have "(256::nat) \<le> 2 ^ LENGTH('a)"
    using power_increasing [OF assms(1), of "2::nat"] by simp
  then have small: "(of_char x :: nat) < 2 ^ LENGTH('a)" for x
    by (rule less_le_trans [OF nat_of_char_less_256])
  have "(of_nat (of_char c) :: 'a word) = of_nat (of_char d)"
    using assms(2) by (simp only: of_nat_of_char)
  then have "(of_char c :: nat) = of_char d"
    using small by (simp add: word_of_nat_eq_iff take_bit_nat_eq_self)
  then show ?thesis by simp
qed

lemma qc_inj [simp]: "qc a = qc b \<longleftrightarrow> a = b"
  by (auto simp: qc_def dest: of_char_word_inj [rotated])

lemma qs_inj [simp]: "qs a = qs b \<longleftrightarrow> a = b"
proof -
  have "inj (of_char :: char \<Rightarrow> qchar)"
    by (rule injI) (auto dest: of_char_word_inj [rotated])
  then show ?thesis by (simp add: qs_def inj_map_eq_map)
qed

lemma bs_inj [simp]: "bs a = bs b \<longleftrightarrow> a = b"
proof -
  have "inj (of_char :: char \<Rightarrow> byte)"
    by (rule injI) (auto dest: of_char_word_inj [rotated])
  then show ?thesis by (simp add: bs_def inj_map_eq_map)
qed

lemma qs_Nil [simp]: "qs [] = []"
  and qs_Cons: "qs (c # s) = qc c # qs s"
  and qs_eq_Nil [simp]: "qs s = [] \<longleftrightarrow> s = []"
  and Nil_eq_qs [simp]: "[] = qs s \<longleftrightarrow> s = []"
  and length_qs [simp]: "length (qs s) = length s"
  by (auto simp: qs_def qc_def)

lemma bs_Nil [simp]: "bs [] = []"
  and bs_eq_Nil [simp]: "bs s = [] \<longleftrightarrow> s = []"
  and length_bs [simp]: "length (bs s) = length s"
  by (simp_all add: bs_def)

subsection \<open>Qt text operations\<close>

text \<open>\<open>QChar::isSpace\<close>: the ASCII white space, NEL, NBSP and the Unicode separators.\<close>

definition is_space :: "qchar \<Rightarrow> bool" where
  "is_space c \<longleftrightarrow>
     c = 0x20 \<or> (0x09 \<le> c \<and> c \<le> 0x0D) \<or> c = 0x85 \<or> c = 0xA0 \<or> c = 0x1680 \<or>
     (0x2000 \<le> c \<and> c \<le> 0x200A) \<or> c = 0x2028 \<or> c = 0x2029 \<or> c = 0x202F \<or> c = 0x205F \<or>
     c = 0x3000"

definition trimmed :: "qstring \<Rightarrow> qstring" where
  "trimmed s = rev (dropWhile is_space (rev (dropWhile is_space s)))"

lemma trimmed_Nil [simp]: "trimmed [] = []"
  by (simp add: trimmed_def)

lemma dropWhile_hd: "xs = [] \<or> \<not> P (hd xs) \<Longrightarrow> dropWhile P xs = xs"
  by (cases xs) auto

lemma dropWhile_rev_dropWhile:
  "dropWhile P (rev (dropWhile P (rev (dropWhile P s)))) = rev (dropWhile P (rev (dropWhile P s)))"
proof (rule dropWhile_hd)
  let ?d = "dropWhile P s"
  show "rev (dropWhile P (rev ?d)) = [] \<or> \<not> P (hd (rev (dropWhile P (rev ?d))))"
  proof (cases "dropWhile P (rev ?d)")
    case Nil
    then show ?thesis by simp
  next
    case (Cons y ys)
    have ne: "?d \<noteq> []"
    proof
      assume "?d = []"
      with Cons show False by (simp del: dropWhile_eq_Nil_conv)
    qed
    have "suffix (dropWhile P (rev ?d)) (rev ?d)" by (rule suffix_dropWhile)
    then have "prefix (rev (dropWhile P (rev ?d))) ?d" by (simp add: suffix_to_prefix)
    then have "hd (rev (dropWhile P (rev ?d))) = hd ?d"
      using Cons by (metis hd_append2 list.distinct(1) prefix_def rev_is_Nil_conv)
    then show ?thesis using hd_dropWhile [OF ne] by simp
  qed
qed

lemma trimmed_idem [simp]: "trimmed (trimmed s) = trimmed s"
  by (simp add: trimmed_def dropWhile_rev_dropWhile dropWhile_idem)

lemma trimmed_length: "length (trimmed s) \<le> length s"
  unfolding trimmed_def
  by (metis length_dropWhile_le length_rev order_trans)

fun split_any :: "'a \<Rightarrow> 'a list \<Rightarrow> 'a list list" where
  "split_any c [] = [[]]"
| "split_any c (x # xs) =
     (if x = c then [] # split_any c xs
      else (case split_any c xs of [] \<Rightarrow> [[x]] | p # ps \<Rightarrow> (x # p) # ps))"

definition split_skip :: "'a \<Rightarrow> 'a list \<Rightarrow> 'a list list" where
  \<comment> \<open>\<open>split(sep, Qt::SkipEmptyParts)\<close>\<close>
  "split_skip c s = filter (\<lambda>p. p \<noteq> []) (split_any c s)"

fun join :: "qstring \<Rightarrow> qstring list \<Rightarrow> qstring" where
  "join sep [] = []"
| "join sep [p] = p"
| "join sep (p # q # ps) = p @ sep @ join sep (q # ps)"

definition starts_with :: "'a list \<Rightarrow> 'a list \<Rightarrow> bool" where
  "starts_with s p \<longleftrightarrow> take (length p) s = p"

definition ends_with :: "'a list \<Rightarrow> 'a list \<Rightarrow> bool" where
  "ends_with s p \<longleftrightarrow> starts_with (rev s) (rev p)"

fun index_of :: "'a list \<Rightarrow> 'a list \<Rightarrow> nat option" where
  \<comment> \<open>\<open>indexOf\<close>: position of the first occurrence, \<open>None\<close> for -1\<close>
  "index_of s p =
     (if starts_with s p then Some 0
      else (case s of [] \<Rightarrow> None | _ # t \<Rightarrow> map_option Suc (index_of t p)))"

declare index_of.simps [simp del, code del]

lemma index_of_code [code]:
  "index_of [] p = (if p = [] then Some 0 else None)"
  "index_of (c # t) p = (if starts_with (c # t) p then Some 0 else map_option Suc (index_of t p))"
  by (simp_all add: index_of.simps [of "[]"] index_of.simps [of "c # t"] starts_with_def)

definition contains :: "'a list \<Rightarrow> 'a list \<Rightarrow> bool" where
  "contains s p \<longleftrightarrow> index_of s p \<noteq> None"

lemma starts_with_prefix: "starts_with s p \<longleftrightarrow> prefix p s"
  by (auto simp: starts_with_def prefix_def) (metis append_take_drop_id)

lemma starts_with_append [simp]: "starts_with (p @ s) p"
  by (simp add: starts_with_def)

lemma starts_with_Nil [simp]: "starts_with s []"
  by (simp add: starts_with_def)

lemma starts_with_Cons [simp]:
  "starts_with (x # s) (y # p) \<longleftrightarrow> x = y \<and> starts_with s p"
  by (simp add: starts_with_def)

lemma starts_with_Nil_Cons [simp]: "\<not> starts_with [] (y # p)"
  by (simp add: starts_with_def)

lemma index_of_Nil [simp]: "index_of [] p = (if p = [] then Some 0 else None)"
  by (subst index_of.simps) (cases p, auto)

lemma index_of_Cons:
  "index_of (x # s) p = (if starts_with (x # s) p then Some 0 else map_option Suc (index_of s p))"
  by (subst index_of.simps) simp

lemma index_of_Some:
  "index_of s p = Some i \<Longrightarrow> i + length p \<le> length s \<and> take (length p) (drop i s) = p"
proof (induction s arbitrary: i)
  case Nil
  then show ?case by (auto split: if_splits)
next
  case (Cons x s)
  show ?case
  proof (cases "starts_with (x # s) p")
    case True
    with Cons.prems have "i = 0" by (simp add: index_of_Cons)
    moreover have "length p \<le> length (x # s)"
      using True by (simp only: starts_with_prefix prefix_length_le)
    ultimately show ?thesis using True by (simp add: starts_with_def)
  next
    case False
    with Cons.prems obtain j where "i = Suc j" and "index_of s p = Some j"
      by (auto simp: index_of_Cons)
    with Cons.IH show ?thesis by fastforce
  qed
qed

subsection \<open>Decimal numbers\<close>

fun digits_of :: "nat \<Rightarrow> char list" where
  "digits_of n =
     (if n < 10 then [char_of (48 + n)] else digits_of (n div 10) @ [char_of (48 + n mod 10)])"

declare digits_of.simps [simp del]

definition show_int :: "int \<Rightarrow> string" where
  "show_int n = (if n < 0 then CHR ''-'' # digits_of (nat (- n)) else digits_of (nat n))"

definition qnum :: "int \<Rightarrow> qstring" where
  "qnum n = qs (show_int n)"

definition bnum :: "int \<Rightarrow> bytes" where
  "bnum n = bs (show_int n)"

subsection \<open>\<open>QString::arg\<close>\<close>

text \<open>
  A place marker is a percent sign, an optional \<open>L\<close> and one or two digits. \<open>s.arg(a)\<close> puts
  \<open>a\<close> for every occurrence of the lowest numbered marker of \<open>s\<close>, and leaves \<open>s\<close> alone if it
  has none. A chain of calls therefore also replaces markers that an earlier argument brought
  in. \<open>s.arg(a, b)\<close> replaces the two lowest markers at once (\<open>qarg2\<close>).
\<close>

definition digit_val :: "qchar \<Rightarrow> nat option" where
  "digit_val c = (if 0x30 \<le> c \<and> c \<le> 0x39 then Some (unat c - 48) else None)"

fun marker_digits :: "qstring \<Rightarrow> (nat \<times> qstring) option" where
  "marker_digits [] = None"
| "marker_digits (c # cs) =
     (case digit_val c of
        None \<Rightarrow> None
      | Some d \<Rightarrow>
          (case cs of
             [] \<Rightarrow> Some (d, [])
           | c' # cs' \<Rightarrow>
               (case digit_val c' of
                  None \<Rightarrow> Some (d, cs)
                | Some d' \<Rightarrow> Some (10 * d + d', cs'))))"

definition marker_at :: "qstring \<Rightarrow> (nat \<times> qstring) option" where
  "marker_at s =
     (case s of
        [] \<Rightarrow> None
      | c # cs \<Rightarrow>
          if c \<noteq> 0x25 then None
          else (case cs of
                  [] \<Rightarrow> None
                | l # ls \<Rightarrow> if l = 0x4C then marker_digits ls else marker_digits cs))"

lemma marker_digits_length: "marker_digits s = Some (n, r) \<Longrightarrow> length r < length s"
  by (induction s rule: marker_digits.induct) (auto split: option.splits list.splits)

lemma marker_at_length: "marker_at s = Some (n, r) \<Longrightarrow> length r < length s"
  by (auto simp: marker_at_def simp del: marker_digits.simps split: list.splits if_splits
      dest!: marker_digits_length)

function arg_tokens :: "qstring \<Rightarrow> (qchar + nat \<times> qstring) list" where
  "arg_tokens s =
     (case marker_at s of
        Some (n, r) \<Rightarrow> Inr (n, take (length s - length r) s) # arg_tokens r
      | None \<Rightarrow> (case s of [] \<Rightarrow> [] | c # cs \<Rightarrow> Inl c # arg_tokens cs))"
  by pat_completeness auto
termination
  by (relation "measure length") (auto dest: marker_at_length)

declare arg_tokens.simps [simp del]

fun arg_render :: "(nat \<Rightarrow> qstring option) \<Rightarrow> (qchar + nat \<times> qstring) list \<Rightarrow> qstring" where
  "arg_render f [] = []"
| "arg_render f (Inl c # ts) = c # arg_render f ts"
| "arg_render f (Inr (n, raw) # ts) = (case f n of None \<Rightarrow> raw | Some a \<Rightarrow> a) @ arg_render f ts"

fun arg_markers :: "(qchar + nat \<times> qstring) list \<Rightarrow> nat list" where
  "arg_markers [] = []"
| "arg_markers (Inl c # ts) = arg_markers ts"
| "arg_markers (Inr (n, raw) # ts) = n # arg_markers ts"

definition qarg :: "qstring \<Rightarrow> qstring \<Rightarrow> qstring" where
  "qarg s a =
     (let ts = arg_tokens s in
      case sort (remdups (arg_markers ts)) of
        [] \<Rightarrow> s
      | m # _ \<Rightarrow> arg_render (\<lambda>n. if n = m then Some a else None) ts)"

definition qarg2 :: "qstring \<Rightarrow> qstring \<Rightarrow> qstring \<Rightarrow> qstring" where
  "qarg2 s a b =
     (let ts = arg_tokens s in
      case sort (remdups (arg_markers ts)) of
        [] \<Rightarrow> s
      | [m] \<Rightarrow> arg_render (\<lambda>n. if n = m then Some a else None) ts
      | m # m' # _ \<Rightarrow>
          arg_render (\<lambda>n. if n = m then Some a else if n = m' then Some b else None) ts)"

subsection \<open>ASCII case mapping, for instances of the parameter \<open>lc\<close>\<close>

definition ascii_lower1 :: "qchar \<Rightarrow> qchar" where
  "ascii_lower1 c = (if 0x41 \<le> c \<and> c \<le> 0x5A then c + 0x20 else c)"

definition ascii_lower :: "qstring \<Rightarrow> qstring" where
  "ascii_lower = map ascii_lower1"

subsection \<open>Reading numbers\<close>

fun dec_digits :: "qstring \<Rightarrow> int \<Rightarrow> int option" where
  "dec_digits [] acc = Some acc"
| "dec_digits (c # cs) acc =
     (if 0x30 \<le> c \<and> c \<le> 0x39 then dec_digits cs (10 * acc + (uint c - 0x30)) else None)"

definition parse_int :: "qstring \<Rightarrow> int option" where
  \<comment> \<open>decimal text as \<open>QString::toInt\<close> and \<open>toLongLong\<close> read it, before the range check\<close>
  "parse_int s =
     (case trimmed s of
        [] \<Rightarrow> None
      | c # cs \<Rightarrow>
          if c = qc CHR ''-'' then (if cs = [] then None else map_option uminus (dec_digits cs 0))
          else if c = qc CHR ''+'' then (if cs = [] then None else dec_digits cs 0)
          else dec_digits (c # cs) 0)"

definition in_range :: "nat \<Rightarrow> int \<Rightarrow> int option" where
  "in_range w v = (if - (2 ^ (w - 1)) \<le> v \<and> v < 2 ^ (w - 1) then Some v else None)"

definition to_int :: "nat \<Rightarrow> qstring \<Rightarrow> int option" where
  \<comment> \<open>\<open>None\<close> when Qt sets \<open>ok\<close> to false; the value is then 0\<close>
  "to_int w s = Option.bind (parse_int s) (in_range w)"

subsection \<open>UTF-8\<close>

definition utf8_char :: "nat \<Rightarrow> bytes" where
  "utf8_char n = map of_nat
     (if n < 0x80 then [n]
      else if n < 0x800 then [0xC0 + n div 64, 0x80 + n mod 64]
      else if n < 0x10000 then [0xE0 + n div 4096, 0x80 + n div 64 mod 64, 0x80 + n mod 64]
      else [0xF0 + n div 262144, 0x80 + n div 4096 mod 64, 0x80 + n div 64 mod 64, 0x80 + n mod 64])"

definition is_high :: "qchar \<Rightarrow> bool" where
  "is_high c \<longleftrightarrow> 0xD800 \<le> c \<and> c < 0xDC00"

definition is_low :: "qchar \<Rightarrow> bool" where
  "is_low c \<longleftrightarrow> 0xDC00 \<le> c \<and> c < 0xE000"

fun to_utf8 :: "qstring \<Rightarrow> bytes" where
  \<comment> \<open>\<open>QString::toUtf8\<close>; an unpaired surrogate becomes the replacement character\<close>
  "to_utf8 [] = []"
| "to_utf8 [c] =
     (if is_high c \<or> is_low c then utf8_char 0xFFFD else utf8_char (unat c))"
| "to_utf8 (c # d # cs) =
     (if is_high c \<and> is_low d then
        utf8_char (0x10000 + (unat c - 0xD800) * 0x400 + (unat d - 0xDC00)) @ to_utf8 cs
      else (if is_high c \<or> is_low c then utf8_char 0xFFFD else utf8_char (unat c)) @
           to_utf8 (d # cs))"

subsection \<open>Nibbles\<close>

lemma high_nibble: "drop_bit 4 (b :: byte) < 16"
proof -
  have "unat b < 256" using unsigned_less [of b] by simp
  then have "unat b div 16 < 16" by (simp add: less_mult_imp_div_less)
  then show ?thesis by (simp add: word_less_nat_alt drop_bit_eq_div unat_div)
qed

lemma low_nibble: "(b :: byte) AND 15 < 16"
  by (rule le_less_trans [OF word_and_le1]) simp

lemma join_nibbles: "push_bit 4 (drop_bit 4 b) OR (b AND 15) = (b :: byte)"
proof -
  have "(15 :: byte) = mask 4" by (simp add: mask_eq_exp_minus_1)
  then have "b AND 15 = take_bit 4 b" by (simp add: take_bit_eq_mask)
  then show ?thesis
    by (simp only:) (rule bit_eqI, auto simp: bit_simps)
qed

lemma nibble_cases:
  assumes "(n :: byte) < 16"
  shows "n \<in> {0, 1, 2, 3, 4, 5, 6, 7, 8, 9, 10, 11, 12, 13, 14, 15}"
proof -
  have "unat n < 16" using assms by (simp add: word_less_nat_alt)
  then have "unat n \<in> set [0..<16]" by simp
  then have "(of_nat (unat n) :: byte) \<in> set (map of_nat [0..<16])" by (simp only: set_map) blast
  then show ?thesis by (simp add: upt_conv_Cons)
qed

section \<open>Numbers\<close>

definition clamp :: "int \<Rightarrow> int \<Rightarrow> int \<Rightarrow> int" where
  "clamp v lo hi = (if v < lo then lo else if hi < v then hi else v)"

lemma clamp_bounds: "lo \<le> hi \<Longrightarrow> lo \<le> clamp v lo hi \<and> clamp v lo hi \<le> hi"
  by (simp add: clamp_def)

lemma clamp_id [simp]: "lo \<le> v \<Longrightarrow> v \<le> hi \<Longrightarrow> clamp v lo hi = v"
  by (simp add: clamp_def)

lemma clamp_idem [simp]: "lo \<le> hi \<Longrightarrow> clamp (clamp v lo hi) lo hi = clamp v lo hi"
  by (simp add: clamp_def)

section \<open>Loops over vectors\<close>

fun upd_first :: "('a \<Rightarrow> bool) \<Rightarrow> ('a \<Rightarrow> 'a) \<Rightarrow> 'a list \<Rightarrow> 'a list" where
  "upd_first P f [] = []"
| "upd_first P f (x # xs) = (if P x then f x # xs else x # upd_first P f xs)"

lemma upd_first_none: "\<forall>x \<in> set xs. \<not> P x \<Longrightarrow> upd_first P f xs = xs"
  by (induction xs) auto

lemma length_upd_first [simp]: "length (upd_first P f xs) = length xs"
  by (induction xs) auto

lemma map_upd_first: "(\<And>x. P x \<Longrightarrow> g (f x) = g x) \<Longrightarrow> map g (upd_first P f xs) = map g xs"
  by (induction xs) auto

lemma upd_first_split:
  "\<exists>x \<in> set xs. P x \<Longrightarrow>
   \<exists>us x vs. xs = us @ x # vs \<and> P x \<and> (\<forall>u \<in> set us. \<not> P u) \<and> upd_first P f xs = us @ f x # vs"
proof (induction xs)
  case Nil
  then show ?case by simp
next
  case (Cons y xs)
  show ?case
  proof (cases "P y")
    case True
    then show ?thesis
      by (intro exI [of _ "[]"] exI [of _ y] exI [of _ xs]) simp
  next
    case False
    with Cons.prems have "\<exists>x \<in> set xs. P x" by simp
    with Cons.IH obtain us x vs where "xs = us @ x # vs" and "P x"
      and "\<forall>u \<in> set us. \<not> P u" and "upd_first P f xs = us @ f x # vs" by blast
    with False show ?thesis
      by (intro exI [of _ "y # us"] exI [of _ x] exI [of _ vs]) simp
  qed
qed

lemma find_Some_mem: "List.find P xs = Some x \<Longrightarrow> x \<in> set xs \<and> P x"
  by (induction xs) (auto split: if_splits)

lemma find_None: "List.find P xs = None \<longleftrightarrow> (\<forall>x \<in> set xs. \<not> P x)"
  by (induction xs) auto


subsection \<open>std::sort and std::partial_sort\<close>

text \<open>
  What the standard promises of the two for a strict weak order, and nothing more: ties come out
  in any order. They are parameters of the definitions that use them. \<open>isort\<close> and \<open>psort\<close> are
  instances.
\<close>

definition weak_order :: "('a \<Rightarrow> 'a \<Rightarrow> bool) \<Rightarrow> bool" where
  "weak_order lt \<longleftrightarrow> (\<forall>a. \<not> lt a a) \<and> (\<forall>a b c. lt a b \<longrightarrow> lt b c \<longrightarrow> lt a c) \<and>
                    (\<forall>a b c. \<not> lt a b \<longrightarrow> \<not> lt b c \<longrightarrow> \<not> lt a c)"

definition sorts :: "(('a \<Rightarrow> 'a \<Rightarrow> bool) \<Rightarrow> 'a list \<Rightarrow> 'a list) \<Rightarrow> bool" where
  "sorts f \<longleftrightarrow> (\<forall>lt xs. weak_order lt \<longrightarrow>
                mset (f lt xs) = mset xs \<and> sorted_wrt (\<lambda>a b. \<not> lt b a) (f lt xs))"

definition partially_sorts :: "(('a \<Rightarrow> 'a \<Rightarrow> bool) \<Rightarrow> nat \<Rightarrow> 'a list \<Rightarrow> 'a list) \<Rightarrow> bool" where
  "partially_sorts f \<longleftrightarrow> (\<forall>lt n xs. weak_order lt \<longrightarrow> n \<le> length xs \<longrightarrow>
                mset (f lt n xs) = mset xs \<and> sorted_wrt (\<lambda>a b. \<not> lt b a) (take n (f lt n xs)) \<and>
                (\<forall>a \<in> set (take n (f lt n xs)). \<forall>b \<in> set (drop n (f lt n xs)). \<not> lt b a))"

fun insert_by :: "('a \<Rightarrow> 'a \<Rightarrow> bool) \<Rightarrow> 'a \<Rightarrow> 'a list \<Rightarrow> 'a list" where
  "insert_by lt x [] = [x]"
| "insert_by lt x (y # ys) = (if lt y x then y # insert_by lt x ys else x # y # ys)"

definition isort :: "('a \<Rightarrow> 'a \<Rightarrow> bool) \<Rightarrow> 'a list \<Rightarrow> 'a list" where
  "isort lt xs = foldr (insert_by lt) xs []"

definition psort :: "('a \<Rightarrow> 'a \<Rightarrow> bool) \<Rightarrow> nat \<Rightarrow> 'a list \<Rightarrow> 'a list" where
  "psort lt n xs = isort lt xs"

lemma mset_insert_by [simp]: "mset (insert_by lt x ys) = add_mset x (mset ys)"
  by (induction ys) auto

lemma set_insert_by [simp]: "set (insert_by lt x ys) = insert x (set ys)"
  by (induction ys) auto

lemma sorted_insert_by:
  assumes "weak_order lt" "sorted_wrt (\<lambda>a b. \<not> lt b a) ys"
  shows "sorted_wrt (\<lambda>a b. \<not> lt b a) (insert_by lt x ys)"
  using assms(2)
proof (induction ys)
  case Nil
  then show ?case by simp
next
  case (Cons y ys)
  show ?case
  proof (cases "lt y x")
    case True
    moreover from this assms(1) have "\<not> lt x y" unfolding weak_order_def by blast
    ultimately show ?thesis using Cons by auto
  next
    case False
    moreover have "\<not> lt z x" if "z \<in> set ys" for z
    proof -
      from Cons.prems that have "\<not> lt z y" by simp
      with assms(1) False show ?thesis unfolding weak_order_def by blast
    qed
    ultimately show ?thesis using Cons.prems by auto
  qed
qed

lemma sorts_isort: "sorts isort"
proof -
  have "mset (isort lt xs) = mset xs" for lt :: "'a \<Rightarrow> 'a \<Rightarrow> bool" and xs
    by (induction xs) (simp_all add: isort_def)
  moreover have "sorted_wrt (\<lambda>a b. \<not> lt b a) (isort lt xs)"
    if "weak_order lt" for lt :: "'a \<Rightarrow> 'a \<Rightarrow> bool" and xs
    by (induction xs) (simp_all add: isort_def sorted_insert_by [OF that])
  ultimately show ?thesis by (simp add: sorts_def)
qed

lemma sorted_wrt_take_drop:
  assumes "sorted_wrt P ys"
  shows "sorted_wrt P (take n ys)" and "\<forall>a \<in> set (take n ys). \<forall>b \<in> set (drop n ys). P a b"
proof -
  have "sorted_wrt P (take n ys @ drop n ys)" using assms by simp
  then show "sorted_wrt P (take n ys)" and "\<forall>a \<in> set (take n ys). \<forall>b \<in> set (drop n ys). P a b"
    unfolding sorted_wrt_append by blast+
qed

lemma partially_sorts_psort: "partially_sorts psort"
  unfolding partially_sorts_def psort_def
proof (intro allI impI conjI)
  fix lt :: "'a \<Rightarrow> 'a \<Rightarrow> bool" and n xs
  assume "weak_order lt"
  with sorts_isort have s: "mset (isort lt xs) = mset xs" "sorted_wrt (\<lambda>a b. \<not> lt b a) (isort lt xs)"
    by (auto simp: sorts_def)
  show "mset (isort lt xs) = mset xs" by (rule s(1))
  show "sorted_wrt (\<lambda>a b. \<not> lt b a) (take n (isort lt xs))"
    by (rule sorted_wrt_take_drop(1) [OF s(2)])
  show "\<forall>a \<in> set (take n (isort lt xs)). \<forall>b \<in> set (drop n (isort lt xs)). \<not> lt b a"
    by (rule sorted_wrt_take_drop(2) [OF s(2)])
qed

end
