(* ===== verification/RssTypes.thy ===== *)
theory RssTypes
  imports Prelude
begin

text \<open>
  The data of the RSS module (\<open>core/rss/rss_types.h\<close>) and its rule engine
  (\<open>core/rss/rss_rule_engine.cc\<close>). A \<open>QDateTime\<close> is the instant in milliseconds, or \<open>None\<close>
  when it is invalid; since Qt 5.14 an invalid one compares less than every valid one. What Qt
  alone decides about text is gathered in \<open>qt_text\<close>: case folding, lower case, and regular
  expressions given by the user.
\<close>

type_synonym qdatetime = "int option"

fun dt_less :: "qdatetime \<Rightarrow> qdatetime \<Rightarrow> bool" where
  "dt_less _ None = False"
| "dt_less None (Some _) = True"
| "dt_less (Some a) (Some b) = (a < b)"

datatype auto_decision = adUnknown | adQueued | adSkipped | adSucceeded | adFailed

record rss_feed =
  f_id :: qstring
  f_title :: qstring
  f_url :: qstring
  f_enabled :: bool
  f_auto_download_enabled :: bool
  f_last_refreshed_at :: qdatetime
  f_last_success_refreshed_at :: qdatetime
  f_last_error :: qstring

definition default_feed :: rss_feed where
  "default_feed =
     \<lparr> f_id = [], f_title = [], f_url = [], f_enabled = True, f_auto_download_enabled = False,
       f_last_refreshed_at = None, f_last_success_refreshed_at = None, f_last_error = [] \<rparr>"

record rss_item =
  i_id :: qstring
  i_feed_id :: qstring
  i_title :: qstring
  i_link :: qstring
  i_guid :: qstring
  i_summary :: qstring
  i_published_at :: qdatetime
  i_magnet :: qstring
  i_torrent_url :: qstring
  i_read :: bool
  i_ignored :: bool
  i_downloaded :: bool
  i_accepted :: bool
  i_queued :: bool
  i_waitlisted :: bool
  i_decision :: auto_decision
  i_reason_code :: qstring
  i_reason_text :: qstring
  i_last_attempt_at :: qdatetime
  i_last_success_at :: qdatetime
  i_retry_count :: int
  i_download_save_path :: qstring

definition default_item :: rss_item where
  "default_item =
     \<lparr> i_id = [], i_feed_id = [], i_title = [], i_link = [], i_guid = [], i_summary = [],
       i_published_at = None, i_magnet = [], i_torrent_url = [], i_read = False,
       i_ignored = False, i_downloaded = False, i_accepted = False, i_queued = False,
       i_waitlisted = False, i_decision = adUnknown, i_reason_code = [], i_reason_text = [],
       i_last_attempt_at = None, i_last_success_at = None, i_retry_count = 0,
       i_download_save_path = [] \<rparr>"

record rss_rule =
  r_id :: qstring
  r_name :: qstring
  r_feed_ids :: "qstring list"
  r_include :: "qstring list"
  r_exclude :: "qstring list"
  r_use_regex :: bool
  r_enabled :: bool
  r_save_path :: qstring
  r_category :: qstring
  r_tags_csv :: qstring

definition default_rule :: rss_rule where
  "default_rule =
     \<lparr> r_id = [], r_name = [], r_feed_ids = [], r_include = [], r_exclude = [],
       r_use_regex = False, r_enabled = False, r_save_path = [], r_category = [], r_tags_csv = [] \<rparr>"

record rule_match =
  m_rule_id :: qstring
  m_rule_name :: qstring
  m_matched :: bool
  m_reason :: qstring

record rss_settlement =
  st_item_id :: qstring
  st_record_save_path :: qstring

record download_request =
  q_magnet :: qstring
  q_torrent_url :: qstring
  q_save_path :: qstring
  q_category :: qstring
  q_tags_csv :: qstring
  q_rule_id :: qstring
  q_item_id :: qstring
  q_feed_id :: qstring
  q_item_title :: qstring
  q_referer_url :: qstring
  q_settlement :: rss_settlement
  q_no_confirm :: bool

datatype auto_scope = kAllEligible | kNewItemsOnly

record rss_settings =
  g_global_auto_download :: bool
  g_refresh_interval_minutes :: int
  g_max_auto_downloads_per_refresh :: int
  g_max_concurrent_auto_downloads :: int
  g_max_auto_download_backlog :: int
  g_history_max_items :: int
  g_history_max_age_days :: int
  g_external_player_command :: qstring

definition default_rss_settings :: rss_settings where
  "default_rss_settings =
     \<lparr> g_global_auto_download = False, g_refresh_interval_minutes = 30,
       g_max_auto_downloads_per_refresh = 10, g_max_concurrent_auto_downloads = 3,
       g_max_auto_download_backlog = 50, g_history_max_items = 5000, g_history_max_age_days = 90,
       g_external_player_command = [] \<rparr>"

record qt_text =
  qt_lower :: "qstring \<Rightarrow> qstring"
  qt_fold :: "qstring \<Rightarrow> qstring"
  qt_re_valid :: "qstring \<Rightarrow> bool"
  qt_re_match :: "qstring \<Rightarrow> qstring \<Rightarrow> bool"

text \<open>An instance for ASCII text in which a regular expression is taken literally.\<close>

definition ascii_text :: qt_text where
  "ascii_text = \<lparr> qt_lower = ascii_lower, qt_fold = ascii_lower, qt_re_valid = (\<lambda>_. True),
                  qt_re_match = (\<lambda>p t. contains (ascii_lower t) (ascii_lower p)) \<rparr>"

section \<open>The rule engine\<close>

definition keywordMatch :: "qt_text \<Rightarrow> qstring \<Rightarrow> qstring \<Rightarrow> bool \<Rightarrow> bool" where
  "keywordMatch E text keyword use_regex =
     (if use_regex then qt_re_valid E keyword \<and> qt_re_match E keyword text
      else contains (qt_fold E text) (qt_fold E keyword))"

definition reason_out_of_scope :: qstring where
  "reason_out_of_scope =
     qu [0x8BA2, 0x9605, 0x6E90, 0x4E0D, 0x5728, 0x89C4, 0x5219, 0x8303, 0x56F4, 0x5185]"

definition reason_no_include :: qstring where
  "reason_no_include =
     qu [0x672A, 0x547D, 0x4E2D, 0x4EFB, 0x4F55, 0x5305, 0x542B, 0x5173, 0x952E, 0x8BCD]"

definition reason_excluded :: qstring where
  "reason_excluded =
     qu [0x547D, 0x4E2D, 0x6392, 0x9664, 0x5173, 0x952E, 0x8BCD, 0x300C] @ qs ''%1'' @ qu [0x300D]"

definition reason_unrestricted :: qstring where
  "reason_unrestricted =
     qu [0x89C4, 0x5219, 0x300C] @ qs ''%1'' @
     qu [0x300D, 0x547D, 0x4E2D, 0xFF08, 0x65E0, 0x5305, 0x542B, 0x8BCD, 0x9650, 0x5236, 0xFF09]"

definition reason_included :: qstring where
  "reason_included =
     qu [0x89C4, 0x5219, 0x300C] @ qs ''%1'' @
     qu [0x300D, 0x547D, 0x4E2D, 0xFF08, 0x5305, 0x542B, 0x8BCD, 0x300C] @ qs ''%2'' @
     qu [0x300D, 0xFF09]"

definition evaluate :: "qt_text \<Rightarrow> rss_rule \<Rightarrow> rss_item \<Rightarrow> rule_match" where
  "evaluate E rule item =
     (let res = (\<lambda>b why. \<lparr> m_rule_id = r_id rule, m_rule_name = r_name rule, m_matched = b,
                           m_reason = why \<rparr>);
          hit = (\<lambda>kw. keywordMatch E (i_title item) kw (r_use_regex rule)) in
      if r_feed_ids rule \<noteq> [] \<and> i_feed_id item \<notin> set (r_feed_ids rule) then
        res False reason_out_of_scope
      else
        (let inc = List.find hit (r_include rule);
             includeOk = (r_include rule = [] \<or> inc \<noteq> None);
             matchedInclude = (case inc of None \<Rightarrow> [] | Some kw \<Rightarrow> kw) in
         if \<not> includeOk then res False reason_no_include
         else
           (case List.find hit (r_exclude rule) of
              Some kw \<Rightarrow> res False (qarg reason_excluded kw)
            | None \<Rightarrow>
                res True
                  (if matchedInclude = [] then qarg reason_unrestricted (r_name rule)
                   else qarg2 reason_included (r_name rule) matchedInclude))))"

definition evaluateAll :: "qt_text \<Rightarrow> rss_rule list \<Rightarrow> rss_item \<Rightarrow> rule_match list" where
  "evaluateAll E rules item = map (\<lambda>rule. evaluate E rule item) rules"

fun findFirstEnabledMatch :: "qt_text \<Rightarrow> rss_rule list \<Rightarrow> rss_item \<Rightarrow> rule_match option" where
  "findFirstEnabledMatch E [] item = None"
| "findFirstEnabledMatch E (rule # rules) item =
     (if \<not> r_enabled rule then findFirstEnabledMatch E rules item
      else let result = evaluate E rule item in
           if m_matched result then Some result else findFirstEnabledMatch E rules item)"

definition rule_applies :: "qt_text \<Rightarrow> rss_rule \<Rightarrow> rss_item \<Rightarrow> bool" where
  "rule_applies E rule item \<longleftrightarrow>
     (r_feed_ids rule = [] \<or> i_feed_id item \<in> set (r_feed_ids rule)) \<and>
     (r_include rule = [] \<or>
        (\<exists>kw \<in> set (r_include rule). keywordMatch E (i_title item) kw (r_use_regex rule))) \<and>
     \<not> (\<exists>kw \<in> set (r_exclude rule). keywordMatch E (i_title item) kw (r_use_regex rule))"

lemma evaluate_ids [simp]:
  "m_rule_id (evaluate E rule item) = r_id rule" "m_rule_name (evaluate E rule item) = r_name rule"
  by (auto simp: evaluate_def Let_def split: option.splits)

lemma evaluate_matched: "m_matched (evaluate E rule item) \<longleftrightarrow> rule_applies E rule item"
proof -
  let ?hit = "\<lambda>kw. keywordMatch E (i_title item) kw (r_use_regex rule)"
  have "List.find ?hit (r_include rule) = None \<longleftrightarrow> \<not> (\<exists>kw \<in> set (r_include rule). ?hit kw)"
    and "List.find ?hit (r_exclude rule) = None \<longleftrightarrow> \<not> (\<exists>kw \<in> set (r_exclude rule). ?hit kw)"
    by (simp_all add: find_None)
  then show ?thesis
    by (cases "List.find ?hit (r_exclude rule)")
       (auto simp: evaluate_def rule_applies_def Let_def)
qed

lemma findFirst_eq:
  "findFirstEnabledMatch E rules item =
     map_option (\<lambda>rule. evaluate E rule item)
       (List.find (\<lambda>rule. r_enabled rule \<and> rule_applies E rule item) rules)"
  by (induction rules) (auto simp: evaluate_matched Let_def)

text \<open>
  The first enabled rule that applies decides: \<open>findFirstEnabledMatch\<close> answers for it and for
  no later rule, and a rule applies exactly if the item's feed is in its scope, some include
  keyword (if there are any) and no exclude keyword matches the title. Nothing is answered only
  if no enabled rule applies.
\<close>

theorem first_enabled_rule_decides:
  "case findFirstEnabledMatch E rules item of
     None \<Rightarrow> \<forall>rule \<in> set rules. \<not> (r_enabled rule \<and> rule_applies E rule item)
   | Some res \<Rightarrow> \<exists>us rule vs. rules = us @ rule # vs \<and> r_enabled rule \<and> rule_applies E rule item \<and>
        (\<forall>u \<in> set us. \<not> (r_enabled u \<and> rule_applies E u item)) \<and>
        res = evaluate E rule item \<and> m_matched res"
proof (cases "List.find (\<lambda>rule. r_enabled rule \<and> rule_applies E rule item) rules")
  case None
  then have "findFirstEnabledMatch E rules item = None" by (simp add: findFirst_eq)
  with None show ?thesis by (simp add: find_None)
next
  case (Some rule)
  then obtain i where i: "i < length rules" "rules ! i = rule"
    "r_enabled rule \<and> rule_applies E rule item"
    "\<forall>j < i. \<not> (r_enabled (rules ! j) \<and> rule_applies E (rules ! j) item)"
    by (auto simp: find_Some_iff)
  have "rules = take i rules @ rule # drop (Suc i) rules" using i by (metis id_take_nth_drop)
  moreover have "\<forall>u \<in> set (take i rules). \<not> (r_enabled u \<and> rule_applies E u item)"
    using i(1,4) by (auto simp: in_set_conv_nth)
  ultimately show ?thesis
    using Some i(3) by (auto simp: findFirst_eq evaluate_matched intro!: exI)
qed

definition example_rule :: "string \<Rightarrow> bool \<Rightarrow> string \<Rightarrow> rss_rule" where
  "example_rule n on kw =
     default_rule \<lparr> r_id := qs n, r_name := qs n, r_enabled := on, r_include := [qs kw] \<rparr>"

definition example_rules :: "rss_rule list" where
  "example_rules =
     [example_rule ''a'' False ''x'', example_rule ''b'' True ''x'', example_rule ''c'' True ''x'']"

definition example_title :: rss_item where
  "example_title = default_item \<lparr> i_title := qs ''aXb'' \<rparr>"

lemma first_enabled_rule_decides_witness:
  "\<exists>res. findFirstEnabledMatch ascii_text example_rules example_title = Some res \<and> m_matched res \<and>
         m_rule_id res = qs ''b''"
proof -
  have "contains (ascii_lower (qs ''aXb'')) (ascii_lower (qs ''x''))" by code_simp
  then have a: "rule_applies ascii_text (example_rule n on ''x'') example_title" for n on
    by (simp add: rule_applies_def example_rule_def example_title_def default_rule_def
        default_item_def keywordMatch_def ascii_text_def)
  have "r_enabled (example_rule n on kw) = on" for n on kw by (simp add: example_rule_def)
  with a have "findFirstEnabledMatch ascii_text example_rules example_title =
      Some (evaluate ascii_text (example_rule ''b'' True ''x'') example_title)"
    by (simp add: findFirst_eq example_rules_def)
  moreover have "r_id (example_rule ''b'' True ''x'') = qs ''b''" by (simp add: example_rule_def)
  ultimately show ?thesis
    using first_enabled_rule_decides
        [where E = ascii_text and rules = example_rules and item = example_title]
    by auto
qed

end
