(* ===== verification/Interfaces.thy ===== *)
theory Interfaces
  imports Prelude
begin

text \<open>
  The contracts the components rely on, as locales. \<open>keyed_machine\<close> is the contract of a store
  that keeps one value per key and changes only the value of the key a message is for (the task
  store, the log store); its lemmas say that the value of a key after a run is a function of the
  messages for that key alone. \<open>bounded_queue\<close> is the contract of a first-in first-out queue
  with a capacity (the ring buffer, the command queue of the logger). \<open>dedup_index\<close> is the
  contract of an index that recognises what was recorded. The providers interpret them in their
  own theories.
\<close>

section \<open>One value per key\<close>

locale keyed_machine =
  fixes look :: "'s \<Rightarrow> 'k \<Rightarrow> 'v option"
    and step :: "'e \<Rightarrow> 's \<Rightarrow> 's"
    and key :: "'e \<Rightarrow> 'k"
    and val_step :: "'e \<Rightarrow> 'v option \<Rightarrow> 'v option"
  assumes look_step:
    "look (step e s) k = (if k = key e then val_step e (look s k) else look s k)"
begin

lemma look_run:
  "look (fold step es s) k = fold val_step (filter (\<lambda>e. key e = k) es) (look s k)"
  by (induction es arbitrary: s) (auto simp: look_step)

lemma look_run_other:
  "(\<And>e. e \<in> set es \<Longrightarrow> key e \<noteq> k) \<Longrightarrow> look (fold step es s) k = look s k"
  by (induction es arbitrary: s) (auto simp: look_step)

lemma look_run_interleaving:
  "filter (\<lambda>e. key e = k) es = filter (\<lambda>e. key e = k) es' \<Longrightarrow>
   look (fold step es s) k = look (fold step es' s) k"
  by (simp add: look_run)

lemma look_run_after_reset:
  assumes "key r = k" and "\<And>v. val_step r v = None"
  shows "look (fold step (es @ r # es') s) k = fold val_step (filter (\<lambda>e. key e = k) es') None"
  using assms by (simp add: look_run look_step)

end

locale keyed_machine_inv = keyed_machine look step key val_step
  for look :: "'s \<Rightarrow> 'k \<Rightarrow> 'v option"
    and step :: "'e \<Rightarrow> 's \<Rightarrow> 's"
    and key :: "'e \<Rightarrow> 'k"
    and val_step :: "'e \<Rightarrow> 'v option \<Rightarrow> 'v option" +
  fixes ok :: "'k \<Rightarrow> 'v \<Rightarrow> bool"
    and legal :: "'e \<Rightarrow> bool"
  assumes val_step_ok:
    "legal e \<Longrightarrow> (\<And>v. o' = Some v \<Longrightarrow> ok (key e) v) \<Longrightarrow> val_step e o' = Some w \<Longrightarrow> ok (key e) w"
begin

lemma run_ok:
  assumes "\<forall>e \<in> set es. legal e" and "\<And>k v. look s k = Some v \<Longrightarrow> ok k v"
    and "look (fold step es s) k = Some w"
  shows "ok k w"
  using assms
proof (induction es arbitrary: s)
  case Nil
  then show ?case by simp
next
  case (Cons e es)
  have "ok k' v" if "look (step e s) k' = Some v" for k' v
  proof (cases "k' = key e")
    case True
    with that have st: "val_step e (look s (key e)) = Some v" by (simp add: look_step)
    have "ok (key e) v"
      by (rule val_step_ok [OF _ _ st]) (use Cons.prems in auto)
    with True show ?thesis by simp
  next
    case False
    with that Cons.prems(2) show ?thesis by (simp add: look_step)
  qed
  with Cons.IH [of "step e s"] Cons.prems show ?case by simp
qed

end

section \<open>A first-in first-out queue with a capacity\<close>

locale bounded_queue =
  fixes content :: "'q \<Rightarrow> 'a list"
    and inv :: "'q \<Rightarrow> bool"
    and cap :: nat
    and push :: "'a \<Rightarrow> 'q \<Rightarrow> bool \<times> 'q"
    and pop :: "'q \<Rightarrow> 'a option \<times> 'q"
  assumes inv_push: "inv q \<Longrightarrow> inv (snd (push x q))"
    and inv_pop: "inv q \<Longrightarrow> inv (snd (pop q))"
    and push_ok: "inv q \<Longrightarrow> length (content q) < cap \<Longrightarrow>
                    fst (push x q) \<and> content (snd (push x q)) = content q @ [x]"
    and push_full: "inv q \<Longrightarrow> length (content q) = cap \<Longrightarrow>
                    \<not> fst (push x q) \<and> content (snd (push x q)) = content q"
    and bound: "inv q \<Longrightarrow> length (content q) \<le> cap"
    and pop_empty: "inv q \<Longrightarrow> content q = [] \<Longrightarrow> fst (pop q) = None \<and> content (snd (pop q)) = []"
    and pop_ok: "inv q \<Longrightarrow> content q = x # xs \<Longrightarrow> fst (pop q) = Some x \<and> content (snd (pop q)) = xs"
begin

fun push_all :: "'a list \<Rightarrow> 'q \<Rightarrow> 'q" where
  "push_all [] q = q"
| "push_all (x # xs) q = push_all xs (snd (push x q))"

fun pop_n :: "nat \<Rightarrow> 'q \<Rightarrow> 'a list \<times> 'q" where
  "pop_n 0 q = ([], q)"
| "pop_n (Suc n) q =
     (case pop q of
        (None, q') \<Rightarrow> ([], q')
      | (Some x, q') \<Rightarrow> (let (ys, q'') = pop_n n q' in (x # ys, q'')))"

lemma inv_push_all: "inv q \<Longrightarrow> inv (push_all xs q)"
  by (induction xs arbitrary: q) (auto simp: inv_push)

lemma content_push_all:
  "inv q \<Longrightarrow> content (push_all xs q) = content q @ take (cap - length (content q)) xs"
proof (induction xs arbitrary: q)
  case Nil
  then show ?case by simp
next
  case (Cons x xs)
  show ?case
  proof (cases "length (content q) < cap")
    case True
    with push_ok [OF Cons.prems True] Cons.IH [OF inv_push [OF Cons.prems]]
    have "content (push_all (x # xs) q) =
            (content q @ [x]) @ take (cap - length (content q @ [x])) xs"
      by simp
    also have "\<dots> = content q @ take (cap - length (content q)) (x # xs)"
      using True by (simp add: take_Cons')
    finally show ?thesis .
  next
    case False
    with bound [OF Cons.prems] have "length (content q) = cap" by simp
    with push_full [OF Cons.prems this] Cons.IH [OF inv_push [OF Cons.prems]] show ?thesis
      by simp
  qed
qed

lemma pop_n_content:
  "inv q \<Longrightarrow> fst (pop_n n q) = take n (content q) \<and>
            content (snd (pop_n n q)) = drop n (content q) \<and> inv (snd (pop_n n q))"
proof (induction n arbitrary: q)
  case 0
  then show ?case by simp
next
  case (Suc n)
  show ?case
  proof (cases "content q")
    case Nil
    with pop_empty [OF Suc.prems Nil] inv_pop [OF Suc.prems] show ?thesis
      by (cases "pop q") auto
  next
    case (Cons x xs)
    with pop_ok [OF Suc.prems Cons] have p: "fst (pop q) = Some x" "content (snd (pop q)) = xs"
      by auto
    have "fst (pop_n n (snd (pop q))) = take n xs"
      and "content (snd (pop_n n (snd (pop q)))) = drop n xs"
      and "inv (snd (pop_n n (snd (pop q))))"
      using Suc.IH [OF inv_pop [OF Suc.prems]] p by auto
    with p Cons show ?thesis by (cases "pop q") (auto simp: case_prod_beta Let_def)
  qed
qed

text \<open>What goes in comes out in the same order, up to the capacity, and nothing else does.\<close>

lemma fifo:
  "inv q \<Longrightarrow> content q = [] \<Longrightarrow> fst (pop_n n (push_all xs q)) = take n (take cap xs)"
  using content_push_all [of q xs] pop_n_content [OF inv_push_all, of q n xs] by simp

end

section \<open>An index of what was recorded\<close>

locale dedup_index =
  fixes known :: "'d \<Rightarrow> 'a \<Rightarrow> bool"
    and record_in :: "'a \<Rightarrow> 'd \<Rightarrow> 'd"
    and same :: "'a \<Rightarrow> 'a \<Rightarrow> bool"
  assumes known_record: "known (record_in x d) y \<longleftrightarrow> known d y \<or> same x y"
begin

fun keep :: "'d \<Rightarrow> 'a list \<Rightarrow> 'a list \<times> 'd" where
  "keep d [] = ([], d)"
| "keep d (x # xs) =
     (if known d x then keep d xs
      else (let (ys, d') = keep (record_in x d) xs in (x # ys, d')))"

lemma known_fold: "known (fold record_in xs d) y \<longleftrightarrow> known d y \<or> (\<exists>x \<in> set xs. same x y)"
  by (induction xs arbitrary: d) (auto simp: known_record)

lemma keep_index: "snd (keep d xs) = fold record_in (fst (keep d xs)) d"
  by (induction xs arbitrary: d) (auto simp: case_prod_beta Let_def)

lemma keep_subset: "set (fst (keep d xs)) \<subseteq> set xs"
  by (induction xs arbitrary: d) (auto simp: case_prod_beta Let_def)

lemma keep_not_known: "x \<in> set (fst (keep d xs)) \<Longrightarrow> \<not> known d x"
proof (induction xs arbitrary: d)
  case Nil
  then show ?case by simp
next
  case (Cons y ys)
  show ?case
  proof (cases "known d y")
    case True
    with Cons show ?thesis by simp
  next
    case False
    with Cons.prems consider "x = y" | "x \<in> set (fst (keep (record_in y d) ys))"
      by (auto simp: case_prod_beta Let_def)
    then show ?thesis
    proof cases
      case 1
      with False show ?thesis by simp
    next
      case 2
      from Cons.IH [OF this] show ?thesis by (simp add: known_record)
    qed
  qed
qed

lemma keep_pairwise:
  "fst (keep d xs) = us @ x # vs \<Longrightarrow> y \<in> set vs \<Longrightarrow> \<not> same x y"
proof (induction xs arbitrary: d us)
  case Nil
  then show ?case by simp
next
  case (Cons z zs)
  show ?case
  proof (cases "known d z")
    case True
    with Cons show ?thesis by simp
  next
    case False
    let ?r = "fst (keep (record_in z d) zs)"
    from False have eq: "z # ?r = us @ x # vs"
      using Cons.prems(1) by (simp add: case_prod_beta Let_def)
    show ?thesis
    proof (cases us)
      case Nil
      with eq have "x = z" and "vs = ?r" by auto
      with Cons.prems(2) keep_not_known [of y "record_in z d" zs] show ?thesis
        by (simp add: known_record)
    next
      case (Cons u us')
      with eq have r: "?r = us' @ x # vs" by (metis append_Cons list.inject)
      show ?thesis by (rule Cons.IH [OF r Cons.prems(2)])
    qed
  qed
qed

lemma keep_complete:
  "x \<in> set xs \<Longrightarrow> x \<notin> set (fst (keep d xs)) \<Longrightarrow>
   known d x \<or> (\<exists>y \<in> set (fst (keep d xs)). same y x)"
proof (induction xs arbitrary: d)
  case Nil
  then show ?case by simp
next
  case (Cons z zs)
  show ?case
  proof (cases "known d z")
    case True
    with Cons show ?thesis by auto
  next
    case False
    then have k: "fst (keep d (z # zs)) = z # fst (keep (record_in z d) zs)"
      by (simp add: case_prod_beta Let_def)
    with Cons.prems have "x \<in> set zs" and "x \<notin> set (fst (keep (record_in z d) zs))" by auto
    from Cons.IH [OF this] k show ?thesis by (auto simp: known_record)
  qed
qed

end

end
