(* ===== verification/RssDedup.thy ===== *)
theory RssDedup
  imports RssTypes Interfaces
begin

text \<open>
  Duplicate detection and history limits of the RSS module (\<open>core/rss/rss_dedup.cc\<close>). The five
  \<open>unordered_set\<close>s are lists used through membership. The two regular expressions are written
  out as scanners of the magnet text. \<open>std::sort\<close> and the calendar arithmetic of
  \<open>QDateTime::addDays\<close> are arguments.
\<close>

record dedup =
  d_ids :: "qstring list"
  d_guids :: "qstring list"
  d_links :: "qstring list"
  d_urls :: "qstring list"
  d_hashes :: "qstring list"

definition empty_dedup :: dedup where
  "empty_dedup = \<lparr> d_ids = [], d_guids = [], d_links = [], d_urls = [], d_hashes = [] \<rparr>"

record history_policy =
  hp_max_items :: int
  hp_max_age_days :: int

section \<open>Keys of an item\<close>

fun scan :: "(qstring \<Rightarrow> qstring option) \<Rightarrow> qstring \<Rightarrow> qstring option" where
  \<comment> \<open>the leftmost match of a pattern\<close>
  "scan m [] = m []"
| "scan m (c # cs) = (case m (c # cs) of Some r \<Rightarrow> Some r | None \<Rightarrow> scan m cs)"

definition btih :: qstring where
  "btih = qs ''xt=urn:btih:''"

definition match_at :: "(qstring \<Rightarrow> qstring) \<Rightarrow> (qchar \<Rightarrow> bool) \<Rightarrow> nat \<Rightarrow> qstring \<Rightarrow> qstring option" where
  "match_at fo cls n s =
     (let body = take n (drop (length btih) s) in
      if fo (take (length btih) s) = btih \<and> length body = n \<and> list_all cls body then Some body
      else None)"

definition is_hex_char :: "qchar \<Rightarrow> bool" where
  "is_hex_char c \<longleftrightarrow>
     0x30 \<le> c \<and> c \<le> 0x39 \<or> 0x41 \<le> c \<and> c \<le> 0x46 \<or> 0x61 \<le> c \<and> c \<le> 0x66"

definition is_base32_char :: "qchar \<Rightarrow> bool" where
  "is_base32_char c \<longleftrightarrow>
     0x41 \<le> c \<and> c \<le> 0x5A \<or> 0x61 \<le> c \<and> c \<le> 0x7A \<or> 0x32 \<le> c \<and> c \<le> 0x37"

definition extractInfoHash :: "qt_text \<Rightarrow> qstring \<Rightarrow> qstring" where
  "extractInfoHash E magnet =
     (case scan (match_at ascii_lower is_hex_char 40) magnet of
        Some h \<Rightarrow> qt_lower E h
      | None \<Rightarrow>
          (case scan (match_at id is_base32_char 32) magnet of
             Some h \<Rightarrow> qt_lower E h
           | None \<Rightarrow> []))"

definition normalizeTorrentUrl :: "qt_text \<Rightarrow> qstring \<Rightarrow> qstring" where
  "normalizeTorrentUrl E u = qt_lower E (trimmed u)"

definition feedScopeKey :: "qstring \<Rightarrow> qstring \<Rightarrow> qstring" where
  "feedScopeKey feed_id key =
     (if key = [] then [] else if feed_id = [] then key else feed_id @ [0x1E] @ key)"

section \<open>The index\<close>

definition recordItem :: "qt_text \<Rightarrow> rss_item \<Rightarrow> dedup \<Rightarrow> dedup" where
  "recordItem E it d =
     (let url = normalizeTorrentUrl E (i_torrent_url it);
          ih = extractInfoHash E (i_magnet it) in
      \<lparr> d_ids = (if i_id it \<noteq> [] then List.insert (i_id it) (d_ids d) else d_ids d),
        d_guids = (if i_guid it \<noteq> [] then
                     List.insert (feedScopeKey (i_feed_id it) (i_guid it)) (d_guids d)
                   else d_guids d),
        d_links = (if i_link it \<noteq> [] then
                     List.insert (feedScopeKey (i_feed_id it) (i_link it)) (d_links d)
                   else d_links d),
        d_urls = (if i_torrent_url it \<noteq> [] \<and> url \<noteq> [] then
                    List.insert (feedScopeKey (i_feed_id it) url) (d_urls d)
                  else d_urls d),
        d_hashes = (if i_magnet it \<noteq> [] \<and> ih \<noteq> [] then
                      List.insert (feedScopeKey (i_feed_id it) ih) (d_hashes d)
                    else d_hashes d) \<rparr>)"

definition buildIndex :: "qt_text \<Rightarrow> rss_item list \<Rightarrow> dedup" where
  "buildIndex E existing = fold (recordItem E) existing empty_dedup"

definition isDuplicate :: "qt_text \<Rightarrow> dedup \<Rightarrow> rss_item \<Rightarrow> bool" where
  "isDuplicate E d it =
     (let url = normalizeTorrentUrl E (i_torrent_url it);
          ih = extractInfoHash E (i_magnet it) in
      if i_id it \<noteq> [] \<and> i_id it \<in> set (d_ids d) then True
      else if i_guid it \<noteq> [] \<and> feedScopeKey (i_feed_id it) (i_guid it) \<in> set (d_guids d) then True
      else if i_link it \<noteq> [] \<and> feedScopeKey (i_feed_id it) (i_link it) \<in> set (d_links d) then True
      else if i_torrent_url it \<noteq> [] \<and> url \<noteq> [] \<and>
              feedScopeKey (i_feed_id it) url \<in> set (d_urls d) then True
      else if i_magnet it \<noteq> [] \<and> ih \<noteq> [] \<and> feedScopeKey (i_feed_id it) ih \<in> set (d_hashes d)
           then True
      else False)"

fun dedup_loop :: "qt_text \<Rightarrow> dedup \<Rightarrow> rss_item list \<Rightarrow> rss_item list \<times> dedup" where
  "dedup_loop E d [] = ([], d)"
| "dedup_loop E d (it # its) =
     (if isDuplicate E d it then dedup_loop E d its
      else let (unique, d') = dedup_loop E (recordItem E it d) its in (it # unique, d'))"

definition filterDuplicates :: "qt_text \<Rightarrow> rss_item list \<Rightarrow> rss_item list \<Rightarrow> rss_item list \<times> rss_item list" where
  \<comment> \<open>the unique items, and what is left of \<open>incoming\<close>\<close>
  "filterDuplicates E existing incoming =
     (fst (dedup_loop E (buildIndex E existing) incoming), [])"

section \<open>History limits\<close>

definition history_before :: "rss_item \<Rightarrow> rss_item \<Rightarrow> bool" where
  "history_before a b =
     (if i_downloaded a \<noteq> i_downloaded b then i_downloaded a \<and> \<not> i_downloaded b
      else dt_less (i_published_at b) (i_published_at a))"

definition too_old :: "int \<Rightarrow> rss_item \<Rightarrow> bool" where
  "too_old cutoff it \<longleftrightarrow>
     i_published_at it \<noteq> None \<and> dt_less (i_published_at it) (Some cutoff) \<and> \<not> i_downloaded it"

definition pruneHistory ::
  "((rss_item \<Rightarrow> rss_item \<Rightarrow> bool) \<Rightarrow> rss_item list \<Rightarrow> rss_item list) \<Rightarrow> (int \<Rightarrow> int \<Rightarrow> int) \<Rightarrow> int \<Rightarrow>
   history_policy \<Rightarrow> rss_item list \<Rightarrow> int \<times> rss_item list" where
  "pruneHistory srt addDays now pol items =
     (let items1 = (if hp_max_age_days pol > 0
                    then filter (\<lambda>it. \<not> too_old (addDays now (- hp_max_age_days pol)) it) items
                    else items);
          items2 = (if hp_max_items pol > 0 \<and> int (length items1) > hp_max_items pol
                    then take (nat (hp_max_items pol)) (srt history_before items1)
                    else items1) in
      (int (length items) - int (length items2), items2))"

section \<open>What makes two items the same\<close>

datatype item_key = KId qstring | KGuid qstring | KLink qstring | KUrl qstring | KHash qstring

definition item_keys :: "qt_text \<Rightarrow> rss_item \<Rightarrow> item_key set" where
  "item_keys E it =
     (let url = normalizeTorrentUrl E (i_torrent_url it);
          ih = extractInfoHash E (i_magnet it);
          scoped = (\<lambda>K k. K (feedScopeKey (i_feed_id it) k)) in
      (if i_id it \<noteq> [] then {KId (i_id it)} else {}) \<union>
      (if i_guid it \<noteq> [] then {scoped KGuid (i_guid it)} else {}) \<union>
      (if i_link it \<noteq> [] then {scoped KLink (i_link it)} else {}) \<union>
      (if i_torrent_url it \<noteq> [] \<and> url \<noteq> [] then {scoped KUrl url} else {}) \<union>
      (if i_magnet it \<noteq> [] \<and> ih \<noteq> [] then {scoped KHash ih} else {}))"

definition same_item :: "qt_text \<Rightarrow> rss_item \<Rightarrow> rss_item \<Rightarrow> bool" where
  "same_item E a b \<longleftrightarrow> item_keys E a \<inter> item_keys E b \<noteq> {}"

definition index_keys :: "dedup \<Rightarrow> item_key set" where
  "index_keys d =
     KId ` set (d_ids d) \<union> KGuid ` set (d_guids d) \<union> KLink ` set (d_links d) \<union>
     KUrl ` set (d_urls d) \<union> KHash ` set (d_hashes d)"

lemma index_keys_mem:
  "KId k \<in> index_keys d \<longleftrightarrow> k \<in> set (d_ids d)"
  "KGuid k \<in> index_keys d \<longleftrightarrow> k \<in> set (d_guids d)"
  "KLink k \<in> index_keys d \<longleftrightarrow> k \<in> set (d_links d)"
  "KUrl k \<in> index_keys d \<longleftrightarrow> k \<in> set (d_urls d)"
  "KHash k \<in> index_keys d \<longleftrightarrow> k \<in> set (d_hashes d)"
  by (auto simp: index_keys_def)

lemma opt_key_meets: "(if P then {x} else {}) \<inter> S = {} \<longleftrightarrow> \<not> (P \<and> x \<in> S)"
  by simp

lemma if_or: "(if P then True else Q) \<longleftrightarrow> P \<or> Q"
  by simp

lemma isDuplicate_keys: "isDuplicate E d it \<longleftrightarrow> item_keys E it \<inter> index_keys d \<noteq> {}"
  unfolding isDuplicate_def item_keys_def Let_def Int_Un_distrib2 Un_empty opt_key_meets if_or
    index_keys_mem
  by blast

lemma index_keys_opt:
  "index_keys \<lparr> d_ids = (if P1 then List.insert k1 a1 else a1),
                d_guids = (if P2 then List.insert k2 a2 else a2),
                d_links = (if P3 then List.insert k3 a3 else a3),
                d_urls = (if P4 then List.insert k4 a4 else a4),
                d_hashes = (if P5 then List.insert k5 a5 else a5) \<rparr> =
   index_keys \<lparr> d_ids = a1, d_guids = a2, d_links = a3, d_urls = a4, d_hashes = a5 \<rparr> \<union>
     ((if P1 then {KId k1} else {}) \<union> (if P2 then {KGuid k2} else {}) \<union>
      (if P3 then {KLink k3} else {}) \<union> (if P4 then {KUrl k4} else {}) \<union>
      (if P5 then {KHash k5} else {}))"
  by (rule set_eqI, case_tac x) (simp_all add: index_keys_mem, blast+)

lemma index_recordItem: "index_keys (recordItem E it d) = index_keys d \<union> item_keys E it"
  by (cases d) (simp only: recordItem_def item_keys_def Let_def index_keys_opt dedup.select_convs)

interpretation dedup: dedup_index "isDuplicate E" "recordItem E" "same_item E" for E
  by unfold_locales (auto simp: isDuplicate_keys index_recordItem same_item_def)

lemma dedup_loop_keep: "dedup_loop E d its = dedup.keep E d its"
  by (induction its arbitrary: d) auto

lemma known_buildIndex: "isDuplicate E (buildIndex E es) y \<longleftrightarrow> (\<exists>x \<in> set es. same_item E x y)"
  by (simp add: buildIndex_def dedup.known_fold)
     (simp add: isDuplicate_keys index_keys_def empty_dedup_def)

lemma dt_less_trans: "dt_less a b \<Longrightarrow> dt_less b c \<Longrightarrow> dt_less a c"
  by (cases a; cases b; cases c) auto

lemma dt_less_ntrans: "\<not> dt_less a b \<Longrightarrow> \<not> dt_less b c \<Longrightarrow> \<not> dt_less a c"
  by (cases a; cases b; cases c) auto

lemma dt_less_irrefl: "\<not> dt_less a a"
  by (cases a) auto

lemma history_before_weak: "weak_order history_before"
proof -
  have "\<not> history_before a a" for a by (simp add: history_before_def dt_less_irrefl)
  moreover have "history_before a c" if "history_before a b" "history_before b c" for a b c
    by (cases "i_downloaded a"; cases "i_downloaded b"; cases "i_downloaded c")
      (use that in \<open>auto simp: history_before_def intro: dt_less_trans\<close>)
  moreover have "\<not> history_before a c" if "\<not> history_before a b" "\<not> history_before b c" for a b c
    by (cases "i_downloaded a"; cases "i_downloaded b"; cases "i_downloaded c")
      (use that in \<open>auto simp: history_before_def dest: dt_less_ntrans\<close>)
  ultimately show ?thesis unfolding weak_order_def by blast
qed

section \<open>Properties\<close>

text \<open>
  C15. Filtering an incoming batch keeps exactly the new items: in order, no kept item shares an
  id, or within its feed a guid, link, torrent URL or info hash, with a stored item or with
  another kept item, and every item left out shares one with a stored or a kept item.
\<close>

theorem filterDuplicates_exact:
  assumes "filterDuplicates E existing incoming = (unique, rest)"
  shows "rest = [] \<and> subseq unique incoming \<and>
    (\<forall>y \<in> set unique. \<not> (\<exists>x \<in> set existing. same_item E x y)) \<and>
    (\<forall>us x vs. unique = us @ x # vs \<longrightarrow> (\<forall>y \<in> set vs. \<not> same_item E x y)) \<and>
    (\<forall>y \<in> set incoming. y \<notin> set unique \<longrightarrow>
       (\<exists>x \<in> set existing \<union> set unique. same_item E x y))"
proof -
  let ?d = "buildIndex E existing"
  from assms have u: "unique = fst (dedup.keep E ?d incoming)" and r: "rest = []"
    by (auto simp: filterDuplicates_def dedup_loop_keep)
  have sub: "subseq (fst (dedup.keep E d its)) its" for d its
    by (induction its arbitrary: d) (auto simp: case_prod_beta Let_def)
  show ?thesis
  proof (intro conjI)
    show "rest = []" by (rule r)
    show "subseq unique incoming" unfolding u by (rule sub)
    show "\<forall>y \<in> set unique. \<not> (\<exists>x \<in> set existing. same_item E x y)"
      using dedup.keep_not_known [of _ E ?d incoming] unfolding u known_buildIndex by blast
    show "\<forall>us x vs. unique = us @ x # vs \<longrightarrow> (\<forall>y \<in> set vs. \<not> same_item E x y)"
      using dedup.keep_pairwise [of E ?d incoming] unfolding u by blast
    show "\<forall>y \<in> set incoming. y \<notin> set unique \<longrightarrow>
        (\<exists>x \<in> set existing \<union> set unique. same_item E x y)"
      using dedup.keep_complete [of _ incoming E ?d] unfolding u known_buildIndex by blast
  qed
qed

definition example_item :: "string \<Rightarrow> string \<Rightarrow> rss_item" where
  "example_item f g = default_item \<lparr> i_feed_id := qs f, i_guid := qs g \<rparr>"

lemma filterDuplicates_exact_witness:
  "\<exists>unique rest.
     filterDuplicates ascii_text [example_item ''f'' ''1'']
       [example_item ''f'' ''1'', example_item ''g'' ''1''] = (unique, rest) \<and> rest = [] \<and>
     subseq unique [example_item ''f'' ''1'', example_item ''g'' ''1'']"
  using filterDuplicates_exact
    [of ascii_text "[example_item ''f'' ''1'']" "[example_item ''f'' ''1'', example_item ''g'' ''1'']"]
  by (metis prod.collapse)

text \<open>
  Pruning only removes items, reports how many, respects the item limit, never removes a
  downloaded item because of its age, and when the limit bites removes no downloaded item while
  it keeps one that is not, and no newer one while it keeps an older one of the same kind.
\<close>

theorem pruneHistory_keeps_the_right_items:
  assumes "sorts srt" and "pruneHistory srt addDays now pol items = (removed, kept)"
  shows "mset kept \<subseteq># mset items \<and> removed = int (length items) - int (length kept) \<and>
    (0 < hp_max_items pol \<longrightarrow> int (length kept) \<le> hp_max_items pol) \<and>
    (\<forall>x \<in># mset items - mset kept.
       hp_max_age_days pol > 0 \<and> too_old (addDays now (- hp_max_age_days pol)) x \<or>
       0 < hp_max_items pol \<and> int (length kept) = hp_max_items pol \<and>
       (\<forall>y \<in> set kept. \<not> history_before x y))"
proof -
  let ?old = "\<lambda>x. hp_max_age_days pol > 0 \<and> too_old (addDays now (- hp_max_age_days pol)) x"
  define items1 where "items1 = filter (\<lambda>x. \<not> ?old x) items"
  have i1: "(if hp_max_age_days pol > 0
             then filter (\<lambda>it. \<not> too_old (addDays now (- hp_max_age_days pol)) it) items
             else items) = items1"
    by (auto simp: items1_def)
  define R where "R = mset (filter ?old items)"
  have split: "mset items = mset items1 + R"
    unfolding items1_def R_def by (induction items) auto
  have old: "\<forall>x \<in># R. ?old x" by (simp add: R_def)
  show ?thesis
  proof (cases "hp_max_items pol > 0 \<and> int (length items1) > hp_max_items pol")
    case False
    with assms(2) have "kept = items1" "removed = int (length items) - int (length kept)"
      by (auto simp: pruneHistory_def i1)
    with False split old show ?thesis by auto
  next
    case True
    define n s where "n = nat (hp_max_items pol)" and "s = srt history_before items1"
    from True assms(2) have k: "kept = take n s" "removed = int (length items) - int (length kept)"
      by (auto simp: pruneHistory_def i1 n_def s_def)
    from assms(1) history_before_weak
    have s: "mset s = mset items1" "sorted_wrt (\<lambda>a b. \<not> history_before b a) s"
      by (auto simp: sorts_def s_def)
    from s(1) have "length s = length items1" by (metis size_mset)
    with k True have len: "int (length kept) = hp_max_items pol" by (auto simp: n_def)
    have "mset s = mset kept + mset (drop n s)" unfolding k(1) by (simp flip: mset_append)
    with s(1) split have all: "mset items = mset kept + (mset (drop n s) + R)"
      by (simp add: ac_simps)
    have "\<not> history_before x y" if "x \<in> set (drop n s)" "y \<in> set kept" for x y
      using sorted_wrt_take_drop(2) [OF s(2), of n] that k(1) by blast
    with old all True k(2) len show ?thesis by auto
  qed
qed

definition aged_item :: "bool \<Rightarrow> int \<Rightarrow> rss_item" where
  "aged_item dl t = default_item \<lparr> i_downloaded := dl, i_published_at := Some t \<rparr>"

lemma pruneHistory_keeps_the_right_items_witness:
  "\<exists>removed kept.
     pruneHistory isort (\<lambda>t d. t + d * 86400000) 86400001 \<lparr> hp_max_items = 1, hp_max_age_days = 1 \<rparr>
       [aged_item False 0, aged_item False 5, aged_item True 0] = (removed, kept) \<and>
     int (length kept) \<le> 1"
proof -
  let ?add = "\<lambda>t d. t + d * 86400000" and ?pol = "\<lparr> hp_max_items = 1, hp_max_age_days = 1 \<rparr>"
  let ?items = "[aged_item False 0, aged_item False 5, aged_item True 0]"
  obtain removed kept where e: "pruneHistory isort ?add 86400001 ?pol ?items = (removed, kept)"
    by (rule prod.exhaust)
  from pruneHistory_keeps_the_right_items
      [OF sorts_isort e, THEN conjunct2, THEN conjunct2, THEN conjunct1]
  have "int (length kept) \<le> 1" by simp
  with e show ?thesis by blast
qed

end
