(* ===== verification/RssService.thy ===== *)
theory RssService
  imports RssDedup
begin

text \<open>
  The RSS service (\<open>core/rss/rss_service.cc\<close>): feeds, items and rules, refreshing a feed, the
  life of an item from arrival to settled download, and the automatic download scheduler with its
  batch, concurrency and backlog limits. Each member function is a function on \<open>rss_service\<close>.

  Outside the service and therefore arguments, gathered in \<open>rss_env\<close>: Qt text operations, the
  sorting algorithms, calendar arithmetic, the clock (the reading at the moment a feed or item
  with a given id is stamped), fresh UUIDs, the HTTP fetch (\<open>RssFetcher::fetch\<close>) and the XML
  parse (\<open>RssParser::parse\<close>). A request handed to the download callback is appended to
  \<open>sv_sent\<close>; what \<open>saveState\<close> wrote is \<open>sv_disk\<close>. The fetch runs a nested event loop in the
  program; the model takes it as atomic.
\<close>

record fetch_result =
  fr_ok :: bool
  fr_status :: int
  fr_body :: bytes
  fr_error :: qstring

record parse_result =
  pr_ok :: bool
  pr_items :: "rss_item list"
  pr_error :: qstring

record rss_env =
  ev_text :: qt_text
  ev_sort_items :: "(rss_item \<Rightarrow> rss_item \<Rightarrow> bool) \<Rightarrow> rss_item list \<Rightarrow> rss_item list"
  ev_sort_idx :: "(nat \<Rightarrow> nat \<Rightarrow> bool) \<Rightarrow> nat list \<Rightarrow> nat list"
  ev_partial_sort_idx :: "(nat \<Rightarrow> nat \<Rightarrow> bool) \<Rightarrow> nat \<Rightarrow> nat list \<Rightarrow> nat list"
  ev_add_days :: "int \<Rightarrow> int \<Rightarrow> int"
  ev_now :: "qstring \<Rightarrow> int"
  ev_uuid :: qstring
  ev_fetch :: "qstring \<Rightarrow> fetch_result"
  ev_parse :: "qstring \<Rightarrow> bytes \<Rightarrow> parse_result"

record rss_disk =
  dk_feeds :: "rss_feed list"
  dk_items :: "rss_item list"
  dk_rules :: "rss_rule list"
  dk_settings :: rss_settings

record rss_service =
  sv_feeds :: "rss_feed list"
  sv_items :: "rss_item list"
  sv_rules :: "rss_rule list"
  sv_dedup :: dedup
  sv_auto :: bool
  sv_max_auto :: int
  sv_policy :: history_policy
  sv_settings :: rss_settings
  sv_callback :: bool
  sv_scratch :: "nat list"
  sv_new_ids :: "qstring list"
  sv_sent :: "download_request list"
  sv_disk :: "rss_disk option"

definition new_service :: rss_service where
  "new_service =
     \<lparr> sv_feeds = [], sv_items = [], sv_rules = [], sv_dedup = empty_dedup, sv_auto = False,
       sv_max_auto = 10, sv_policy = \<lparr> hp_max_items = 5000, hp_max_age_days = 90 \<rparr>,
       sv_settings = default_rss_settings, sv_callback = False, sv_scratch = [],
       sv_new_ids = [], sv_sent = [], sv_disk = None \<rparr>"

definition markItemDecision :: "auto_decision \<Rightarrow> string \<Rightarrow> qstring \<Rightarrow> rss_item \<Rightarrow> rss_item" where
  "markItemDecision decision code reason it =
     it\<lparr> i_decision := decision, i_reason_code := qs code, i_reason_text := reason \<rparr>"

definition isDiagnosticAutoEligible :: "qstring \<Rightarrow> bool" where
  "isDiagnosticAutoEligible code \<longleftrightarrow> code = qs ''diagnostic_rule_eligible''"

definition upd_items :: "(rss_item list \<Rightarrow> rss_item list) \<Rightarrow> rss_service \<Rightarrow> rss_service" where
  "upd_items g st = st\<lparr> sv_items := g (sv_items st) \<rparr>"

definition rebuild_index :: "rss_env \<Rightarrow> rss_service \<Rightarrow> rss_service" where
  "rebuild_index E st = st\<lparr> sv_dedup := buildIndex (ev_text E) (sv_items st) \<rparr>"

section \<open>Settings\<close>

definition applySettings :: "rss_settings \<Rightarrow> rss_service \<Rightarrow> rss_service" where
  "applySettings s st =
     (let s' = s\<lparr>
          g_refresh_interval_minutes := clamp (g_refresh_interval_minutes s) 5 1440,
          g_max_auto_downloads_per_refresh := clamp (g_max_auto_downloads_per_refresh s) 1 100,
          g_max_concurrent_auto_downloads := clamp (g_max_concurrent_auto_downloads s) 1 50,
          g_max_auto_download_backlog := clamp (g_max_auto_download_backlog s) 1 500,
          g_history_max_items := clamp (g_history_max_items s) 100 100000,
          g_history_max_age_days := clamp (g_history_max_age_days s) 0 3650,
          g_external_player_command := trimmed (g_external_player_command s) \<rparr> in
      st\<lparr> sv_settings := s', sv_auto := g_global_auto_download s',
         sv_max_auto := g_max_auto_downloads_per_refresh s',
         sv_policy := \<lparr> hp_max_items = g_history_max_items s',
                        hp_max_age_days = g_history_max_age_days s' \<rparr> \<rparr>)"

definition setAutoDownloadEnabled :: "bool \<Rightarrow> rss_service \<Rightarrow> rss_service" where
  "setAutoDownloadEnabled enabled st =
     st\<lparr> sv_auto := enabled,
        sv_settings := (sv_settings st)\<lparr> g_global_auto_download := enabled \<rparr> \<rparr>"

definition setMaxAutoDownloadsPerRefresh :: "int \<Rightarrow> rss_service \<Rightarrow> rss_service" where
  "setMaxAutoDownloadsPerRefresh mx st =
     st\<lparr> sv_max_auto := clamp mx 1 100,
        sv_settings := (sv_settings st)\<lparr> g_max_auto_downloads_per_refresh := clamp mx 1 100 \<rparr> \<rparr>"

definition setDownloadRequestCallback :: "bool \<Rightarrow> rss_service \<Rightarrow> rss_service" where
  "setDownloadRequestCallback present st = st\<lparr> sv_callback := present \<rparr>"

definition setHistoryPolicy :: "history_policy \<Rightarrow> rss_service \<Rightarrow> rss_service" where
  "setHistoryPolicy pol st = st\<lparr> sv_policy := pol \<rparr>"

section \<open>Persistence\<close>

definition saveState :: "rss_service \<Rightarrow> rss_service" where
  "saveState st =
     st\<lparr> sv_disk := Some \<lparr> dk_feeds = sv_feeds st, dk_items = sv_items st, dk_rules = sv_rules st,
                          dk_settings = sv_settings st \<rparr> \<rparr>"

definition pruneItemsWithoutMatchingFeed :: "rss_service \<Rightarrow> rss_service" where
  "pruneItemsWithoutMatchingFeed st =
     (let feed_ids = map f_id (sv_feeds st); have_feeds = (sv_feeds st \<noteq> []) in
      upd_items (filter (\<lambda>x. \<not> (if i_feed_id x = [] then have_feeds
                                else i_feed_id x \<notin> set feed_ids))) st)"

definition loadState :: "rss_env \<Rightarrow> rss_disk \<Rightarrow> rss_service \<Rightarrow> rss_service" where
  "loadState E dk st =
     (let st1 = st\<lparr> sv_feeds := dk_feeds dk,
                   sv_items := map (\<lambda>it. it\<lparr> i_queued := False, i_waitlisted := False \<rparr>) (dk_items dk),
                   sv_rules := dk_rules dk, sv_settings := dk_settings dk \<rparr>;
          st2 = rebuild_index E (pruneItemsWithoutMatchingFeed (applySettings (sv_settings st1) st1)) in
      st2\<lparr> sv_scratch := [] \<rparr>)"

section \<open>Feeds and rules\<close>

definition upsertFeed :: "rss_env \<Rightarrow> rss_feed \<Rightarrow> rss_service \<Rightarrow> rss_service" where
  "upsertFeed E feed st =
     (let by_id = (\<lambda>x. f_id x = f_id feed); by_url = (\<lambda>x. f_url x = f_url feed);
          merge = (\<lambda>previous.
            let f1 = (if f_id feed = []
                      then feed\<lparr> f_id := (if f_id previous \<noteq> [] then f_id previous else ev_uuid E) \<rparr>
                      else feed) in
            if f_id feed = [] then
              f1\<lparr> f_enabled := f_enabled previous,
                 f_auto_download_enabled := f_auto_download_enabled previous,
                 f_last_refreshed_at := f_last_refreshed_at previous,
                 f_last_success_refreshed_at := f_last_success_refreshed_at previous,
                 f_last_error := f_last_error previous \<rparr>
            else f1) in
      if f_id feed \<noteq> [] \<and> list_ex by_id (sv_feeds st) then
        st\<lparr> sv_feeds := upd_first by_id merge (sv_feeds st) \<rparr>
      else if f_url feed \<noteq> [] \<and> list_ex by_url (sv_feeds st) then
        st\<lparr> sv_feeds := upd_first by_url merge (sv_feeds st) \<rparr>
      else
        st\<lparr> sv_feeds := sv_feeds st @
             [if f_id feed = [] then feed\<lparr> f_id := ev_uuid E \<rparr> else feed] \<rparr>)"

definition removeFeed :: "rss_env \<Rightarrow> qstring \<Rightarrow> rss_service \<Rightarrow> rss_service" where
  "removeFeed E feed_id st =
     rebuild_index E (pruneItemsWithoutMatchingFeed
       (st\<lparr> sv_feeds := filter (\<lambda>x. f_id x \<noteq> feed_id) (sv_feeds st),
           sv_items := filter (\<lambda>x. i_feed_id x \<noteq> feed_id) (sv_items st) \<rparr>))"

definition clearItemsForFeed :: "rss_env \<Rightarrow> qstring \<Rightarrow> rss_service \<Rightarrow> rss_service" where
  "clearItemsForFeed E feed_id st =
     rebuild_index E (upd_items (filter (\<lambda>x. i_feed_id x \<noteq> feed_id)) st)"

definition clearItemsForFeeds :: "rss_env \<Rightarrow> qstring list \<Rightarrow> rss_service \<Rightarrow> rss_service" where
  "clearItemsForFeeds E feed_ids st =
     (if feed_ids = [] then st
      else rebuild_index E (upd_items (filter (\<lambda>x. i_feed_id x \<notin> set feed_ids)) st))"

definition upsertRule :: "rss_env \<Rightarrow> rss_rule \<Rightarrow> rss_service \<Rightarrow> rss_service" where
  "upsertRule E rule st =
     (if list_ex (\<lambda>x. r_id x = r_id rule) (sv_rules st) then
        st\<lparr> sv_rules := upd_first (\<lambda>x. r_id x = r_id rule) (\<lambda>_. rule) (sv_rules st) \<rparr>
      else
        st\<lparr> sv_rules := sv_rules st @
             [if r_id rule = [] then rule\<lparr> r_id := ev_uuid E \<rparr> else rule] \<rparr>)"

definition removeRule :: "qstring \<Rightarrow> rss_service \<Rightarrow> rss_service" where
  "removeRule rule_id st = st\<lparr> sv_rules := filter (\<lambda>x. r_id x \<noteq> rule_id) (sv_rules st) \<rparr>"

definition findFeed :: "qstring \<Rightarrow> rss_service \<Rightarrow> rss_feed option" where
  "findFeed feed_id st = List.find (\<lambda>x. f_id x = feed_id) (sv_feeds st)"

definition itemsForFeed :: "qstring \<Rightarrow> rss_service \<Rightarrow> rss_item list" where
  "itemsForFeed feed_id st = filter (\<lambda>it. i_feed_id it = feed_id) (sv_items st)"

definition evaluateItem :: "rss_env \<Rightarrow> rss_item \<Rightarrow> rss_service \<Rightarrow> rule_match list" where
  "evaluateItem E it st = evaluateAll (ev_text E) (sv_rules st) it"

section \<open>Refreshing\<close>

definition rss_pruneHistory :: "rss_env \<Rightarrow> rss_service \<Rightarrow> int \<times> rss_service" where
  "rss_pruneHistory E st =
     (let (removed, its) = pruneHistory (ev_sort_items E) (ev_add_days E) (ev_now E [])
                             (sv_policy st) (sv_items st);
          st1 = st\<lparr> sv_items := its \<rparr> in
      (removed, if removed > 0 then rebuild_index E st1 else st1))"

definition dedupIncoming :: "rss_env \<Rightarrow> rss_item list \<Rightarrow> rss_service \<Rightarrow> rss_item list \<times> rss_service" where
  "dedupIncoming E incoming st =
     (let (unique, d') = dedup_loop (ev_text E) (sv_dedup st) incoming in
      (unique, st\<lparr> sv_dedup := d' \<rparr>))"

definition upd_feed :: "qstring \<Rightarrow> (rss_feed \<Rightarrow> rss_feed) \<Rightarrow> rss_service \<Rightarrow> rss_service" where
  "upd_feed feed_id g st =
     st\<lparr> sv_feeds := upd_first (\<lambda>x. f_id x = feed_id) g (sv_feeds st) \<rparr>"

definition refresh_body :: "rss_env \<Rightarrow> qstring \<Rightarrow> rss_feed \<Rightarrow> rss_service \<Rightarrow> rss_service" where
  \<comment> \<open>\<open>refreshFeedImpl\<close> after the feed was found, without the scope guard\<close>
  "refresh_body E feed_id feed st =
     (let fetchResult = ev_fetch E (f_url feed);
          now = ev_now E feed_id;
          st1 = upd_feed feed_id (\<lambda>f. f\<lparr> f_last_refreshed_at := Some now \<rparr>) st in
      if \<not> fr_ok fetchResult then
        upd_feed feed_id (\<lambda>f. f\<lparr> f_last_error := fr_error fetchResult \<rparr>) st1
      else
        (let st2 = upd_feed feed_id
                     (\<lambda>f. f\<lparr> f_last_error := [], f_last_success_refreshed_at := Some now \<rparr>) st1;
             parseResult = ev_parse E feed_id (fr_body fetchResult) in
         if \<not> pr_ok parseResult then
           upd_feed feed_id (\<lambda>f. f\<lparr> f_last_error := pr_error parseResult \<rparr>) st2
         else
           (let st3 = (if f_title feed = [] \<and> pr_items parseResult \<noteq> []
                       then upd_feed feed_id (\<lambda>f. f\<lparr> f_title :=
                              qarg (qs ''Feed (%1 items)'') (qnum (int (length (pr_items parseResult)))) \<rparr>) st2
                       else st2);
                (unique, st4) = dedupIncoming E (pr_items parseResult) st3 in
            st4\<lparr> sv_new_ids := fold List.insert (map i_id unique) (sv_new_ids st4),
                sv_items := sv_items st4 @ unique \<rparr>)))"

definition refreshFeedImpl :: "rss_env \<Rightarrow> qstring \<Rightarrow> rss_service \<Rightarrow> rss_service" where
  "refreshFeedImpl E feed_id st =
     (case List.find (\<lambda>x. f_id x = feed_id) (sv_feeds st) of
        None \<Rightarrow> st
      | Some feed \<Rightarrow>
          rebuild_index E (pruneItemsWithoutMatchingFeed (refresh_body E feed_id feed st)))"

definition refreshFeed :: "rss_env \<Rightarrow> qstring \<Rightarrow> rss_service \<Rightarrow> rss_service" where
  "refreshFeed E feed_id st =
     (case List.find (\<lambda>x. f_id x = feed_id) (sv_feeds st) of
        None \<Rightarrow> st
      | Some _ \<Rightarrow> refreshFeedImpl E feed_id st)"

definition refreshAllFeeds :: "rss_env \<Rightarrow> rss_service \<Rightarrow> rss_service" where
  "refreshAllFeeds E st =
     (let st1 = fold (refreshFeedImpl E) (map f_id (filter f_enabled (sv_feeds st)))
                  (st\<lparr> sv_new_ids := [] \<rparr>) in
      rebuild_index E (pruneItemsWithoutMatchingFeed (snd (rss_pruneHistory E st1))))"

definition reloadItemStreamFromEnabledFeeds :: "rss_env \<Rightarrow> rss_service \<Rightarrow> rss_service" where
  "reloadItemStreamFromEnabledFeeds E st =
     (let enabled_ids = map f_id (filter f_enabled (sv_feeds st));
          st1 = (if enabled_ids \<noteq> []
                 then rebuild_index E (upd_items (filter (\<lambda>x. i_feed_id x \<notin> set enabled_ids)) st)
                 else st) in
      refreshAllFeeds E st1)"

section \<open>Items\<close>

definition markItemRead :: "qstring \<Rightarrow> rss_service \<Rightarrow> rss_service" where
  "markItemRead item_id =
     upd_items (upd_first (\<lambda>it. i_id it = item_id) (\<lambda>it. it\<lparr> i_read := True \<rparr>))"

definition markItemIgnored :: "qstring \<Rightarrow> rss_service \<Rightarrow> rss_service" where
  "markItemIgnored item_id =
     upd_items (upd_first (\<lambda>it. i_id it = item_id) (\<lambda>it. it\<lparr> i_ignored := True \<rparr>))"

definition markItemsIgnored :: "qstring list \<Rightarrow> rss_service \<Rightarrow> rss_service" where
  "markItemsIgnored item_ids st =
     (if item_ids = [] then st
      else upd_items (map (\<lambda>it. if i_id it \<in> set item_ids then it\<lparr> i_ignored := True \<rparr> else it)) st)"

definition settle_item :: "int \<Rightarrow> bool \<Rightarrow> qstring \<Rightarrow> rss_item \<Rightarrow> rss_item" where
  "settle_item now success pathToStore it =
     (let it1 = it\<lparr> i_queued := False, i_last_attempt_at := Some now \<rparr> in
      if success then
        markItemDecision adSucceeded ''settlement_success''
          (qs ''Request accepted by download pipeline.'')
          (it1\<lparr> i_accepted := True, i_downloaded := True, i_retry_count := 0,
               i_download_save_path := pathToStore, i_last_success_at := Some now \<rparr>)
      else
        markItemDecision adFailed ''settlement_failed'' (qs ''Request failed or cancelled.'')
          (it1\<lparr> i_retry_count := i_retry_count it1 + 1 \<rparr>))"

definition applyRssDownloadSettlement ::
  "rss_env \<Rightarrow> rss_settlement \<Rightarrow> bool \<Rightarrow> qstring \<Rightarrow> bool \<Rightarrow> rss_service \<Rightarrow> rss_service" where
  "applyRssDownloadSettlement E s success resolved_save_override persist st =
     (if st_item_id s = [] then st
      else
        (let pathToStore = (if trimmed resolved_save_override = [] then st_record_save_path s
                            else resolved_save_override);
             touched = list_ex (\<lambda>it. i_id it = st_item_id s) (sv_items st);
             st1 = upd_items (upd_first (\<lambda>it. i_id it = st_item_id s)
                     (settle_item (ev_now E (st_item_id s)) success pathToStore)) st in
         if touched \<and> persist then saveState st1 else st1))"

definition rule_target :: "rss_env \<Rightarrow> rss_item \<Rightarrow> rss_service \<Rightarrow> qstring \<times> qstring \<times> qstring" where
  \<comment> \<open>save path, category and tags of the first matching rule\<close>
  "rule_target E it st =
     (case findFirstEnabledMatch (ev_text E) (sv_rules st) it of
        None \<Rightarrow> ([], [], [])
      | Some m \<Rightarrow>
          (case List.find (\<lambda>r. r_id r = m_rule_id m) (sv_rules st) of
             None \<Rightarrow> ([], [], [])
           | Some r \<Rightarrow> (r_save_path r, r_category r, r_tags_csv r)))"

definition make_request :: "rss_env \<Rightarrow> rss_item \<Rightarrow> rss_service \<Rightarrow> download_request" where
  "make_request E it st =
     (let (savePath, category, tagsCsv) = rule_target E it st;
          referer = (case List.find (\<lambda>x. f_id x = i_feed_id it) (sv_feeds st) of
                       None \<Rightarrow> [] | Some f \<Rightarrow> f_url f) in
      \<lparr> q_magnet = i_magnet it, q_torrent_url = i_torrent_url it, q_save_path = savePath,
        q_category = category, q_tags_csv = tagsCsv, q_rule_id = [], q_item_id = i_id it,
        q_feed_id = i_feed_id it, q_item_title = i_title it, q_referer_url = referer,
        q_settlement = \<lparr> st_item_id = i_id it, st_record_save_path = savePath \<rparr>,
        q_no_confirm = True \<rparr>)"

definition downloadItem :: "rss_env \<Rightarrow> qstring \<Rightarrow> rss_service \<Rightarrow> bool \<times> rss_service" where
  "downloadItem E item_id st =
     (let P = (\<lambda>it. i_id it = item_id);
          mark = (\<lambda>d code why. upd_items (upd_first P (markItemDecision d code why)) st) in
      case List.find P (sv_items st) of
        None \<Rightarrow> (False, st)
      | Some it \<Rightarrow>
          if i_magnet it = [] \<and> i_torrent_url it = [] then
            (False, mark adSkipped ''no_resource'' (qs ''No magnet or torrent URL.''))
          else if i_queued it then
            (False, mark adSkipped ''already_queued'' (qs ''Item is already queued.''))
          else if \<not> sv_callback st then
            (False, mark adFailed ''no_callback'' (qs ''Download callback is not set.''))
          else
            (True,
             (upd_items (upd_first P (\<lambda>x.
                  markItemDecision adQueued ''manual_queued'' (qs ''Manual download queued.'')
                    (x\<lparr> i_queued := True, i_last_attempt_at := Some (ev_now E item_id) \<rparr>))) st)
              \<lparr> sv_sent := sv_sent st @ [make_request E it st] \<rparr>))"

section \<open>Diagnosis\<close>

definition text_unknown_feed :: qstring where
  "text_unknown_feed =
     qu [0x6761, 0x76EE, 0x7684] @ qs '' feed_id '' @
     qu [0x4E0E, 0x5F53, 0x524D, 0x8BA2, 0x9605, 0x5217, 0x8868, 0x4E0D, 0x4E00, 0x81F4, 0xFF08,
         0x53EF, 0x80FD, 0x4E3A, 0x5386, 0x53F2, 0x6570, 0x636E, 0x6216, 0x5408, 0x5E76, 0x8BA2,
         0x9605, 0x5BFC, 0x81F4, 0xFF09, 0x3002]"

definition text_feed_auto_off :: qstring where
  "text_feed_auto_off =
     qu [0x8BE5, 0x8BA2, 0x9605, 0x6E90, 0x5DF2, 0x5173, 0x95ED, 0x300C, 0x81EA, 0x52A8, 0x4E0B,
         0x8F7D, 0x300D, 0x3002]"

definition text_backlog_overflow :: qstring where
  "text_backlog_overflow =
     qu [0x7B26, 0x5408, 0x6761, 0x4EF6, 0x4F46, 0x8D85, 0x51FA, 0x81EA, 0x52A8, 0x4E0B, 0x8F7D,
         0x6392, 0x961F, 0x4E0A, 0x9650, 0xFF0C, 0x5C06, 0x968F, 0x8FDB, 0x5EA6, 0x9646, 0x7EED,
         0x5165, 0x961F, 0x3002]"

definition diagnoseRuleAutoDownloadState :: "rss_env \<Rightarrow> rss_service \<Rightarrow> rss_item \<Rightarrow> rss_item" where
  "diagnoseRuleAutoDownloadState E st it =
     (case List.find (\<lambda>x. f_id x = i_feed_id it) (sv_feeds st) of
        None \<Rightarrow> markItemDecision adSkipped ''unknown_feed'' text_unknown_feed it
      | Some feed \<Rightarrow>
          if \<not> f_auto_download_enabled feed then
            markItemDecision adSkipped ''feed_auto_off'' text_feed_auto_off it
          else
            (case findFirstEnabledMatch (ev_text E) (sv_rules st) it of
               None \<Rightarrow> markItemDecision adSkipped ''no_rule_match'' (qs ''No rule matched.'') it
             | Some m \<Rightarrow>
                 (case List.find (\<lambda>r. r_id r = m_rule_id m) (sv_rules st) of
                    None \<Rightarrow> markItemDecision adFailed ''rule_missing''
                              (qs ''Matched rule not found.'') it
                  | Some _ \<Rightarrow>
                      if \<not> sv_callback st then
                        markItemDecision adFailed ''no_callback''
                          (qs ''Download callback is not set.'') it
                      else
                        markItemDecision adSkipped ''diagnostic_rule_eligible''
                          (qs ''Rule would auto-download (diagnostic only).'') it)))"

definition diagnoseItemAutoDownloadState :: "rss_env \<Rightarrow> rss_service \<Rightarrow> rss_item \<Rightarrow> rss_item" where
  "diagnoseItemAutoDownloadState E st it =
     (if \<not> sv_auto st then
        markItemDecision adSkipped ''global_disabled'' (qs ''Global auto download is disabled.'') it
      else if i_magnet it = [] \<and> i_torrent_url it = [] then
        markItemDecision adSkipped ''no_resource'' (qs ''No magnet or torrent URL.'') it
      else if i_downloaded it \<or> i_ignored it \<or> i_queued it then
        markItemDecision adSkipped ''state_blocked'' (qs ''Item is downloaded/ignored/queued.'') it
      else diagnoseRuleAutoDownloadState E st it)"

section \<open>The automatic download scheduler\<close>

definition effectiveAutoDownloadBacklogCap :: "rss_service \<Rightarrow> int" where
  "effectiveAutoDownloadBacklogCap st = clamp (g_max_auto_download_backlog (sv_settings st)) 1 500"

definition itemMatchesAutoDownloadScope :: "rss_service \<Rightarrow> rss_item \<Rightarrow> auto_scope \<Rightarrow> bool" where
  "itemMatchesAutoDownloadScope st it scope =
     (case scope of kNewItemsOnly \<Rightarrow> i_id it \<in> set (sv_new_ids st) | kAllEligible \<Rightarrow> True)"

definition published :: "rss_item \<Rightarrow> int" where
  "published it = (case i_published_at it of None \<Rightarrow> 0 | Some t \<Rightarrow> t)"

definition publishedDesc :: "rss_item list \<Rightarrow> nat \<Rightarrow> nat \<Rightarrow> bool" where
  "publishedDesc its a b \<longleftrightarrow> published (its ! a) > published (its ! b)"

definition backlog_candidate :: "rss_service \<Rightarrow> auto_scope \<Rightarrow> rss_item \<Rightarrow> bool" where
  "backlog_candidate st scope it \<longleftrightarrow>
     itemMatchesAutoDownloadScope st it scope \<and>
     \<not> (i_queued it \<or> i_downloaded it \<or> i_ignored it) \<and>
     \<not> (i_magnet it = [] \<and> i_torrent_url it = []) \<and>
     isDiagnosticAutoEligible (i_reason_code it)"

definition rebuildAutoBacklogScratch :: "rss_env \<Rightarrow> auto_scope \<Rightarrow> rss_service \<Rightarrow> rss_service" where
  "rebuildAutoBacklogScratch E scope st =
     (let its = sv_items st;
          scratch = filter (\<lambda>i. backlog_candidate st scope (its ! i)) [0..<length its];
          backlogCap = effectiveAutoDownloadBacklogCap st in
      st\<lparr> sv_scratch :=
           (if its = [] then []
            else if int (length scratch) \<le> backlogCap then ev_sort_idx E (publishedDesc its) scratch
            else take (nat backlogCap)
                   (ev_partial_sort_idx E (publishedDesc its) (nat backlogCap) scratch)) \<rparr>)"

definition applyAutoDownloadBacklogOverflowMarkers :: "rss_env \<Rightarrow> rss_service \<Rightarrow> rss_service" where
  "applyAutoDownloadBacklogOverflowMarkers E st =
     (if \<not> sv_auto st then st
      else
        (let st1 = rebuildAutoBacklogScratch E kAllEligible st;
             tracked = map (\<lambda>i. i_id (sv_items st1 ! i)) (sv_scratch st1) in
         upd_items (map (\<lambda>it.
             if i_queued it \<or> i_downloaded it \<or> i_ignored it then it
             else if \<not> isDiagnosticAutoEligible (i_reason_code it) then it
             else if i_id it \<in> set tracked then it
             else markItemDecision adSkipped ''auto_backlog_overflow'' text_backlog_overflow it)) st1))"

definition inflight :: "rss_service \<Rightarrow> int" where
  "inflight st = int (length (filter i_queued (sv_items st)))"

definition syncRssAutoWaitlistMarkers :: "rss_env \<Rightarrow> auto_scope \<Rightarrow> rss_service \<Rightarrow> rss_service" where
  "syncRssAutoWaitlistMarkers E scope st =
     (let st1 = upd_items (map (\<lambda>it.
            if scope = kAllEligible \<or> itemMatchesAutoDownloadScope st it scope
            then it\<lparr> i_waitlisted := False \<rparr> else it)) st in
      if \<not> sv_auto st1 then st1\<lparr> sv_scratch := [] \<rparr>
      else
        (let st2 = rebuildAutoBacklogScratch E scope st1;
             maxConc = clamp (g_max_concurrent_auto_downloads (sv_settings st2)) 1 50;
             freeSlots = max 0 (maxConc - inflight st1) in
         upd_items (\<lambda>its. fold (\<lambda>i l. l[i := (l ! i)\<lparr> i_waitlisted := True \<rparr>])
             (drop (nat freeSlots) (sv_scratch st2)) its) st2))"

definition refreshAutoDownloadDiagnostics :: "rss_env \<Rightarrow> rss_service \<Rightarrow> rss_service" where
  "refreshAutoDownloadDiagnostics E st =
     (let st1 = upd_items (map (diagnoseItemAutoDownloadState E st)) st in
      syncRssAutoWaitlistMarkers E kAllEligible (applyAutoDownloadBacklogOverflowMarkers E st1))"

definition refreshAutoDownloadDiagnosticsForFeed :: "rss_env \<Rightarrow> qstring \<Rightarrow> rss_service \<Rightarrow> rss_service" where
  "refreshAutoDownloadDiagnosticsForFeed E feed_id st =
     (if feed_id = [] then st
      else
        (let st1 = upd_items (map (\<lambda>it. if i_feed_id it = feed_id
                                        then diagnoseItemAutoDownloadState E st it else it)) st in
         syncRssAutoWaitlistMarkers E kAllEligible (applyAutoDownloadBacklogOverflowMarkers E st1)))"

fun dispatch_loop ::
  "rss_env \<Rightarrow> int \<Rightarrow> int \<Rightarrow> nat list \<Rightarrow> int \<Rightarrow> int \<Rightarrow> rss_service \<Rightarrow> int \<times> rss_service" where
  "dispatch_loop E cap maxConc [] started infl st = (started, st)"
| "dispatch_loop E cap maxConc (idx # scratch) started infl st =
     (if \<not> (started < cap \<and> infl < maxConc) then (started, st)
      else
        (let it = sv_items st ! idx in
         if i_queued it \<or> i_downloaded it \<or> i_ignored it then
           dispatch_loop E cap maxConc scratch started infl st
         else if \<not> isDiagnosticAutoEligible (i_reason_code it) then
           dispatch_loop E cap maxConc scratch started infl st
         else
           (let (ok, st') = downloadItem E (i_id it) st in
            if \<not> ok then dispatch_loop E cap maxConc scratch started infl st'
            else dispatch_loop E cap maxConc scratch (started + 1) (infl + 1) st')))"

definition dispatchDeferredAutoDownloads ::
  "rss_env \<Rightarrow> int \<Rightarrow> bool \<Rightarrow> auto_scope \<Rightarrow> rss_service \<Rightarrow> int \<times> rss_service" where
  "dispatchDeferredAutoDownloads E max_batch refresh_diagnosis scope st =
     (if \<not> sv_auto st then (0, st)
      else
        (let cap = clamp max_batch 1 100;
             maxConc = clamp (g_max_concurrent_auto_downloads (sv_settings st)) 1 50;
             st1 = (if refresh_diagnosis
                    then upd_items (map (diagnoseItemAutoDownloadState E st)) st else st);
             st2 = rebuildAutoBacklogScratch E scope st1;
             (started, st3) = dispatch_loop E cap maxConc (sv_scratch st2) 0 (inflight st1) st2 in
         (started,
          syncRssAutoWaitlistMarkers E scope (applyAutoDownloadBacklogOverflowMarkers E st3))))"

section \<open>What the scheduler leaves alone\<close>

lemma upd_items_sel [simp]:
  "sv_items (upd_items g st) = g (sv_items st)" "sv_feeds (upd_items g st) = sv_feeds st"
  "sv_rules (upd_items g st) = sv_rules st" "sv_auto (upd_items g st) = sv_auto st"
  "sv_settings (upd_items g st) = sv_settings st" "sv_callback (upd_items g st) = sv_callback st"
  "sv_sent (upd_items g st) = sv_sent st" "sv_new_ids (upd_items g st) = sv_new_ids st"
  "sv_disk (upd_items g st) = sv_disk st" "sv_dedup (upd_items g st) = sv_dedup st"
  "sv_scratch (upd_items g st) = sv_scratch st" "sv_max_auto (upd_items g st) = sv_max_auto st"
  "sv_policy (upd_items g st) = sv_policy st"
  by (simp_all add: upd_items_def)

lemma markItemDecision_sel [simp]:
  "i_id (markItemDecision d c w it) = i_id it" "i_feed_id (markItemDecision d c w it) = i_feed_id it"
  "i_title (markItemDecision d c w it) = i_title it" "i_guid (markItemDecision d c w it) = i_guid it"
  "i_link (markItemDecision d c w it) = i_link it"
  "i_magnet (markItemDecision d c w it) = i_magnet it"
  "i_torrent_url (markItemDecision d c w it) = i_torrent_url it"
  "i_queued (markItemDecision d c w it) = i_queued it"
  "i_downloaded (markItemDecision d c w it) = i_downloaded it"
  "i_ignored (markItemDecision d c w it) = i_ignored it"
  "i_waitlisted (markItemDecision d c w it) = i_waitlisted it"
  "i_published_at (markItemDecision d c w it) = i_published_at it"
  "i_reason_code (markItemDecision d c w it) = qs c"
  "i_decision (markItemDecision d c w it) = d"
  by (simp_all add: markItemDecision_def)

text \<open>The fields of an item that diagnosis and markers never change.\<close>

definition frame_of :: "rss_item \<Rightarrow> rss_item" where
  "frame_of it = it\<lparr> i_waitlisted := False, i_decision := adUnknown, i_reason_code := [],
                    i_reason_text := [] \<rparr>"

lemma frame_markItemDecision [simp]: "frame_of (markItemDecision d c w it) = frame_of it"
  by (simp add: frame_of_def markItemDecision_def)

lemma frame_waitlisted [simp]: "frame_of (it\<lparr> i_waitlisted := b \<rparr>) = frame_of it"
  by (simp add: frame_of_def)

lemma frame_eqD:
  assumes "frame_of a = frame_of b"
  shows "i_id a = i_id b" "i_feed_id a = i_feed_id b" "i_title a = i_title b"
    "i_magnet a = i_magnet b" "i_torrent_url a = i_torrent_url b" "i_queued a = i_queued b"
    "i_downloaded a = i_downloaded b" "i_ignored a = i_ignored b"
    "i_published_at a = i_published_at b" "i_guid a = i_guid b" "i_link a = i_link b"
  using assms by (cases a; cases b; simp add: frame_of_def)+

lemma frame_diagnoseRule [simp]: "frame_of (diagnoseRuleAutoDownloadState E st it) = frame_of it"
  by (auto simp: diagnoseRuleAutoDownloadState_def split: option.splits)

lemma frame_diagnose [simp]: "frame_of (diagnoseItemAutoDownloadState E st it) = frame_of it"
  by (simp add: diagnoseItemAutoDownloadState_def)

abbreviation frames :: "rss_service \<Rightarrow> rss_item list" where
  "frames st \<equiv> map frame_of (sv_items st)"

text \<open>Everything of the state but the diagnostic fields, the waiting marks and the scratch list.\<close>

definition same_frame :: "rss_service \<Rightarrow> rss_service \<Rightarrow> bool" where
  "same_frame st st' \<longleftrightarrow>
     frames st' = frames st \<and> sv_feeds st' = sv_feeds st \<and> sv_rules st' = sv_rules st \<and>
     sv_auto st' = sv_auto st \<and> sv_settings st' = sv_settings st \<and>
     sv_callback st' = sv_callback st \<and> sv_sent st' = sv_sent st \<and>
     sv_new_ids st' = sv_new_ids st \<and> sv_disk st' = sv_disk st \<and> sv_dedup st' = sv_dedup st \<and>
     sv_max_auto st' = sv_max_auto st \<and> sv_policy st' = sv_policy st"

lemma same_frame_refl [simp]: "same_frame st st"
  by (simp add: same_frame_def)

lemma same_frame_trans [trans]: "same_frame a b \<Longrightarrow> same_frame b c \<Longrightarrow> same_frame a c"
  by (simp add: same_frame_def)

lemma same_frame_map:
  "(\<And>it. frame_of (g it) = frame_of it) \<Longrightarrow> same_frame st (upd_items (map g) st)"
  by (simp add: same_frame_def)

lemma same_frame_rebuild: "same_frame st (rebuildAutoBacklogScratch E scope st)"
  by (simp add: same_frame_def rebuildAutoBacklogScratch_def Let_def)

lemma same_frame_overflow: "same_frame st (applyAutoDownloadBacklogOverflowMarkers E st)"
proof (cases "sv_auto st")
  case True
  have "same_frame (rebuildAutoBacklogScratch E kAllEligible st)
          (applyAutoDownloadBacklogOverflowMarkers E st)"
    using True by (auto simp: applyAutoDownloadBacklogOverflowMarkers_def Let_def intro!: same_frame_map)
  with same_frame_rebuild show ?thesis by (rule same_frame_trans)
qed (simp add: applyAutoDownloadBacklogOverflowMarkers_def)

lemma frames_waitlist_fold:
  "map frame_of (fold (\<lambda>i l. l[i := (l ! i)\<lparr> i_waitlisted := True \<rparr>]) is its) = map frame_of its"
proof (induction "is" arbitrary: its)
  case (Cons i "is")
  have "map frame_of (its[i := (its ! i)\<lparr> i_waitlisted := True \<rparr>]) = map frame_of its"
    by (cases "i < length its")
      (simp_all add: map_update list_update_same_conv list_update_beyond)
  with Cons show ?case by simp
qed simp

lemma same_frame_sync: "same_frame st (syncRssAutoWaitlistMarkers E scope st)"
proof -
  let ?g = "\<lambda>it. if scope = kAllEligible \<or> itemMatchesAutoDownloadScope st it scope
                 then it\<lparr> i_waitlisted := False \<rparr> else it"
  have 1: "same_frame st (upd_items (map ?g) st)" by (rule same_frame_map) simp
  have 2: "same_frame s (upd_items (\<lambda>its. fold (\<lambda>i l. l[i := (l ! i)\<lparr> i_waitlisted := True \<rparr>]) is its) s)"
    for s "is"
    by (simp add: same_frame_def frames_waitlist_fold)
  show ?thesis
    using same_frame_trans [OF same_frame_trans [OF 1 same_frame_rebuild] 2]
      same_frame_trans [OF 1, of "upd_items (map ?g) st\<lparr> sv_scratch := [] \<rparr>"]
    by (simp add: syncRssAutoWaitlistMarkers_def Let_def same_frame_def)
qed

lemma inflight_frames: "inflight st = int (length (filter i_queued (frames st)))"
proof -
  have "filter i_queued (map frame_of its) = map frame_of (filter i_queued its)" for its
    by (induction its) (auto simp: frame_of_def)
  then show ?thesis by (simp add: inflight_def)
qed

lemma same_frame_inflight: "same_frame st st' \<Longrightarrow> inflight st' = inflight st"
  by (simp add: inflight_frames same_frame_def)

lemma same_frame_ids: "same_frame st st' \<Longrightarrow> map i_id (sv_items st') = map i_id (sv_items st)"
proof -
  assume "same_frame st st'"
  then have "map i_id (frames st') = map i_id (frames st)" by (simp add: same_frame_def)
  then show ?thesis by (simp add: o_def frame_of_def)
qed

section \<open>Starting one download\<close>

lemma find_split:
  assumes "List.find P xs = Some x"
  obtains us vs where "xs = us @ x # vs" "P x" "\<forall>u \<in> set us. \<not> P u"
    "\<And>f. upd_first P f xs = us @ f x # vs"
proof -
  have "\<exists>us vs. xs = us @ x # vs \<and> P x \<and> (\<forall>u \<in> set us. \<not> P u) \<and>
               (\<forall>f. upd_first P f xs = us @ f x # vs)"
    using assms
  proof (induction xs)
    case (Cons y ys)
    show ?case
    proof (cases "P y")
      case True
      with Cons.prems show ?thesis by (intro exI [of _ "[]"] exI [of _ ys]) simp
    next
      case False
      with Cons obtain us vs where "ys = us @ x # vs" "P x" "\<forall>u \<in> set us. \<not> P u"
        "\<forall>f. upd_first P f ys = us @ f x # vs" by auto
      with False show ?thesis by (intro exI [of _ "y # us"] exI [of _ vs]) simp
    qed
  qed simp
  with that show ?thesis by blast
qed

definition queue_item :: "rss_env \<Rightarrow> rss_item \<Rightarrow> rss_item" where
  "queue_item E it =
     markItemDecision adQueued ''manual_queued'' (qs ''Manual download queued.'')
       (it\<lparr> i_queued := True, i_last_attempt_at := Some (ev_now E (i_id it)) \<rparr>)"

lemma downloadItem_cases:
  assumes "downloadItem E item_id st = (ok, st')"
  obtains (started) it where "ok" "List.find (\<lambda>x. i_id x = item_id) (sv_items st) = Some it"
      "i_magnet it \<noteq> [] \<or> i_torrent_url it \<noteq> []" "\<not> i_queued it" "sv_callback st"
      "st' = (upd_items (upd_first (\<lambda>x. i_id x = item_id) (queue_item E)) st)
               \<lparr> sv_sent := sv_sent st @ [make_request E it st] \<rparr>"
    | (refused) "\<not> ok" "same_frame st st'"
proof (cases "List.find (\<lambda>x. i_id x = item_id) (sv_items st)")
  case None
  with assms refused show ?thesis by (simp add: downloadItem_def)
next
  case (Some it)
  then have id: "i_id it = item_id" by (auto dest: find_Some_mem)
  have m: "same_frame st (upd_items (upd_first (\<lambda>x. i_id x = item_id) (markItemDecision d c w)) st)"
    for d c w
    by (simp add: same_frame_def map_upd_first)
  have q: "upd_first (\<lambda>x. i_id x = item_id)
             (\<lambda>x. markItemDecision adQueued ''manual_queued'' (qs ''Manual download queued.'')
               (x\<lparr> i_queued := True, i_last_attempt_at := Some (ev_now E item_id) \<rparr>)) xs =
           upd_first (\<lambda>x. i_id x = item_id) (queue_item E) xs" for xs
    by (induction xs) (simp_all add: queue_item_def)
  show ?thesis
    using assms Some m started [of it] refused
    by (auto simp: downloadItem_def Let_def q upd_items_def split: if_splits)
qed

lemma inflight_queue:
  assumes "List.find P (sv_items st) = Some it" "\<not> i_queued it"
  shows "inflight (upd_items (upd_first P (queue_item E)) st) = inflight st + 1"
proof -
  from assms(1) obtain us vs where "sv_items st = us @ it # vs"
    "upd_first P (queue_item E) (sv_items st) = us @ queue_item E it # vs"
    by (rule find_split) blast
  with assms(2) show ?thesis by (simp add: inflight_def queue_item_def)
qed

lemma inflight_sent [simp]: "inflight (st\<lparr> sv_sent := x \<rparr>) = inflight st"
  by (simp add: inflight_def)

lemma downloadItem_counts:
  assumes "downloadItem E item_id st = (ok, st')"
  shows "inflight st' = inflight st + of_bool ok \<and>
         length (sv_sent st') = length (sv_sent st) + of_bool ok \<and>
         sv_settings st' = sv_settings st"
  using assms
proof (cases rule: downloadItem_cases)
  case (started it)
  then show ?thesis by (simp add: inflight_queue)
next
  case refused
  then show ?thesis by (simp add: same_frame_inflight) (simp add: same_frame_def)
qed

lemma dispatch_loop_limits:
  assumes "dispatch_loop E cap maxConc scratch started (inflight st) st = (started', st')"
  shows "started \<le> started' \<and> started' \<le> max started cap \<and>
         inflight st' = inflight st + (started' - started) \<and>
         int (length (sv_sent st')) = int (length (sv_sent st)) + (started' - started) \<and>
         (started < started' \<longrightarrow> inflight st' \<le> maxConc)"
  using assms
proof (induction scratch arbitrary: started st)
  case Nil
  then show ?case by simp
next
  case (Cons idx scratch)
  let ?it = "sv_items st ! idx"
  obtain ok st1 where d: "downloadItem E (i_id ?it) st = (ok, st1)" by fastforce
  note c = downloadItem_counts [OF d]
  show ?case
  proof (cases "started < cap \<and> inflight st < maxConc \<and>
      \<not> (i_queued ?it \<or> i_downloaded ?it \<or> i_ignored ?it) \<and>
      isDiagnosticAutoEligible (i_reason_code ?it)")
    case False
    then show ?thesis using Cons.prems Cons.IH [of started st] 
      by (auto simp: Let_def split: if_splits)
  next
    case True
    with d Cons.prems have
      "dispatch_loop E cap maxConc scratch (started + of_bool ok) (inflight st1) st1 = (started', st')"
      using c by (cases ok) simp_all
    from Cons.IH [OF this] c True show ?thesis by (cases ok) auto
  qed
qed

end
