(* ===== verification/RssScheduler.thy ===== *)
theory RssScheduler
  imports RssService
begin

text \<open>
  What the automatic download scheduler of the RSS service guarantees
  (\<open>RssService::dispatchDeferredAutoDownloads\<close> in \<open>core/rss/rss_service.cc\<close>): its limits hold in
  every state, and with its own diagnosis it serves exactly the newest eligible items.
\<close>

section \<open>Starting the items of the scratch list\<close>

lemma upd_first_index:
  "i < length xs \<Longrightarrow> P (xs ! i) \<Longrightarrow> (\<And>j. j < i \<Longrightarrow> \<not> P (xs ! j)) \<Longrightarrow>
   upd_first P f xs = xs[i := f (xs ! i)] \<and> List.find P xs = Some (xs ! i)"
proof (induction xs arbitrary: i)
  case (Cons x xs)
  show ?case
  proof (cases i)
    case (Suc k)
    with Cons.prems(3) [of 0] have "\<not> P x" by simp
    moreover have "\<not> P (xs ! j)" if "j < k" for j using Cons.prems(3) [of "Suc j"] that Suc by simp
    ultimately show ?thesis using Cons.IH [of k] Cons.prems Suc by simp
  qed (use Cons.prems in simp)
qed simp

definition ready :: "rss_item \<Rightarrow> bool" where
  "ready it \<longleftrightarrow> \<not> (i_queued it \<or> i_downloaded it \<or> i_ignored it) \<and>
     (i_magnet it \<noteq> [] \<or> i_torrent_url it \<noteq> []) \<and> isDiagnosticAutoEligible (i_reason_code it)"

definition queue_at :: "rss_env \<Rightarrow> nat \<Rightarrow> rss_service \<Rightarrow> rss_service" where
  "queue_at E i st =
     (upd_items (\<lambda>its. its[i := queue_item E (its ! i)]) st)
       \<lparr> sv_sent := sv_sent st @ [make_request E (sv_items st ! i) st] \<rparr>"

lemma downloadItem_index:
  assumes "distinct (map i_id (sv_items st))" "i < length (sv_items st)" "ready (sv_items st ! i)"
    "sv_callback st"
  shows "downloadItem E (i_id (sv_items st ! i)) st = (True, queue_at E i st)"
proof -
  let ?id = "i_id (sv_items st ! i)" and ?P = "\<lambda>x. i_id x = i_id (sv_items st ! i)"
  have "\<not> ?P (sv_items st ! j)" if "j < i" for j
    using assms(1,2) that nth_eq_iff_index_eq [OF assms(1), of j i] by simp
  from upd_first_index [of i "sv_items st" ?P, OF assms(2) refl this]
  have u: "upd_first ?P f (sv_items st) = (sv_items st)[i := f (sv_items st ! i)]"
    "List.find ?P (sv_items st) = Some (sv_items st ! i)" for f by blast+
  obtain ok st' where d: "downloadItem E ?id st = (ok, st')" by fastforce
  have "ok" using d assms(3,4) u(2) by (auto simp: downloadItem_def Let_def ready_def)
  with d show ?thesis
  proof (cases rule: downloadItem_cases)
    case (started it)
    then show ?thesis using d u by (simp add: queue_at_def upd_items_def)
  qed simp
qed

lemma queue_at_sel [simp]:
  "sv_items (queue_at E i st) = (sv_items st)[i := queue_item E (sv_items st ! i)]"
  "sv_sent (queue_at E i st) = sv_sent st @ [make_request E (sv_items st ! i) st]"
  "sv_feeds (queue_at E i st) = sv_feeds st" "sv_rules (queue_at E i st) = sv_rules st"
  "sv_callback (queue_at E i st) = sv_callback st" "sv_auto (queue_at E i st) = sv_auto st"
  "sv_settings (queue_at E i st) = sv_settings st" "sv_new_ids (queue_at E i st) = sv_new_ids st"
  by (simp_all add: queue_at_def)

lemma make_request_same:
  "sv_feeds st' = sv_feeds st \<Longrightarrow> sv_rules st' = sv_rules st \<Longrightarrow>
   make_request E it st' = make_request E it st"
  by (simp only: make_request_def rule_target_def)

lemma ids_queue_at: "map i_id ((sv_items st)[i := queue_item E (sv_items st ! i)]) = map i_id (sv_items st)"
  by (cases "i < length (sv_items st)")
    (simp_all add: map_update queue_item_def list_update_same_conv list_update_beyond)

lemma dispatch_loop_prefix:
  assumes "distinct (map i_id (sv_items st))" "distinct scratch" "sv_callback st"
    "\<forall>i \<in> set scratch. i < length (sv_items st) \<and> ready (sv_items st ! i)"
    and k: "k = min (length scratch) (nat (min (cap - started) (maxConc - infl)))"
  shows "dispatch_loop E cap maxConc scratch started infl st =
           (started + int k, fold (queue_at E) (take k scratch) st) \<and>
         sv_sent (fold (queue_at E) (take k scratch) st) =
           sv_sent st @ map (\<lambda>i. make_request E (sv_items st ! i) st) (take k scratch)"
  using assms(1-4) unfolding k
proof (induction scratch arbitrary: started infl st)
  case Nil
  then show ?case by simp
next
  case (Cons idx scratch)
  let ?n = "nat (min (cap - started) (maxConc - infl))"
  show ?case
  proof (cases "started < cap \<and> infl < maxConc")
    case False
    then have "?n = 0" by auto
    with False show ?thesis by auto
  next
    case True
    let ?st = "queue_at E idx st"
    from Cons.prems have i: "idx < length (sv_items st)" "ready (sv_items st ! idx)" by auto
    have "dispatch_loop E cap maxConc (idx # scratch) started infl st =
            dispatch_loop E cap maxConc scratch (started + 1) (infl + 1) ?st"
      using True i(2) downloadItem_index [OF Cons.prems(1) i Cons.prems(3), of E]
      by (simp add: ready_def Let_def)
    moreover have "nat (min (cap - (started + 1)) (maxConc - (infl + 1))) = ?n - 1" and "0 < ?n"
      using True by auto
    moreover have "\<forall>i \<in> set scratch. i < length (sv_items ?st) \<and> ready (sv_items ?st ! i) \<and>
        make_request E (sv_items ?st ! i) ?st = make_request E (sv_items st ! i) st"
      using Cons.prems by (auto simp: nth_list_update intro!: make_request_same)
    moreover have "distinct (map i_id (sv_items ?st))" "sv_callback ?st" "distinct scratch"
      using Cons.prems by (simp_all add: ids_queue_at del: map_update)
    ultimately show ?thesis
      using Cons.IH [of ?st "started + 1" "infl + 1"]
      by (cases ?n) (auto simp: take_Cons' min_def dest: in_set_takeD split: if_splits)
  qed
qed

section \<open>Eligible items\<close>

definition eligible :: "rss_env \<Rightarrow> rss_service \<Rightarrow> rss_item \<Rightarrow> bool" where
  "eligible E st it \<longleftrightarrow>
     sv_auto st \<and> sv_callback st \<and> (i_magnet it \<noteq> [] \<or> i_torrent_url it \<noteq> []) \<and>
     \<not> i_queued it \<and> \<not> i_downloaded it \<and> \<not> i_ignored it \<and>
     (\<exists>feed. List.find (\<lambda>x. f_id x = i_feed_id it) (sv_feeds st) = Some feed \<and>
             f_auto_download_enabled feed) \<and>
     (\<exists>rule \<in> set (sv_rules st). r_enabled rule \<and> rule_applies (ev_text E) rule it)"

lemma matched_rule_exists:
  assumes "findFirstEnabledMatch T rules it = Some m"
  shows "List.find (\<lambda>r. r_id r = m_rule_id m) rules \<noteq> None"
  using assms by (auto simp: findFirst_eq find_None dest!: find_Some_mem)

lemma findFirst_exists:
  "findFirstEnabledMatch T rules it \<noteq> None \<longleftrightarrow>
     (\<exists>rule \<in> set rules. r_enabled rule \<and> rule_applies T rule it)"
  by (simp add: findFirst_eq find_None)

lemma eligible_code:
  "isDiagnosticAutoEligible (qs c) \<longleftrightarrow> c = ''diagnostic_rule_eligible''"
  by (simp add: isDiagnosticAutoEligible_def)

lemma diagnoseRule_eligible:
  "isDiagnosticAutoEligible (i_reason_code (diagnoseRuleAutoDownloadState E st it)) \<longleftrightarrow>
     (\<exists>feed. List.find (\<lambda>x. f_id x = i_feed_id it) (sv_feeds st) = Some feed \<and>
             f_auto_download_enabled feed) \<and>
     findFirstEnabledMatch (ev_text E) (sv_rules st) it \<noteq> None \<and> sv_callback st"
proof (cases "findFirstEnabledMatch (ev_text E) (sv_rules st) it")
  case None
  then show ?thesis
    by (auto simp: diagnoseRuleAutoDownloadState_def eligible_code split: option.splits)
next
  case (Some m)
  with matched_rule_exists [OF Some] obtain r
    where "List.find (\<lambda>r. r_id r = m_rule_id m) (sv_rules st) = Some r" by auto
  with Some show ?thesis
    by (auto simp: diagnoseRuleAutoDownloadState_def eligible_code split: option.splits)
qed

lemma diagnose_eligible:
  "isDiagnosticAutoEligible (i_reason_code (diagnoseItemAutoDownloadState E st it)) \<longleftrightarrow>
     eligible E st it"
  by (auto simp: eligible_def findFirst_exists [symmetric] diagnoseRule_eligible
      diagnoseItemAutoDownloadState_def eligible_code)

lemma ready_diagnose: "ready (diagnoseItemAutoDownloadState E st it) \<longleftrightarrow> eligible E st it"
proof -
  have f: "frame_of (diagnoseItemAutoDownloadState E st it) = frame_of it" by simp
  show ?thesis
    unfolding ready_def diagnose_eligible frame_eqD [OF f] by (auto simp: eligible_def)
qed

lemma rule_applies_frame:
  assumes "frame_of a = frame_of b"
  shows "rule_applies T rule a = rule_applies T rule b"
  unfolding rule_applies_def frame_eqD [OF assms] by (rule refl)

lemma findFirst_frame:
  assumes "frame_of a = frame_of b"
  shows "map_option m_rule_id (findFirstEnabledMatch T rules a) =
         map_option m_rule_id (findFirstEnabledMatch T rules b)"
  unfolding findFirst_eq rule_applies_frame [OF assms] option.map_comp o_def evaluate_ids
  by (rule refl)

definition target_of :: "rss_service \<Rightarrow> qstring option \<Rightarrow> qstring \<times> qstring \<times> qstring" where
  "target_of st o' =
     (case o' of None \<Rightarrow> ([], [], [])
      | Some i \<Rightarrow>
          (case List.find (\<lambda>r. r_id r = i) (sv_rules st) of
             None \<Rightarrow> ([], [], [])
           | Some r \<Rightarrow> (r_save_path r, r_category r, r_tags_csv r)))"

lemma rule_target_of:
  "rule_target E x st =
     target_of st (map_option m_rule_id (findFirstEnabledMatch (ev_text E) (sv_rules st) x))"
  by (simp add: rule_target_def target_of_def split: option.splits)

lemma make_request_frame:
  assumes "frame_of a = frame_of b"
  shows "make_request E a st = make_request E b st"
  unfolding make_request_def rule_target_of findFirst_frame [OF assms] frame_eqD [OF assms]
  by (rule refl)

section \<open>The scratch list\<close>

lemma publishedDesc_weak: "weak_order (publishedDesc its)"
  by (auto simp: weak_order_def publishedDesc_def)

definition env_sorts :: "rss_env \<Rightarrow> bool" where
  "env_sorts E \<longleftrightarrow> sorts (ev_sort_items E) \<and> sorts (ev_sort_idx E) \<and>
                  partially_sorts (ev_partial_sort_idx E)"

lemma scratch_newest:
  assumes "env_sorts E"
    and cands_def: "cands = filter (\<lambda>i. backlog_candidate st scope (sv_items st ! i))
                              [0..<length (sv_items st)]"
    and S_def: "S = sv_scratch (rebuildAutoBacklogScratch E scope st)"
  shows "set S \<subseteq> set cands \<and> distinct S \<and>
    int (length S) = min (int (length cands)) (effectiveAutoDownloadBacklogCap st) \<and>
    sorted_wrt (\<lambda>i j. published (sv_items st ! j) \<le> published (sv_items st ! i)) S \<and>
    (\<forall>i \<in> set S. \<forall>j \<in> set cands - set S.
       published (sv_items st ! j) \<le> published (sv_items st ! i))"
proof -
  let ?cap = "effectiveAutoDownloadBacklogCap st" and ?lt = "publishedDesc (sv_items st)"
  have cap: "1 \<le> ?cap" by (simp add: effectiveAutoDownloadBacklogCap_def clamp_def)
  have dc: "distinct cands" by (simp add: cands_def)
  have le: "(\<not> ?lt j i) = (published (sv_items st ! j) \<le> published (sv_items st ! i))" for i j
    by (auto simp: publishedDesc_def)
  show ?thesis
  proof (cases "int (length cands) \<le> ?cap")
    case True
    have "S = ev_sort_idx E ?lt cands" if "sv_items st \<noteq> []"
      using True that by (simp add: S_def rebuildAutoBacklogScratch_def cands_def Let_def)
    moreover have "mset (ev_sort_idx E ?lt cands) = mset cands"
        "sorted_wrt (\<lambda>i j. \<not> ?lt j i) (ev_sort_idx E ?lt cands)"
      using assms(1) publishedDesc_weak [of "sv_items st"] by (auto simp: env_sorts_def sorts_def)
    moreover have "S = []" "cands = []" if "sv_items st = []"
      using that by (simp_all add: S_def cands_def rebuildAutoBacklogScratch_def Let_def)
    ultimately have "mset S = mset cands" "sorted_wrt (\<lambda>i j. \<not> ?lt j i) S"
      by (cases "sv_items st = []"; simp)+
    with True dc show ?thesis
      by (auto simp: le dest: mset_eq_setD mset_eq_length mset_eq_imp_distinct_iff)
  next
    case False
    then have "sv_items st \<noteq> []" by (auto simp: cands_def cap intro: order_trans [OF _ cap])
    define T where "T = ev_partial_sort_idx E ?lt (nat ?cap) cands"
    have S: "S = take (nat ?cap) T"
      using False \<open>sv_items st \<noteq> []\<close>
      by (simp add: S_def T_def rebuildAutoBacklogScratch_def cands_def Let_def)
    have "nat ?cap \<le> length cands" using False cap by linarith
    with assms(1) publishedDesc_weak [of "sv_items st"]
    have T: "mset T = mset cands" "sorted_wrt (\<lambda>i j. \<not> ?lt j i) (take (nat ?cap) T)"
      "\<forall>i \<in> set (take (nat ?cap) T). \<forall>j \<in> set (drop (nat ?cap) T). \<not> ?lt j i"
      by (auto simp: env_sorts_def partially_sorts_def T_def)
    have len: "length T = length cands" using T(1) by (rule mset_eq_length)
    have set: "set cands = set S \<union> set (drop (nat ?cap) T)"
      using mset_eq_setD [OF T(1)] unfolding S by (metis append_take_drop_id set_append)
    have "distinct T" using T(1) dc by (metis mset_eq_imp_distinct_iff)
    then have "distinct S" unfolding S by simp
    moreover have "int (length S) = min (int (length cands)) ?cap"
      using False cap len unfolding S by auto
    ultimately show ?thesis
      using T(2,3) set unfolding S [symmetric] le by blast
  qed
qed

section \<open>One round of the scheduler\<close>

lemma dispatch_unfold:
  assumes "dispatchDeferredAutoDownloads E max_batch rd scope st = (started, st')" "sv_auto st"
  obtains st1 st3 where
    "st1 = (if rd then upd_items (map (diagnoseItemAutoDownloadState E st)) st else st)"
    "dispatch_loop E (clamp max_batch 1 100)
       (clamp (g_max_concurrent_auto_downloads (sv_settings st)) 1 50)
       (sv_scratch (rebuildAutoBacklogScratch E scope st1)) 0 (inflight st)
       (rebuildAutoBacklogScratch E scope st1) = (started, st3)"
    "same_frame st st1" "same_frame st (rebuildAutoBacklogScratch E scope st1)"
    "same_frame st3 st'"
proof -
  define st1 where
    "st1 = (if rd then upd_items (map (diagnoseItemAutoDownloadState E st)) st else st)"
  have f1: "same_frame st st1" by (auto simp: st1_def intro: same_frame_map)
  have f2: "same_frame st (rebuildAutoBacklogScratch E scope st1)"
    by (rule same_frame_trans [OF f1 same_frame_rebuild])
  obtain st3 where l: "dispatch_loop E (clamp max_batch 1 100)
       (clamp (g_max_concurrent_auto_downloads (sv_settings st)) 1 50)
       (sv_scratch (rebuildAutoBacklogScratch E scope st1)) 0 (inflight st)
       (rebuildAutoBacklogScratch E scope st1) = (started, st3)"
    and e: "st' = syncRssAutoWaitlistMarkers E scope (applyAutoDownloadBacklogOverflowMarkers E st3)"
    using assms same_frame_inflight [OF f1]
    by (auto simp: dispatchDeferredAutoDownloads_def Let_def st1_def split: prod.splits)
  have "same_frame st3 st'"
    unfolding e by (rule same_frame_trans [OF same_frame_overflow same_frame_sync])
  with st1_def l f1 f2 show ?thesis by (rule that)
qed

text \<open>
  C2. Whatever the state, one round of the scheduler starts at most the clamped batch, each start
  marks one more item as queued and sends one request, and when it starts anything it never
  leaves more items in flight than the configured concurrency (1 to 50); with automatic download
  switched off it does nothing.
\<close>

theorem dispatch_within_limits:
  assumes "dispatchDeferredAutoDownloads E max_batch rd scope st = (started, st')"
  shows "0 \<le> started \<and> started \<le> clamp max_batch 1 100 \<and>
    inflight st' = inflight st + started \<and>
    int (length (sv_sent st')) = int (length (sv_sent st)) + started \<and>
    (0 < started \<longrightarrow> inflight st' \<le> clamp (g_max_concurrent_auto_downloads (sv_settings st)) 1 50) \<and>
    (\<not> sv_auto st \<longrightarrow> started = 0 \<and> st' = st)"
proof (cases "sv_auto st")
  case False
  with assms show ?thesis by (auto simp: dispatchDeferredAutoDownloads_def clamp_def)
next
  case True
  from assms True show ?thesis
  proof (cases rule: dispatch_unfold)
    case (1 st1 st3)
    let ?st2 = "rebuildAutoBacklogScratch E scope st1"
    have i: "inflight ?st2 = inflight st" by (rule same_frame_inflight [OF 1(4)])
    have s: "sv_sent ?st2 = sv_sent st" "sv_sent st' = sv_sent st3" "inflight st' = inflight st3"
      using 1(4,5) same_frame_inflight [OF 1(5)] by (auto simp: same_frame_def)
    have "0 \<le> clamp max_batch 1 100" by (simp add: clamp_def)
    with dispatch_loop_limits [of E _ _ _ 0 ?st2 started st3, unfolded i, OF 1(2)] s True
    show ?thesis by auto
  qed
qed

lemma filter_nth: "map ((!) xs) (filter (\<lambda>i. P (xs ! i)) [0..<length xs]) = filter P xs"
  using filter_map [of P "(!) xs" "[0..<length xs]"] by (simp add: map_nth o_def)

definition example_env :: rss_env where
  "example_env =
     \<lparr> ev_text = ascii_text, ev_sort_items = isort, ev_sort_idx = isort,
       ev_partial_sort_idx = psort, ev_add_days = (\<lambda>t d. t + d * 86400000), ev_now = (\<lambda>_. 1000),
       ev_uuid = qs ''u'',
       ev_fetch = (\<lambda>_. \<lparr> fr_ok = True, fr_status = 200, fr_body = [], fr_error = [] \<rparr>),
       ev_parse = (\<lambda>f _. \<lparr> pr_ok = True, pr_items = [default_item \<lparr> i_id := f @ qs ''1'', i_feed_id := f \<rparr>],
                           pr_error = [] \<rparr>) \<rparr>"

lemma env_sorts_example: "env_sorts example_env"
  by (simp add: env_sorts_def example_env_def sorts_isort partially_sorts_psort)

definition example_pending :: "string \<Rightarrow> int \<Rightarrow> rss_item" where
  "example_pending n t =
     default_item \<lparr> i_id := qs n, i_feed_id := qs ''f'', i_magnet := qs ''m'', i_published_at := Some t \<rparr>"

definition example_service :: rss_service where
  "example_service =
     new_service \<lparr> sv_feeds := [default_feed \<lparr> f_id := qs ''f'', f_auto_download_enabled := True \<rparr>],
                   sv_items := [example_pending ''old'' 1, example_pending ''new'' 2],
                   sv_rules := [default_rule \<lparr> r_id := qs ''r'', r_enabled := True \<rparr>],
                   sv_auto := True, sv_callback := True,
                   sv_settings := default_rss_settings \<lparr> g_max_concurrent_auto_downloads := 1 \<rparr> \<rparr>"

lemma example_ids: "distinct (map i_id (sv_items example_service))"
  by (simp add: example_service_def example_pending_def)

lemma dispatch_within_limits_witness:
  "\<exists>started st'. dispatchDeferredAutoDownloads example_env 5 True kAllEligible example_service =
                  (started, st') \<and> 0 \<le> started \<and> started \<le> clamp 5 1 100"
proof -
  obtain started st' where
    e: "dispatchDeferredAutoDownloads example_env 5 True kAllEligible example_service = (started, st')"
    by (rule prod.exhaust)
  from dispatch_within_limits [OF e] e show ?thesis by blast
qed

text \<open>
  C1. With its own diagnosis, a round serves exactly the newest eligible items of its scope: it
  sends one complete request for each of them and for nothing else, as many as the batch, the
  free slots, the backlog limit and the number of eligible items allow, the newest first, and no
  eligible item left behind is newer than one that was served. An item is eligible if automatic
  download is on globally and for its feed, an enabled rule applies, it has a magnet or torrent
  link, and it is neither queued, downloaded nor ignored.
\<close>

theorem dispatch_serves_newest_first:
  assumes "env_sorts E" and "distinct (map i_id (sv_items st))" and "sv_auto st"
    and "dispatchDeferredAutoDownloads E max_batch True scope st = (started, st')"
    and "elig = filter (\<lambda>it. eligible E st it \<and> itemMatchesAutoDownloadScope st it scope) (sv_items st)"
  shows "\<exists>served. sv_sent st' = sv_sent st @ map (\<lambda>it. make_request E it st) served \<and>
    set served \<subseteq> set elig \<and> distinct served \<and> int (length served) = started \<and>
    started = min (min (int (length elig)) (effectiveAutoDownloadBacklogCap st))
                (min (clamp max_batch 1 100)
                  (max 0 (clamp (g_max_concurrent_auto_downloads (sv_settings st)) 1 50 - inflight st))) \<and>
    sorted_wrt (\<lambda>x y. published y \<le> published x) served \<and>
    (\<forall>x \<in> set served. \<forall>y \<in> set elig - set served. published y \<le> published x)"
  using assms(4,3)
proof (cases rule: dispatch_unfold)
  case (1 st1 st3)
  let ?st2 = "rebuildAutoBacklogScratch E scope st1" and ?its = "sv_items st"
  let ?diag = "diagnoseItemAutoDownloadState E st"
  let ?conc = "clamp (g_max_concurrent_auto_downloads (sv_settings st)) 1 50"
  have its1: "sv_items st1 = map ?diag ?its" using 1(1) by simp
  have its2: "sv_items ?st2 = map ?diag ?its"
    using its1 by (simp add: rebuildAutoBacklogScratch_def Let_def)
  have fr: "frame_of (?diag it) = frame_of it" for it by simp
  have pub: "published (?diag it) = published it" for it
    by (simp only: published_def frame_eqD [OF fr])
  have scope: "itemMatchesAutoDownloadScope st1 (?diag it) scope = itemMatchesAutoDownloadScope st it scope" for it
    using 1(3) by (simp add: itemMatchesAutoDownloadScope_def frame_eqD(1) [OF fr] same_frame_def
        split: auto_scope.splits)
  define cands where
    "cands = filter (\<lambda>i. backlog_candidate st1 scope (sv_items st1 ! i)) [0..<length (sv_items st1)]"
  define S where "S = sv_scratch ?st2"
  have cand: "backlog_candidate st1 scope (?diag it) \<longleftrightarrow>
      eligible E st it \<and> itemMatchesAutoDownloadScope st it scope" for it
    using ready_diagnose [of E st it] by (auto simp: backlog_candidate_def scope ready_def)
  have elig: "elig = map (\<lambda>i. ?its ! i) cands"
  proof -
    have "cands = filter (\<lambda>i. eligible E st (?its ! i) \<and>
        itemMatchesAutoDownloadScope st (?its ! i) scope) [0..<length ?its]"
      unfolding cands_def its1 by (auto simp: cand intro!: filter_cong)
    with filter_nth [of ?its "\<lambda>it. eligible E st it \<and> itemMatchesAutoDownloadScope st it scope"]
    show ?thesis using assms(5) by simp
  qed
  have len1: "length (sv_items st1) = length ?its" by (simp add: its1)
  have in_range: "i < length ?its" if "i \<in> set cands" for i
    using that by (simp add: cands_def len1)
  have cand_elig: "eligible E st (?its ! i)" if "i \<in> set cands" for i
  proof -
    from in_range [OF that] have "sv_items st1 ! i = ?diag (?its ! i)" by (simp add: its1)
    moreover from that have "backlog_candidate st1 scope (sv_items st1 ! i)"
      by (simp add: cands_def)
    ultimately show ?thesis by (simp add: cand)
  qed
  have pub1: "published (sv_items st1 ! i) = published (?its ! i)" if "i \<in> set cands" for i
    using in_range [OF that] by (simp add: its1 pub)
  have cap: "effectiveAutoDownloadBacklogCap st1 = effectiveAutoDownloadBacklogCap st"
    using 1(3) by (simp add: effectiveAutoDownloadBacklogCap_def same_frame_def)
  note raw = scratch_newest [OF assms(1) cands_def S_def]
  from raw have sub: "set S \<subseteq> set cands" and dist: "distinct S" by blast+
  from raw cap have size: "int (length S) = min (int (length cands)) (effectiveAutoDownloadBacklogCap st)"
    by simp
  from raw have "sorted_wrt (\<lambda>i j. published (sv_items st1 ! j) \<le> published (sv_items st1 ! i)) S"
    by blast
  then have sorted: "sorted_wrt (\<lambda>i j. published (?its ! j) \<le> published (?its ! i)) S"
    by (rule sorted_wrt_mono_rel [rotated]) (metis sub pub1 subsetD)
  from raw have rest: "\<forall>i \<in> set S. \<forall>j \<in> set cands - set S. published (?its ! j) \<le> published (?its ! i)"
    using sub pub1 by (metis DiffD1 subsetD)
  define k where "k = min (length S) (nat (min (clamp max_batch 1 100 - 0) (?conc - inflight st)))"
  have ids2: "distinct (map i_id (sv_items ?st2))"
    using assms(2) same_frame_ids [OF 1(4)] by simp
  have "S = [] \<or> sv_callback ?st2"
  proof (cases S)
    case (Cons i S')
    with sub have "i \<in> set cands" by auto
    from cand_elig [OF this] show ?thesis using 1(4) by (simp add: eligible_def same_frame_def)
  qed simp
  moreover have "\<forall>i \<in> set S. i < length (sv_items ?st2) \<and> ready (sv_items ?st2 ! i)"
  proof
    fix i assume "i \<in> set S"
    with sub have c: "i \<in> set cands" by blast
    from cand_elig [OF c] in_range [OF c] show "i < length (sv_items ?st2) \<and> ready (sv_items ?st2 ! i)"
      by (simp add: its2 ready_diagnose)
  qed
  ultimately have loop: "started = int k"
      "sv_sent st3 = sv_sent ?st2 @ map (\<lambda>i. make_request E (sv_items ?st2 ! i) ?st2) (take k S)"
    using 1(2) dispatch_loop_prefix [OF ids2 dist _ _ k_def, of E] unfolding S_def [symmetric]
    by (cases "S = []"; auto simp: k_def)+
  define served where "served = map (\<lambda>i. ?its ! i) (take k S)"
  have inS: "i \<in> set cands" if "i \<in> set (take k S)" for i
    using that sub by (auto dest: in_set_takeD)
  have req: "make_request E (sv_items ?st2 ! i) ?st2 = make_request E (?its ! i) st"
    if "i \<in> set (take k S)" for i
  proof -
    have "make_request E (sv_items ?st2 ! i) ?st2 = make_request E (?its ! i) ?st2"
      using in_range [OF inS [OF that]] by (intro make_request_frame) (simp add: its2)
    also have "\<dots> = make_request E (?its ! i) st"
      using 1(4) by (intro make_request_same) (simp_all add: same_frame_def)
    finally show ?thesis .
  qed
  have "sv_sent st' = sv_sent st @ map (\<lambda>it. make_request E it st) served"
    using loop(2) 1(4,5) req by (simp add: same_frame_def served_def)
  moreover have "set served \<subseteq> set elig" using inS by (auto simp: served_def elig)
  moreover have "distinct served"
  proof -
    have di: "distinct ?its" using assms(2) by (simp add: distinct_map)
    have "inj_on ((!) ?its) (set (take k S))"
      by (rule inj_onI) (metis nth_eq_iff_index_eq [OF di] in_range inS)
    with dist show ?thesis by (simp add: served_def distinct_map)
  qed
  moreover have "int (length served) = started" using loop(1) by (simp add: served_def k_def)
  moreover have "started = min (min (int (length elig)) (effectiveAutoDownloadBacklogCap st))
      (min (clamp max_batch 1 100) (max 0 (?conc - inflight st)))"
  proof -
    have "0 \<le> clamp max_batch 1 100" by (simp add: clamp_def)
    then have "int k = min (int (length S)) (min (clamp max_batch 1 100) (max 0 (?conc - inflight st)))"
      unfolding k_def by linarith
    then show ?thesis using loop(1) size by (simp add: elig)
  qed
  moreover have "sorted_wrt (\<lambda>x y. published y \<le> published x) served"
    unfolding served_def sorted_wrt_map by (rule sorted_wrt_take_drop(1) [OF sorted])
  moreover have "published y \<le> published x" if "x \<in> set served" "y \<in> set elig - set served" for x y
  proof -
    from that obtain i j where ij: "i \<in> set (take k S)" "x = ?its ! i" "j \<in> set cands" "y = ?its ! j"
      "j \<notin> set (take k S)" by (auto simp: served_def elig)
    show ?thesis
    proof (cases "j \<in> set S")
      case True
      with ij(5) have "j \<in> set (drop k S)" by (metis Un_iff append_take_drop_id set_append)
      with sorted_wrt_take_drop(2) [OF sorted, of k] ij show ?thesis by blast
    next
      case False
      with rest ij show ?thesis by (auto dest: in_set_takeD)
    qed
  qed
  ultimately show ?thesis by blast
qed

lemma example_eligible:
  "filter (\<lambda>it. eligible example_env example_service it \<and>
              itemMatchesAutoDownloadScope example_service it kAllEligible) (sv_items example_service) =
     sv_items example_service"
  by (simp add: example_service_def eligible_def example_pending_def default_item_def new_service_def
      default_rule_def default_feed_def rule_applies_def itemMatchesAutoDownloadScope_def)

lemma dispatch_serves_newest_first_witness:
  "\<exists>st'. dispatchDeferredAutoDownloads example_env 5 True kAllEligible example_service = (1, st') \<and>
         sv_sent st' = [make_request example_env (example_pending ''new'' 2) example_service]"
proof -
  obtain started st' where
    e: "dispatchDeferredAutoDownloads example_env 5 True kAllEligible example_service = (started, st')"
    by (rule prod.exhaust)
  have a: "sv_auto example_service" by (simp add: example_service_def)
  from dispatch_serves_newest_first [OF env_sorts_example example_ids a e
      example_eligible [symmetric]]
  obtain served where s:
    "sv_sent st' = sv_sent example_service @ map (\<lambda>it. make_request example_env it example_service) served"
    "set served \<subseteq> set (sv_items example_service)" "int (length served) = started"
    "started = min (min (int (length (sv_items example_service)))
                 (effectiveAutoDownloadBacklogCap example_service))
               (min (clamp 5 1 100) (max 0
                 (clamp (g_max_concurrent_auto_downloads (sv_settings example_service)) 1 50
                    - inflight example_service)))"
    "\<forall>x \<in> set served. \<forall>y \<in> set (sv_items example_service) - set served. published y \<le> published x"
    by blast
  from s(4) have one: "started = 1"
    by (simp add: example_service_def effectiveAutoDownloadBacklogCap_def clamp_def inflight_def
        example_pending_def default_item_def new_service_def default_rss_settings_def)
  with s(3) obtain x where x: "served = [x]" by (cases served) auto
  from s(2,5) x have "x = example_pending ''new'' 2"
    by (auto simp: example_service_def example_pending_def published_def)
  with e one s(1) x show ?thesis by (simp add: example_service_def new_service_def)
qed

end
