(* ===== verification/RssInvariants.thy ===== *)
theory RssInvariants
  imports RssScheduler
begin

text \<open>
  The state invariant of the RSS service over all its public operations: item ids are non-empty
  and unique, the duplicate index knows every stored item, the settings are in range and agree
  with the cached limits, and what was saved can be loaded again. With it the scheduler theorem
  applies to every state the program can reach. The JSON codec of the repository is not part of
  the model: loading gives back what was saved.
\<close>

section \<open>Operations as messages\<close>

datatype rss_op =
    OpLoad | OpSave | OpSetAuto bool | OpSetMax int | OpSetCallback bool
  | OpSetPolicy history_policy | OpApply rss_settings
  | OpUpsertFeed rss_feed | OpRemoveFeed qstring | OpClearFeed qstring | OpClearFeeds "qstring list"
  | OpUpsertRule rss_rule | OpRemoveRule qstring
  | OpRefreshAll | OpReload | OpRefresh qstring
  | OpRead qstring | OpIgnore qstring | OpIgnoreMany "qstring list"
  | OpSettle rss_settlement bool qstring bool | OpDownload qstring | OpPrune
  | OpDiagnose | OpDiagnoseFeed qstring | OpDispatch int bool auto_scope

definition empty_disk :: rss_disk where
  "empty_disk = \<lparr> dk_feeds = [], dk_items = [], dk_rules = [], dk_settings = default_rss_settings \<rparr>"

fun rss_step :: "rss_env \<Rightarrow> rss_op \<Rightarrow> rss_service \<Rightarrow> rss_service" where
  "rss_step E OpLoad st =
     loadState E (case sv_disk st of None \<Rightarrow> empty_disk | Some dk \<Rightarrow> dk) st"
| "rss_step E OpSave st = saveState st"
| "rss_step E (OpSetAuto b) st = setAutoDownloadEnabled b st"
| "rss_step E (OpSetMax n) st = setMaxAutoDownloadsPerRefresh n st"
| "rss_step E (OpSetCallback b) st = setDownloadRequestCallback b st"
| "rss_step E (OpSetPolicy p) st = setHistoryPolicy p st"
| "rss_step E (OpApply s) st = applySettings s st"
| "rss_step E (OpUpsertFeed f) st = upsertFeed E f st"
| "rss_step E (OpRemoveFeed i) st = removeFeed E i st"
| "rss_step E (OpClearFeed i) st = clearItemsForFeed E i st"
| "rss_step E (OpClearFeeds is) st = clearItemsForFeeds E is st"
| "rss_step E (OpUpsertRule r) st = upsertRule E r st"
| "rss_step E (OpRemoveRule i) st = removeRule i st"
| "rss_step E OpRefreshAll st = refreshAllFeeds E st"
| "rss_step E OpReload st = reloadItemStreamFromEnabledFeeds E st"
| "rss_step E (OpRefresh i) st = refreshFeed E i st"
| "rss_step E (OpRead i) st = markItemRead i st"
| "rss_step E (OpIgnore i) st = markItemIgnored i st"
| "rss_step E (OpIgnoreMany is) st = markItemsIgnored is st"
| "rss_step E (OpSettle s ok p persist) st = applyRssDownloadSettlement E s ok p persist st"
| "rss_step E (OpDownload i) st = snd (downloadItem E i st)"
| "rss_step E OpPrune st = snd (rss_pruneHistory E st)"
| "rss_step E OpDiagnose st = refreshAutoDownloadDiagnostics E st"
| "rss_step E (OpDiagnoseFeed i) st = refreshAutoDownloadDiagnosticsForFeed E i st"
| "rss_step E (OpDispatch n rd scope) st = snd (dispatchDeferredAutoDownloads E n rd scope st)"

section \<open>The invariant\<close>

definition items_wf :: "rss_item list \<Rightarrow> bool" where
  "items_wf its \<longleftrightarrow> distinct (map i_id its) \<and> [] \<notin> set (map i_id its)"

definition index_ok :: "rss_env \<Rightarrow> rss_item list \<Rightarrow> dedup \<Rightarrow> bool" where
  "index_ok E its d \<longleftrightarrow> (\<forall>it \<in> set its. item_keys (ev_text E) it \<subseteq> index_keys d)"

definition rss_settings_ok :: "rss_settings \<Rightarrow> bool" where
  "rss_settings_ok s \<longleftrightarrow>
     5 \<le> g_refresh_interval_minutes s \<and> g_refresh_interval_minutes s \<le> 1440 \<and>
     1 \<le> g_max_auto_downloads_per_refresh s \<and> g_max_auto_downloads_per_refresh s \<le> 100 \<and>
     1 \<le> g_max_concurrent_auto_downloads s \<and> g_max_concurrent_auto_downloads s \<le> 50 \<and>
     1 \<le> g_max_auto_download_backlog s \<and> g_max_auto_download_backlog s \<le> 500 \<and>
     100 \<le> g_history_max_items s \<and> g_history_max_items s \<le> 100000 \<and>
     0 \<le> g_history_max_age_days s \<and> g_history_max_age_days s \<le> 3650"

definition rss_wf :: "rss_env \<Rightarrow> rss_service \<Rightarrow> bool" where
  "rss_wf E st \<longleftrightarrow>
     items_wf (sv_items st) \<and> index_ok E (sv_items st) (sv_dedup st) \<and>
     rss_settings_ok (sv_settings st) \<and> sv_auto st = g_global_auto_download (sv_settings st) \<and>
     sv_max_auto st = g_max_auto_downloads_per_refresh (sv_settings st) \<and>
     (case sv_disk st of None \<Rightarrow> True | Some dk \<Rightarrow> items_wf (dk_items dk))"

definition env_ok :: "rss_env \<Rightarrow> bool" where
  "env_ok E \<longleftrightarrow> env_sorts E \<and> (\<forall>f b. \<forall>it \<in> set (pr_items (ev_parse E f b)). i_id it \<noteq> [])"

lemma distinct_mset_sub:
  assumes "distinct ys" "mset xs \<subseteq># mset ys"
  shows "distinct xs"
proof -
  have "Multiset.count (mset xs) a = (if a \<in> set xs then 1 else 0)" for a
  proof (cases "a \<in> set xs")
    case True
    then have "0 < Multiset.count (mset xs) a" by simp
    moreover have "Multiset.count (mset xs) a \<le> Multiset.count (mset ys) a"
      using assms(2) by (rule mset_subset_eq_count)
    moreover have "Multiset.count (mset ys) a \<le> 1"
      using assms(1) distinct_count_atmost_1 [of ys] by simp
    ultimately have "Multiset.count (mset xs) a = 1" by linarith
    with True show ?thesis by simp
  qed (simp add: count_eq_zero_iff)
  then show ?thesis by (simp add: distinct_count_atmost_1)
qed

lemma items_wf_mono:
  assumes "items_wf its" "mset its' \<subseteq># mset its"
  shows "items_wf its'"
proof -
  have sub: "mset (map i_id its') \<subseteq># mset (map i_id its)"
    using image_mset_subseteq_mono [OF assms(2), of i_id] by simp
  from set_mset_mono [OF sub] have "set (map i_id its') \<subseteq> set (map i_id its)" by simp
  moreover from assms(1) have "distinct (map i_id its)" "[] \<notin> set (map i_id its)"
    unfolding items_wf_def by blast+
  ultimately show ?thesis
    unfolding items_wf_def using distinct_mset_sub [OF _ sub] by blast
qed

lemma index_keys_buildIndex:
  "index_keys (buildIndex T its) = (\<Union>it \<in> set its. item_keys T it)"
proof -
  have "index_keys (fold (recordItem T) its d) = index_keys d \<union> (\<Union>it \<in> set its. item_keys T it)" for d
    by (induction its arbitrary: d) (auto simp: index_recordItem)
  then show ?thesis by (simp add: buildIndex_def) (simp add: index_keys_def empty_dedup_def)
qed

lemma index_ok_buildIndex [simp]: "index_ok E its (buildIndex (ev_text E) its)"
  by (auto simp: index_ok_def index_keys_buildIndex)

definition ident_of :: "rss_item \<Rightarrow> qstring list" where
  "ident_of it = [i_id it, i_feed_id it, i_guid it, i_link it, i_torrent_url it, i_magnet it]"

lemma ident_frame_of: "ident_of (frame_of it) = ident_of it"
  by (simp add: ident_of_def frame_of_def)

lemma idents_frames:
  assumes "map frame_of xs = map frame_of ys"
  shows "map ident_of xs = map ident_of ys"
proof -
  have "map ident_of zs = map ident_of (map frame_of zs)" for zs by (simp add: ident_frame_of)
  with assms show ?thesis by metis
qed

definition item_of_ident :: "qstring list \<Rightarrow> rss_item" where
  "item_of_ident l =
     default_item \<lparr> i_id := l ! 0, i_feed_id := l ! 1, i_guid := l ! 2, i_link := l ! 3,
                    i_torrent_url := l ! 4, i_magnet := l ! 5 \<rparr>"

lemma keys_ident: "item_keys T it = item_keys T (item_of_ident (ident_of it))"
  by (simp add: item_keys_def item_of_ident_def ident_of_def)

lemma index_ok_ident:
  "index_ok E its d \<longleftrightarrow>
     (\<forall>l \<in> set (map ident_of its). item_keys (ev_text E) (item_of_ident l) \<subseteq> index_keys d)"
  unfolding index_ok_def by (simp add: keys_ident [symmetric])

lemma items_wf_ident:
  "items_wf its \<longleftrightarrow> distinct (map hd (map ident_of its)) \<and> [] \<notin> set (map hd (map ident_of its))"
  by (simp add: items_wf_def ident_of_def o_def)

lemma wf_idents:
  assumes "map ident_of its' = map ident_of its"
  shows "items_wf its' = items_wf its" and "index_ok E its' d = index_ok E its d"
  unfolding items_wf_ident index_ok_ident assms by (rule refl)+


section \<open>Every operation keeps it\<close>

lemma rss_wf_same_items:
  assumes "rss_wf E st" "map ident_of (sv_items st') = map ident_of (sv_items st)"
    "sv_dedup st' = sv_dedup st" "sv_settings st' = sv_settings st" "sv_auto st' = sv_auto st"
    "sv_max_auto st' = sv_max_auto st" "sv_disk st' = sv_disk st"
  shows "rss_wf E st'"
  using assms(1) unfolding rss_wf_def wf_idents [OF assms(2)] assms(3-7) .

lemma rss_wf_same_frame: "rss_wf E st \<Longrightarrow> same_frame st st' \<Longrightarrow> rss_wf E st'"
  by (rule rss_wf_same_items) (auto simp: same_frame_def intro: idents_frames)

lemma rss_wf_rebuild:
  assumes "rss_wf E st" "mset (sv_items st') \<subseteq># mset (sv_items st)"
    "sv_settings st' = sv_settings st" "sv_auto st' = sv_auto st"
    "sv_max_auto st' = sv_max_auto st" "sv_disk st' = sv_disk st"
  shows "rss_wf E (rebuild_index E st')"
  using assms items_wf_mono [OF _ assms(2)]
  by (simp add: rss_wf_def rebuild_index_def)

lemma rss_wf_fewer:
  assumes "rss_wf E st" "mset (sv_items st') \<subseteq># mset (sv_items st)" "sv_dedup st' = sv_dedup st"
    "sv_settings st' = sv_settings st" "sv_auto st' = sv_auto st"
    "sv_max_auto st' = sv_max_auto st" "sv_disk st' = sv_disk st"
  shows "rss_wf E st'"
proof -
  have "set (sv_items st') \<subseteq> set (sv_items st)" using set_mset_mono [OF assms(2)] by simp
  then have "index_ok E (sv_items st) d \<Longrightarrow> index_ok E (sv_items st') d" for d
    by (auto simp: index_ok_def)
  with assms items_wf_mono [OF _ assms(2)] show ?thesis by (simp add: rss_wf_def)
qed

lemma prune_feed_sel [simp]:
  "sv_feeds (pruneItemsWithoutMatchingFeed st) = sv_feeds st"
  "sv_settings (pruneItemsWithoutMatchingFeed st) = sv_settings st"
  "sv_auto (pruneItemsWithoutMatchingFeed st) = sv_auto st"
  "sv_max_auto (pruneItemsWithoutMatchingFeed st) = sv_max_auto st"
  "sv_disk (pruneItemsWithoutMatchingFeed st) = sv_disk st"
  "sv_dedup (pruneItemsWithoutMatchingFeed st) = sv_dedup st"
  by (simp_all add: pruneItemsWithoutMatchingFeed_def Let_def)

lemma prune_feed_items: "mset (sv_items (pruneItemsWithoutMatchingFeed st)) \<subseteq># mset (sv_items st)"
  by (simp add: pruneItemsWithoutMatchingFeed_def Let_def mset_filter multiset_filter_subset)

lemma rss_wf_prune_rebuild:
  "rss_wf E st \<Longrightarrow> rss_wf E (rebuild_index E (pruneItemsWithoutMatchingFeed st))"
  by (rule rss_wf_rebuild) (simp_all add: prune_feed_items)

lemma pruneHistory_fewer:
  assumes "sorts srt" "pruneHistory srt addDays now pol items = (r, kept)"
  shows "mset kept \<subseteq># mset items"
proof -
  define items1 where "items1 = (if hp_max_age_days pol > 0
      then filter (\<lambda>it. \<not> too_old (addDays now (- hp_max_age_days pol)) it) items else items)"
  have "mset items1 \<subseteq># mset items" by (simp add: items1_def multiset_filter_subset)
  moreover have "mset (srt history_before items1) = mset items1"
    using assms(1) history_before_weak by (simp add: sorts_def)
  then have "mset (take n (srt history_before items1)) \<subseteq># mset items1" for n
    by (metis append_take_drop_id mset_append mset_subset_eq_add_left)
  moreover have "kept = items1 \<or> (\<exists>n. kept = take n (srt history_before items1))"
    using assms(2) by (auto simp: pruneHistory_def items1_def Let_def split: if_splits)
  ultimately show ?thesis by (auto intro: subset_mset.trans)
qed

lemma rss_wf_pruneHistory:
  assumes "env_sorts E" "rss_wf E st"
  shows "rss_wf E (snd (rss_pruneHistory E st))"
proof -
  obtain r its where p: "pruneHistory (ev_sort_items E) (ev_add_days E) (ev_now E [])
      (sv_policy st) (sv_items st) = (r, its)" by (rule prod.exhaust)
  from assms(1) pruneHistory_fewer [OF _ p] have sub: "mset its \<subseteq># mset (sv_items st)"
    by (simp add: env_sorts_def)
  show ?thesis
    using rss_wf_rebuild [OF assms(2), of "st\<lparr> sv_items := its \<rparr>"]
      rss_wf_fewer [OF assms(2), of "st\<lparr> sv_items := its \<rparr>"] sub
    by (simp add: rss_pruneHistory_def p Let_def)
qed

lemma keep_distinct:
  assumes "\<forall>it \<in> set incoming. i_id it \<noteq> []" "items_wf its" "index_ok E its d"
    "dedup_loop (ev_text E) d incoming = (unique, d')"
  shows "items_wf (its @ unique)"
proof -
  from assms(4) have u: "unique = fst (dedup.keep (ev_text E) d incoming)"
    by (simp add: dedup_loop_keep)
  have ne: "i_id it \<noteq> []" if "it \<in> set unique" for it
    using assms(1) dedup.keep_subset [of "ev_text E" d incoming] that u by auto
  have same: "same_item T a b" if "i_id a = i_id b" "i_id a \<noteq> []" for T a b
    using that by (auto simp: same_item_def item_keys_def Let_def)
  have "distinct (map i_id vs)" if "unique = us @ vs" for us vs
    using that
  proof (induction vs arbitrary: us)
    case (Cons v vs)
    from Cons.prems have "\<not> same_item (ev_text E) v w" if "w \<in> set vs" for w
      using dedup.keep_pairwise [of "ev_text E" d incoming us v vs w] u that by simp
    moreover have "i_id v \<noteq> []" using Cons.prems ne by simp
    ultimately have "i_id v \<notin> set (map i_id vs)" using same by force
    moreover have "distinct (map i_id vs)" using Cons.IH [of "us @ [v]"] Cons.prems by simp
    ultimately show ?case by simp
  qed simp
  then have du: "distinct (map i_id unique)" by simp
  have "i_id x \<noteq> i_id y" if "x \<in> set its" "y \<in> set unique" for x y
  proof
    assume e: "i_id x = i_id y"
    with ne [OF that(2)] have "KId (i_id y) \<in> item_keys (ev_text E) x"
      by (simp add: item_keys_def Let_def)
    with assms(3) that(1) have "KId (i_id y) \<in> index_keys d" by (auto simp: index_ok_def)
    moreover have "KId (i_id y) \<in> item_keys (ev_text E) y"
      using ne [OF that(2)] by (simp add: item_keys_def Let_def)
    ultimately have "isDuplicate (ev_text E) d y" by (auto simp: isDuplicate_keys)
    with dedup.keep_not_known [of y "ev_text E" d incoming] that(2) u show False by simp
  qed
  with du assms(2) ne show ?thesis by (fastforce simp: items_wf_def)
qed

lemma upd_feed_sel [simp]:
  "sv_items (upd_feed i g st) = sv_items st" "sv_dedup (upd_feed i g st) = sv_dedup st"
  "sv_settings (upd_feed i g st) = sv_settings st" "sv_auto (upd_feed i g st) = sv_auto st"
  "sv_max_auto (upd_feed i g st) = sv_max_auto st" "sv_disk (upd_feed i g st) = sv_disk st"
  by (simp_all add: upd_feed_def)

lemma refresh_body_wf:
  assumes "env_ok E" "rss_wf E st"
  shows "rss_wf E (rebuild_index E (refresh_body E feed_id feed st))"
proof -
  let ?p = "pr_items (ev_parse E feed_id (fr_body (ev_fetch E (f_url feed))))"
  obtain unique d' where d: "dedup_loop (ev_text E) (sv_dedup st) ?p = (unique, d')"
    by (rule prod.exhaust)
  have "items_wf (sv_items st @ unique)"
    by (rule keep_distinct [OF _ _ _ d]) (use assms in \<open>auto simp: env_ok_def rss_wf_def\<close>)
  with assms(2) d show ?thesis
    by (simp add: refresh_body_def Let_def dedupIncoming_def rebuild_index_def rss_wf_def)
qed

lemma refreshFeedImpl_wf:
  assumes "env_ok E" "rss_wf E st"
  shows "rss_wf E (refreshFeedImpl E feed_id st)"
proof (cases "List.find (\<lambda>x. f_id x = feed_id) (sv_feeds st)")
  case (Some feed)
  have "rebuild_index E (pruneItemsWithoutMatchingFeed (rebuild_index E s)) =
        rebuild_index E (pruneItemsWithoutMatchingFeed s)" for s
    by (simp add: rebuild_index_def pruneItemsWithoutMatchingFeed_def upd_items_def Let_def)
  with Some rss_wf_prune_rebuild [OF refresh_body_wf [OF assms, of feed_id feed]] show ?thesis
    by (simp add: refreshFeedImpl_def)
qed (simp add: refreshFeedImpl_def assms)

lemma refreshAllFeeds_wf:
  assumes "env_ok E" "rss_wf E st"
  shows "rss_wf E (refreshAllFeeds E st)"
proof -
  have "rss_wf E (fold (refreshFeedImpl E) ids s)" if "rss_wf E s" for ids s
    using that by (induction ids arbitrary: s) (auto intro: refreshFeedImpl_wf [OF assms(1)])
  moreover have "rss_wf E (st\<lparr> sv_new_ids := [] \<rparr>)"
    by (rule rss_wf_same_items [OF assms(2)]) simp_all
  ultimately show ?thesis
    using assms(1) unfolding refreshAllFeeds_def Let_def env_ok_def
    by (blast intro: rss_wf_prune_rebuild rss_wf_pruneHistory)
qed

lemma rebuild_index_fewer_wf:
  "rss_wf E st \<Longrightarrow> rss_wf E (rebuild_index E (upd_items (filter P) st))"
  by (rule rss_wf_rebuild) (simp_all add: multiset_filter_subset)

lemma removeFeed_wf:
  assumes "rss_wf E st"
  shows "rss_wf E (removeFeed E feed_id st)"
  unfolding removeFeed_def
  by (rule rss_wf_prune_rebuild, rule rss_wf_fewer [OF assms])
    (simp_all add: multiset_filter_subset)

lemma settings_applied: "rss_settings_ok (sv_settings (applySettings s st))"
  using clamp_bounds [of 5 1440 "g_refresh_interval_minutes s"]
    clamp_bounds [of 1 100 "g_max_auto_downloads_per_refresh s"]
    clamp_bounds [of 1 50 "g_max_concurrent_auto_downloads s"]
    clamp_bounds [of 1 500 "g_max_auto_download_backlog s"]
    clamp_bounds [of 100 100000 "g_history_max_items s"]
    clamp_bounds [of 0 3650 "g_history_max_age_days s"]
  by (simp add: applySettings_def rss_settings_ok_def Let_def)

lemma applySettings_sel [simp]:
  "sv_items (applySettings s st) = sv_items st" "sv_dedup (applySettings s st) = sv_dedup st"
  "sv_disk (applySettings s st) = sv_disk st" "sv_feeds (applySettings s st) = sv_feeds st"
  "sv_auto (applySettings s st) = g_global_auto_download (sv_settings (applySettings s st))"
  "sv_max_auto (applySettings s st) = g_max_auto_downloads_per_refresh (sv_settings (applySettings s st))"
  by (simp_all add: applySettings_def Let_def)

lemma loadState_wf:
  assumes "items_wf (dk_items dk)" "case sv_disk st of None \<Rightarrow> True | Some d \<Rightarrow> items_wf (dk_items d)"
  shows "rss_wf E (loadState E dk st)"
proof -
  let ?its = "map (\<lambda>it. it\<lparr> i_queued := False, i_waitlisted := False \<rparr>) (dk_items dk)"
  let ?st1 = "st\<lparr> sv_feeds := dk_feeds dk, sv_items := ?its, sv_rules := dk_rules dk,
                 sv_settings := dk_settings dk \<rparr>"
  let ?st2 = "applySettings (dk_settings dk) ?st1"
  have "items_wf ?its" using assms(1) by (simp add: items_wf_def o_def)
  moreover have "mset (sv_items (pruneItemsWithoutMatchingFeed ?st2)) \<subseteq># mset ?its"
    using prune_feed_items [of ?st2] by simp
  ultimately have "items_wf (sv_items (pruneItemsWithoutMatchingFeed ?st2))" by (rule items_wf_mono)
  with assms(2) settings_applied show ?thesis
    by (simp add: loadState_def Let_def rss_wf_def rebuild_index_def)
qed

lemma ident_upd_first:
  "(\<And>it. ident_of (g it) = ident_of it) \<Longrightarrow> map ident_of (upd_first P g its) = map ident_of its"
  by (rule map_upd_first) simp

lemma rss_wf_upd_items:
  "rss_wf E st \<Longrightarrow> map ident_of (g (sv_items st)) = map ident_of (sv_items st) \<Longrightarrow>
   rss_wf E (upd_items g st)"
  by (rule rss_wf_same_items) simp_all

lemma settle_ident: "ident_of (settle_item now success path it) = ident_of it"
  by (simp add: settle_item_def ident_of_def Let_def)

lemma saveState_wf: "rss_wf E st \<Longrightarrow> rss_wf E (saveState st)"
  by (simp add: saveState_def rss_wf_def)

lemma settlement_wf:
  assumes "rss_wf E st"
  shows "rss_wf E (applyRssDownloadSettlement E s ok path persist st)"
  using assms
  by (auto simp: applyRssDownloadSettlement_def Let_def
      intro!: saveState_wf rss_wf_upd_items ident_upd_first settle_ident)

lemma queue_ident: "ident_of (queue_item E it) = ident_of it"
  by (simp add: queue_item_def ident_of_def)

lemma downloadItem_wf:
  assumes "rss_wf E st"
  shows "rss_wf E (snd (downloadItem E i st))"
proof -
  obtain ok st' where d: "downloadItem E i st = (ok, st')" by (rule prod.exhaust)
  then show ?thesis
  proof (cases rule: downloadItem_cases)
    case (started it)
    have "rss_wf E (upd_items (upd_first (\<lambda>x. i_id x = i) (queue_item E)) st)"
      by (intro rss_wf_upd_items assms ident_upd_first queue_ident)
    with started d show ?thesis by (simp add: rss_wf_def)
  next
    case refused
    with d assms show ?thesis by (auto intro: rss_wf_same_frame)
  qed
qed

lemma dispatch_loop_wf:
  "rss_wf E st \<Longrightarrow> rss_wf E (snd (dispatch_loop E cap mc scratch started infl st))"
proof (induction scratch arbitrary: started infl st)
  case (Cons idx scratch)
  show ?case
    using Cons.IH downloadItem_wf [OF Cons.prems, of "i_id (sv_items st ! idx)"] Cons.prems
    by (cases "downloadItem E (i_id (sv_items st ! idx)) st") (simp add: Let_def)
qed simp

lemma dispatch_wf:
  assumes "rss_wf E st"
  shows "rss_wf E (snd (dispatchDeferredAutoDownloads E n rd scope st))"
proof (cases "sv_auto st")
  case True
  obtain started st' where d: "dispatchDeferredAutoDownloads E n rd scope st = (started, st')"
    by (rule prod.exhaust)
  from d True show ?thesis
  proof (cases rule: dispatch_unfold)
    case (1 st1 st3)
    from rss_wf_same_frame [OF assms 1(4)] have "rss_wf E st3"
      using dispatch_loop_wf 1(2) by (metis snd_conv)
    from rss_wf_same_frame [OF this 1(5)] d show ?thesis by simp
  qed
qed (simp add: dispatchDeferredAutoDownloads_def assms)

lemma diagnostics_wf:
  assumes "rss_wf E st"
  shows "rss_wf E (refreshAutoDownloadDiagnostics E st)"
    "rss_wf E (refreshAutoDownloadDiagnosticsForFeed E i st)"
proof -
  have f: "same_frame st (syncRssAutoWaitlistMarkers E kAllEligible
      (applyAutoDownloadBacklogOverflowMarkers E (upd_items (map g) st)))"
    if "\<And>it. frame_of (g it) = frame_of it" for g
    by (rule same_frame_trans [OF same_frame_map [OF that] same_frame_trans [OF same_frame_overflow same_frame_sync]])
  show "rss_wf E (refreshAutoDownloadDiagnostics E st)"
    unfolding refreshAutoDownloadDiagnostics_def Let_def
    by (rule rss_wf_same_frame [OF assms f]) simp
  show "rss_wf E (refreshAutoDownloadDiagnosticsForFeed E i st)"
    unfolding refreshAutoDownloadDiagnosticsForFeed_def Let_def
    by (cases "i = []") (simp_all add: assms rss_wf_same_frame [OF assms f])
qed

lemma upsertFeed_wf: "rss_wf E st \<Longrightarrow> rss_wf E (upsertFeed E f st)"
  by (auto simp: upsertFeed_def Let_def intro!: rss_wf_same_items [of E st])

lemma upsertRule_wf: "rss_wf E st \<Longrightarrow> rss_wf E (upsertRule E r st)"
  by (auto simp: upsertRule_def intro!: rss_wf_same_items [of E st])

lemma rss_step_wf:
  assumes "env_ok E" "rss_wf E st"
  shows "rss_wf E (rss_step E opn st)"
proof (cases opn)
  case OpLoad
  have "items_wf (dk_items (case sv_disk st of None \<Rightarrow> empty_disk | Some dk \<Rightarrow> dk))"
    using assms(2) by (auto simp: rss_wf_def empty_disk_def items_wf_def split: option.splits)
  with OpLoad assms(2) loadState_wf show ?thesis by (simp add: rss_wf_def)
next
  case (OpSetAuto b)
  with assms(2) show ?thesis
    by (simp add: rss_wf_def setAutoDownloadEnabled_def rss_settings_ok_def)
next
  case (OpSetMax n)
  with assms(2) clamp_bounds [of 1 100 n] show ?thesis
    by (simp add: rss_wf_def setMaxAutoDownloadsPerRefresh_def rss_settings_ok_def)
next
  case (OpApply s)
  with assms(2) settings_applied [of s st] show ?thesis by (simp add: rss_wf_def)
next
  case OpReload
  have "rss_wf E (if map f_id (filter f_enabled (sv_feeds st)) \<noteq> []
      then rebuild_index E (upd_items (filter (\<lambda>x. i_feed_id x \<notin> set (map f_id (filter f_enabled (sv_feeds st))))) st)
      else st)"
    using rebuild_index_fewer_wf [OF assms(2)] assms(2) by simp
  from refreshAllFeeds_wf [OF assms(1) this] OpReload show ?thesis
    by (simp add: reloadItemStreamFromEnabledFeeds_def Let_def)
next
  case (OpIgnoreMany ids)
  have "map ident_of (map (\<lambda>it. if i_id it \<in> set ids then it\<lparr> i_ignored := True \<rparr> else it) its) =
        map ident_of its" for its
    by (simp add: ident_of_def)
  with OpIgnoreMany assms(2) show ?thesis
    by (simp add: markItemsIgnored_def rss_wf_upd_items)
qed (use assms in \<open>auto simp: saveState_wf settlement_wf downloadItem_wf dispatch_wf diagnostics_wf
    removeFeed_wf rebuild_index_fewer_wf refreshAllFeeds_wf refreshFeedImpl_wf upsertFeed_wf upsertRule_wf
    clearItemsForFeed_def clearItemsForFeeds_def removeRule_def refreshFeed_def markItemRead_def
    markItemIgnored_def setAutoDownloadEnabled_def setDownloadRequestCallback_def setHistoryPolicy_def
    env_ok_def rss_settings_ok_def ident_of_def split: option.splits
    intro!: rss_wf_upd_items ident_upd_first rss_wf_pruneHistory rss_wf_same_items [of E st]\<close>)

section \<open>Properties\<close>

text \<open>
  C3. After any sequence of the service's operations from a new service, item ids are non-empty
  and unique, the duplicate index knows every stored item, every setting lies in its documented
  range and agrees with the cached limits, and what is on disk has unique ids again.
\<close>

theorem service_invariant:
  assumes "env_ok E"
  shows "rss_wf E (fold (rss_step E) ops new_service)"
proof -
  have "rss_wf E (fold (rss_step E) ops st)" if "rss_wf E st" for st
    using that by (induction ops arbitrary: st) (auto intro: rss_step_wf [OF assms])
  moreover have "rss_wf E new_service"
    by (simp add: rss_wf_def new_service_def items_wf_def index_ok_def rss_settings_ok_def
        default_rss_settings_def)
  ultimately show ?thesis .
qed

lemma env_ok_example: "env_ok example_env"
  unfolding env_ok_def using env_sorts_example by (simp add: example_env_def)

lemma service_invariant_witness:
  "rss_wf example_env (fold (rss_step example_env)
     [OpApply (default_rss_settings \<lparr> g_global_auto_download := True, g_max_concurrent_auto_downloads := 99 \<rparr>),
      OpUpsertFeed (default_feed \<lparr> f_id := qs ''f'' \<rparr>), OpRefreshAll, OpSave, OpLoad] new_service)"
  by (rule service_invariant [OF env_ok_example])

definition orphan_free :: "rss_service \<Rightarrow> bool" where
  "orphan_free st \<longleftrightarrow>
     (\<forall>it \<in> set (sv_items st).
        if i_feed_id it = [] then sv_feeds st = [] else i_feed_id it \<in> set (map f_id (sv_feeds st)))"

lemma orphan_free_prune: "orphan_free (pruneItemsWithoutMatchingFeed st)"
  by (auto simp: orphan_free_def pruneItemsWithoutMatchingFeed_def Let_def)

lemma orphan_free_rebuild: "orphan_free (rebuild_index E st) = orphan_free st"
  by (simp add: orphan_free_def rebuild_index_def)



text \<open>
  Settling a queued download frees exactly one slot. On success the item is recorded as
  downloaded to the chosen directory and is not eligible for automatic download again; on
  failure its retry counter grows and nothing else of its eligibility changes. No other item
  changes.
\<close>

theorem settlement_frees_a_slot:
  assumes "distinct (map i_id (sv_items st))" and "it \<in> set (sv_items st)" and "i_queued it"
    and "i_id it = st_item_id s" and "st_item_id s \<noteq> []"
    and "st' = applyRssDownloadSettlement E s success override persist st"
  shows "inflight st' = inflight st - 1 \<and>
    (\<exists>us vs it'. sv_items st = us @ it # vs \<and> sv_items st' = us @ it' # vs \<and> i_id it' = i_id it \<and>
       \<not> i_queued it' \<and>
       (if success then
          i_downloaded it' \<and> \<not> eligible E st' it' \<and>
          i_download_save_path it' =
            (if trimmed override = [] then st_record_save_path s else override)
        else i_retry_count it' = i_retry_count it + 1 \<and> i_downloaded it' = i_downloaded it))"
proof -
  let ?P = "\<lambda>x. i_id x = st_item_id s"
  let ?path = "if trimmed override = [] then st_record_save_path s else override"
  let ?it' = "settle_item (ev_now E (st_item_id s)) success ?path it"
  have "\<exists>x \<in> set (sv_items st). ?P x" using assms(2,4) by blast
  from upd_first_split [OF this] obtain us x vs where
    x: "sv_items st = us @ x # vs" "?P x" "\<forall>u \<in> set us. \<not> ?P u"
      "upd_first ?P (settle_item (ev_now E (st_item_id s)) success ?path) (sv_items st) =
         us @ settle_item (ev_now E (st_item_id s)) success ?path x # vs"
    by blast
  have "x = it"
  proof (rule inj_onD [of i_id "set (sv_items st)"])
    show "inj_on i_id (set (sv_items st))" using assms(1) by (simp add: distinct_map)
  qed (use assms(2,4) x(1,2) in auto)
  with x assms(5,6) have its: "sv_items st = us @ it # vs" "sv_items st' = us @ ?it' # vs"
    by (auto simp: applyRssDownloadSettlement_def saveState_def Let_def)
  have q: "\<not> i_queued ?it'" "i_id ?it' = i_id it"
    "success \<Longrightarrow> i_downloaded ?it' \<and> i_download_save_path ?it' = ?path"
    "\<not> success \<Longrightarrow> i_retry_count ?it' = i_retry_count it + 1 \<and> i_downloaded ?it' = i_downloaded it"
    by (simp_all add: settle_item_def Let_def) (simp_all add: markItemDecision_def)
  have "inflight st' = inflight st - 1" using its q(1) assms(3) by (simp add: inflight_def)
  moreover have "success \<Longrightarrow> \<not> eligible E st' ?it'" using q(3) by (simp add: eligible_def)
  ultimately show ?thesis using its q by (intro conjI exI [of _ us] exI [of _ vs] exI [of _ ?it']) auto
qed

definition settling_service :: rss_service where
  "settling_service =
     new_service \<lparr> sv_items := [example_pending ''old'' 1, (example_pending ''new'' 2)\<lparr> i_queued := True \<rparr>] \<rparr>"

lemma settlement_frees_a_slot_witness:
  "inflight (applyRssDownloadSettlement example_env
      \<lparr> st_item_id = qs ''new'', st_record_save_path = qs ''/d'' \<rparr> True [] False settling_service) = 0"
proof -
  have d: "distinct (map i_id (sv_items settling_service))"
    by (simp add: settling_service_def example_pending_def)
  have m: "(example_pending ''new'' 2)\<lparr> i_queued := True \<rparr> \<in> set (sv_items settling_service)"
    by (simp add: settling_service_def)
  have i: "inflight settling_service = 1"
    by (simp add: settling_service_def inflight_def example_pending_def default_item_def)
  from settlement_frees_a_slot [OF d m _ _ _ refl, of "\<lparr> st_item_id = qs ''new'', st_record_save_path = qs ''/d'' \<rparr>"
      example_env True "[]" False] i
  show ?thesis by (simp add: example_pending_def)
qed

end
