(* ===== verification/Errors.thy ===== *)
theory Errors
  imports Prelude
begin

text \<open>
  The error model and the small enumerations every layer uses: \<open>base/errors.{h,cc}\<close>
  (\<open>ErrorCode\<close>, \<open>ErrorDomain\<close>, the class \<open>Error\<close> and the conversions from \<open>errno\<close>),
  \<open>base/types.h\<close> (\<open>TaskStatus\<close>, \<open>LogLevel\<close>), \<open>base/time_stamps.cc\<close> and
  \<open>lt/error_conversions.cc\<close>. A fallible operation of the code returns an \<open>Error\<close> whose code
  is \<open>kSuccess\<close> when it went well; here that is the record \<open>err\<close>.
\<close>

section \<open>Error codes and domains\<close>

datatype error_code =
    kSuccess
  | kInvalidMagnet | kInvalidTorrentPath | kInvalidSavePath | kSavePathNotWritable
  | kInvalidArgument
  | kFileNotFound | kFileReadFailed | kFileWriteFailed | kDirectoryCreateFailed | kDiskFull
  | kPathPermissionDenied
  | kAddTorrentFailed | kDuplicateTorrent | kMetadataTimeout | kTorrentRemoved
  | kLoadTasksFailed | kSaveTasksFailed | kLoadResumeDataFailed | kSaveResumeDataFailed
  | kUnknownCode

datatype error_domain =
  dNone | dValidation | dIo | dSystem | dLibtorrent | dPersistence | dUnknown

definition isSuccess :: "error_code \<Rightarrow> bool" where
  "isSuccess c \<longleftrightarrow> c = kSuccess"

fun toInt :: "error_code \<Rightarrow> 32 word" where
  "toInt kSuccess = 0"
| "toInt kInvalidMagnet = 1"
| "toInt kInvalidTorrentPath = 2"
| "toInt kInvalidSavePath = 3"
| "toInt kSavePathNotWritable = 4"
| "toInt kInvalidArgument = 5"
| "toInt kFileNotFound = 6"
| "toInt kFileReadFailed = 7"
| "toInt kFileWriteFailed = 8"
| "toInt kDirectoryCreateFailed = 9"
| "toInt kDiskFull = 10"
| "toInt kPathPermissionDenied = 11"
| "toInt kAddTorrentFailed = 12"
| "toInt kDuplicateTorrent = 13"
| "toInt kMetadataTimeout = 14"
| "toInt kTorrentRemoved = 15"
| "toInt kLoadTasksFailed = 16"
| "toInt kSaveTasksFailed = 17"
| "toInt kLoadResumeDataFailed = 18"
| "toInt kSaveResumeDataFailed = 19"
| "toInt kUnknownCode = 20"

definition fromInt :: "32 word \<Rightarrow> error_code" where
  "fromInt n =
     (if n = toInt kSuccess then kSuccess
      else if n = toInt kInvalidMagnet then kInvalidMagnet
      else if n = toInt kInvalidTorrentPath then kInvalidTorrentPath
      else if n = toInt kInvalidSavePath then kInvalidSavePath
      else if n = toInt kSavePathNotWritable then kSavePathNotWritable
      else if n = toInt kInvalidArgument then kInvalidArgument
      else if n = toInt kFileNotFound then kFileNotFound
      else if n = toInt kFileReadFailed then kFileReadFailed
      else if n = toInt kFileWriteFailed then kFileWriteFailed
      else if n = toInt kDirectoryCreateFailed then kDirectoryCreateFailed
      else if n = toInt kDiskFull then kDiskFull
      else if n = toInt kPathPermissionDenied then kPathPermissionDenied
      else if n = toInt kAddTorrentFailed then kAddTorrentFailed
      else if n = toInt kDuplicateTorrent then kDuplicateTorrent
      else if n = toInt kMetadataTimeout then kMetadataTimeout
      else if n = toInt kTorrentRemoved then kTorrentRemoved
      else if n = toInt kLoadTasksFailed then kLoadTasksFailed
      else if n = toInt kSaveTasksFailed then kSaveTasksFailed
      else if n = toInt kLoadResumeDataFailed then kLoadResumeDataFailed
      else if n = toInt kSaveResumeDataFailed then kSaveResumeDataFailed
      else if n = toInt kUnknownCode then kUnknownCode
      else kUnknownCode)"

fun domainForCode :: "error_code \<Rightarrow> error_domain" where
  "domainForCode kSuccess = dNone"
| "domainForCode kInvalidMagnet = dValidation"
| "domainForCode kInvalidTorrentPath = dValidation"
| "domainForCode kInvalidSavePath = dValidation"
| "domainForCode kSavePathNotWritable = dValidation"
| "domainForCode kInvalidArgument = dValidation"
| "domainForCode kFileNotFound = dIo"
| "domainForCode kFileReadFailed = dIo"
| "domainForCode kFileWriteFailed = dIo"
| "domainForCode kDirectoryCreateFailed = dIo"
| "domainForCode kDiskFull = dIo"
| "domainForCode kPathPermissionDenied = dIo"
| "domainForCode kAddTorrentFailed = dLibtorrent"
| "domainForCode kDuplicateTorrent = dLibtorrent"
| "domainForCode kMetadataTimeout = dLibtorrent"
| "domainForCode kTorrentRemoved = dLibtorrent"
| "domainForCode kLoadTasksFailed = dPersistence"
| "domainForCode kSaveTasksFailed = dPersistence"
| "domainForCode kLoadResumeDataFailed = dPersistence"
| "domainForCode kSaveResumeDataFailed = dPersistence"
| "domainForCode kUnknownCode = dUnknown"

fun defaultMessage :: "error_code \<Rightarrow> qstring" where
  "defaultMessage kSuccess = []"
| "defaultMessage kInvalidMagnet = qs ''Invalid magnet URI or parse failure''"
| "defaultMessage kInvalidTorrentPath = qs ''Invalid or unreadable torrent file path''"
| "defaultMessage kInvalidSavePath = qs ''Save path is empty or invalid''"
| "defaultMessage kSavePathNotWritable = qs ''Save path is not writable''"
| "defaultMessage kInvalidArgument = qs ''Invalid argument''"
| "defaultMessage kFileNotFound = qs ''File not found''"
| "defaultMessage kFileReadFailed = qs ''Failed to read file''"
| "defaultMessage kFileWriteFailed = qs ''Failed to write file''"
| "defaultMessage kDirectoryCreateFailed = qs ''Failed to create directory''"
| "defaultMessage kDiskFull = qs ''Disk is full''"
| "defaultMessage kPathPermissionDenied = qs ''Path permission denied''"
| "defaultMessage kAddTorrentFailed = qs ''Failed to add torrent''"
| "defaultMessage kDuplicateTorrent = qs ''Torrent task already exists''"
| "defaultMessage kMetadataTimeout = qs ''Metadata retrieval timed out''"
| "defaultMessage kTorrentRemoved = qs ''Torrent task has been removed''"
| "defaultMessage kLoadTasksFailed = qs ''Failed to load task list''"
| "defaultMessage kSaveTasksFailed = qs ''Failed to save task list''"
| "defaultMessage kLoadResumeDataFailed = qs ''Failed to load resume data''"
| "defaultMessage kSaveResumeDataFailed = qs ''Failed to save resume data''"
| "defaultMessage kUnknownCode = qs ''Unknown error''"

section \<open>The class Error\<close>

record err =
  err_code :: error_code
  err_message :: qstring
  err_detail :: qstring
  err_domain :: error_domain
  err_raw :: int

definition Error0 :: err where
  \<comment> \<open>the default constructor\<close>
  "Error0 = \<lparr>err_code = kSuccess, err_message = [], err_detail = [], err_domain = dNone,
            err_raw = 0\<rparr>"

definition mkError :: "error_code \<Rightarrow> qstring \<Rightarrow> qstring \<Rightarrow> error_domain \<Rightarrow> int \<Rightarrow> err" where
  "mkError code message detail domain rawCode =
     \<lparr>err_code = code, err_message = message, err_detail = detail,
      err_domain = (if domain = dUnknown then domainForCode code else domain),
      err_raw = rawCode\<rparr>"

definition Error2 :: "error_code \<Rightarrow> qstring \<Rightarrow> err" where
  \<comment> \<open>the constructor with its default arguments\<close>
  "Error2 code message = mkError code message [] dUnknown 0"

definition hasError :: "err \<Rightarrow> bool" where
  "hasError e \<longleftrightarrow> \<not> isSuccess (err_code e)"

definition isOk :: "err \<Rightarrow> bool" where
  "isOk e \<longleftrightarrow> isSuccess (err_code e)"

definition displayMessage :: "err \<Rightarrow> qstring" where
  "displayMessage e = (if err_message e \<noteq> [] then err_message e else defaultMessage (err_code e))"

section \<open>Errors of the operating system and of libtorrent\<close>

record std_error_code =
  ec_value :: int
  ec_category :: qstring
  ec_message :: qstring

text \<open>The \<open>errno\<close> values of Linux that \<open>std::errc\<close> names.\<close>

definition EPERM :: int where "EPERM = 1"
definition ENOENT :: int where "ENOENT = 2"
definition EACCES :: int where "EACCES = 13"
definition ENOSPC :: int where "ENOSPC = 28"
definition ETIMEDOUT :: int where "ETIMEDOUT = 110"

definition mapErrnoToCode :: "int \<Rightarrow> error_code" where
  "mapErrnoToCode n =
     (if n = 0 then kSuccess
      else if n = ENOENT then kFileNotFound
      else if n = ENOSPC then kDiskFull
      else if n = EACCES \<or> n = EPERM then kPathPermissionDenied
      else kUnknownCode)"

definition makeDetail :: "qstring \<Rightarrow> std_error_code \<Rightarrow> qstring" where
  "makeDetail context ec =
     (if context = []
      then qarg (qarg (qs ''category=%1, code=%2'') (ec_category ec)) (qnum (ec_value ec))
      else qarg (qarg (qarg (qs ''%1 | category=%2, code=%3'') context) (ec_category ec))
                (qnum (ec_value ec)))"

definition fromStdError :: "std_error_code \<Rightarrow> qstring \<Rightarrow> err" where
  "fromStdError ec context =
     (if ec_value ec = 0 then Error0
      else mkError (mapErrnoToCode (ec_value ec)) (ec_message ec) (makeDetail context ec) dSystem
             (ec_value ec))"

definition fromErrno :: "(int \<Rightarrow> qstring) \<Rightarrow> int \<Rightarrow> qstring \<Rightarrow> err" where
  \<comment> \<open>\<open>strerr\<close> is the message table of \<open>std::generic_category\<close>\<close>
  "fromErrno strerr n context =
     (if n = 0 then Error0
      else fromStdError \<lparr>ec_value = n, ec_category = qs ''generic'', ec_message = strerr n\<rparr> context)"

datatype lt_error_hint = hGeneric | hAddTorrent | hMetadata | hStorage | hNetwork

definition makeLtDetail :: "qstring \<Rightarrow> int \<Rightarrow> qstring" where
  "makeLtDetail context rawCode =
     (if context = [] then qarg (qs ''lt_raw_code=%1'') (qnum rawCode)
      else qarg (qarg (qs ''%1 | lt_raw_code=%2'') context) (qnum rawCode))"

definition fromLibtorrentError :: "int \<Rightarrow> qstring \<Rightarrow> qstring \<Rightarrow> lt_error_hint \<Rightarrow> err" where
  "fromLibtorrentError rawCode rawMessage context hint =
     (if rawCode = 0 \<and> trimmed rawMessage = [] then Error0
      else
        let detail = makeLtDetail context rawCode;
            mk = (\<lambda>c. mkError c rawMessage detail dLibtorrent rawCode)
        in case hint of
             hAddTorrent \<Rightarrow> mk kAddTorrentFailed
           | hMetadata \<Rightarrow> mk kMetadataTimeout
           | hStorage \<Rightarrow> if rawCode = ENOSPC then mk kDiskFull else mk kFileWriteFailed
           | hNetwork \<Rightarrow> if rawCode = ETIMEDOUT then mk kMetadataTimeout else mk kUnknownCode
           | hGeneric \<Rightarrow> mk kUnknownCode)"

definition fromLibtorrentErrorCode :: "std_error_code \<Rightarrow> qstring \<Rightarrow> lt_error_hint \<Rightarrow> err" where
  "fromLibtorrentErrorCode ec context hint =
     (if ec_value ec = 0 then Error0
      else fromLibtorrentError (ec_value ec) (ec_message ec) context hint)"

section \<open>Task status, log level, time stamps\<close>

datatype task_status =
  stUnknown | stQueued | stChecking | stDownloading | stSeeding | stPaused | stFinished | stError

datatype log_level = lvDebug | lvInfo | lvWarning | lvError | lvFatal

fun level_rank :: "log_level \<Rightarrow> nat" where
  "level_rank lvDebug = 0"
| "level_rank lvInfo = 1"
| "level_rank lvWarning = 2"
| "level_rank lvError = 3"
| "level_rank lvFatal = 4"

instantiation log_level :: linorder
begin

definition less_eq_log_level :: "log_level \<Rightarrow> log_level \<Rightarrow> bool" where
  "less_eq_log_level a b \<longleftrightarrow> level_rank a \<le> level_rank b"

definition less_log_level :: "log_level \<Rightarrow> log_level \<Rightarrow> bool" where
  "less_log_level a b \<longleftrightarrow> level_rank a < level_rank b"

instance
proof
  fix a b c :: log_level
  show "a \<le> b \<Longrightarrow> b \<le> a \<Longrightarrow> a = b"
    by (cases a; cases b) (simp_all add: less_eq_log_level_def)
qed (auto simp: less_eq_log_level_def less_log_level_def)

end

fun logLevelToString :: "log_level \<Rightarrow> qstring" where
  "logLevelToString lvDebug = qs ''debug''"
| "logLevelToString lvInfo = qs ''info''"
| "logLevelToString lvWarning = qs ''warning''"
| "logLevelToString lvError = qs ''error''"
| "logLevelToString lvFatal = qs ''fatal''"

definition tryParseLogLevel :: "(qstring \<Rightarrow> qstring) \<Rightarrow> qstring \<Rightarrow> log_level option" where
  \<comment> \<open>\<open>None\<close>: the function returned false\<close>
  "tryParseLogLevel lc text =
     (let norm = lc (trimmed text) in
      if norm = qs ''debug'' then Some lvDebug
      else if norm = qs ''info'' then Some lvInfo
      else if norm = qs ''warning'' \<or> norm = qs ''warn'' then Some lvWarning
      else if norm = qs ''error'' then Some lvError
      else if norm = qs ''fatal'' then Some lvFatal
      else None)"

definition isFinished :: "task_status \<Rightarrow> bool" where
  "isFinished s \<longleftrightarrow> s = stFinished \<or> s = stSeeding"

definition isErrorStatus :: "task_status \<Rightarrow> bool" where
  "isErrorStatus s \<longleftrightarrow> s = stError"

definition invalidMs :: int where "invalidMs = - 1"

definition isValidMs :: "int \<Rightarrow> bool" where
  "isValidMs ms \<longleftrightarrow> ms \<noteq> invalidMs \<and> 0 \<le> ms"

lemma isValidMs_iff [simp]: "isValidMs ms \<longleftrightarrow> 0 \<le> ms"
  by (auto simp: isValidMs_def invalidMs_def)

section \<open>Lemmas\<close>

lemma hasError_iff [simp]: "hasError e \<longleftrightarrow> err_code e \<noteq> kSuccess"
  and isOk_iff [simp]: "isOk e \<longleftrightarrow> err_code e = kSuccess"
  and Error0_code [simp]: "err_code Error0 = kSuccess"
  and mkError_code [simp]: "err_code (mkError c m d dm r) = c"
  and Error2_code [simp]: "err_code (Error2 c m) = c"
  by (simp_all add: hasError_def isOk_def isSuccess_def Error0_def mkError_def Error2_def)

lemma toInt_inj: "toInt a = toInt b \<Longrightarrow> a = b"
  by (cases a; cases b; simp)

lemma fromInt_toInt [simp]: "fromInt (toInt c) = c"
  by (cases c) (simp_all add: fromInt_def)

lemma fromInt_range: "fromInt n = c \<Longrightarrow> c \<noteq> kUnknownCode \<Longrightarrow> toInt c = n"
  unfolding fromInt_def by (simp split: if_splits)

text \<open>
  Serialising an error code and reading it back gives the code, and every number that is not
  the number of a code reads as \<open>kUnknown\<close>; so \<open>fromInt\<close> is the inverse of \<open>toInt\<close> on the
  codes and total on the 32-bit numbers.
\<close>

theorem error_code_roundtrip:
  "fromInt (toInt c) = c \<and>
   (toInt (fromInt n) = n \<or> (fromInt n = kUnknownCode \<and> 20 < n))"
proof
  show "fromInt (toInt c) = c" by simp
next
  show "toInt (fromInt n) = n \<or> (fromInt n = kUnknownCode \<and> 20 < n)"
  proof (cases "fromInt n = kUnknownCode")
    case False
    then show ?thesis using fromInt_range [of n "fromInt n"] by simp
  next
    case True
    have "n = 20 \<or> 20 < n"
    proof (rule ccontr)
      assume "\<not> (n = 20 \<or> 20 < n)"
      then have "n < 20" by auto
      then have "unat n < 20" by (simp add: word_less_nat_alt)
      then have "unat n \<in> set [0..<20]" by simp
      then have "n \<in> set (map of_nat [0..<20])"
        by (metis imageI list.set_map of_nat_unat ucast_id)
      then have "fromInt n \<noteq> kUnknownCode"
        by (auto simp: upt_conv_Cons fromInt_def)
      with True show False by simp
    qed
    with True show ?thesis by auto
  qed
qed

text \<open>
  The conversion of a libtorrent error never hides a failure: it returns a success value
  exactly when the code is 0 and the message is blank, and every error it returns carries the
  domain \<open>kLibtorrent\<close>, the message and the raw code it was given.
\<close>

theorem libtorrent_error_faithful:
  "(isOk (fromLibtorrentError rawCode msg ctx hint) \<longleftrightarrow> rawCode = 0 \<and> trimmed msg = []) \<and>
   (hasError (fromLibtorrentError rawCode msg ctx hint) \<longrightarrow>
      err_domain (fromLibtorrentError rawCode msg ctx hint) = dLibtorrent \<and>
      err_message (fromLibtorrentError rawCode msg ctx hint) = msg \<and>
      err_raw (fromLibtorrentError rawCode msg ctx hint) = rawCode)"
  by (auto simp: fromLibtorrentError_def Let_def mkError_def Error0_def split: lt_error_hint.splits)

theorem libtorrent_error_faithful_witness:
  "hasError (fromLibtorrentError 28 (qs ''full'') [] hStorage) \<and>
   err_code (fromLibtorrentError 28 (qs ''full'') [] hStorage) = kDiskFull \<and>
   err_domain (fromLibtorrentError 28 (qs ''full'') [] hStorage) = dLibtorrent"
proof -
  have code: "err_code (fromLibtorrentError 28 (qs ''full'') [] hStorage) = kDiskFull"
    by (simp add: fromLibtorrentError_def Let_def ENOSPC_def)
  then have "hasError (fromLibtorrentError 28 (qs ''full'') [] hStorage)" by simp
  then show ?thesis
    using code libtorrent_error_faithful [of 28 "qs ''full''" "[]" hStorage] by blast
qed

end
