(* ===== verification/TaskIds.thy ===== *)
theory TaskIds
  imports Prelude
begin

text \<open>
  Task identifiers: \<open>base::TaskId\<close> (a \<open>QUuid\<close>, here its 16 bytes in RFC 4122 order) and
  \<open>lt/session_ids.h\<close>, which derives the identifier of a torrent from its info-hashes and the text
  key under which the session layer files it. SHA-1 and the text libtorrent prints for an
  info-hash are arguments.
\<close>

type_synonym task_id = bytes

definition null_id :: task_id where
  "null_id = replicate 16 0"

definition isNull :: "task_id \<Rightarrow> bool" where
  "isNull i \<longleftrightarrow> i = null_id"

text \<open>An identifier for examples.\<close>

definition uid :: "byte \<Rightarrow> task_id" where
  "uid n = replicate 15 0 @ [n]"

lemma uid_inj [simp]: "uid a = uid b \<longleftrightarrow> a = b"
  by (simp add: uid_def)

lemma length_uid [simp]: "length (uid n) = 16" "length null_id = 16"
  by (simp_all add: uid_def null_id_def)

lemma uid_null [simp]: "uid n = null_id \<longleftrightarrow> n = 0"
proof -
  have "null_id = uid 0" by (simp add: uid_def null_id_def numeral_eq_Suc)
  then show ?thesis by (metis uid_inj)
qed

section \<open>The text key\<close>

definition hex_digit :: "byte \<Rightarrow> qchar" where
  "hex_digit d = (if d < 10 then ucast d + 0x30 else ucast d + 0x57)"

definition hex2 :: "byte \<Rightarrow> qstring" where
  "hex2 b = [hex_digit (drop_bit 4 b), hex_digit (b AND 15)]"

definition hex_bytes :: "bytes \<Rightarrow> qstring" where
  "hex_bytes b = concat (map hex2 b)"

definition taskIdKey :: "task_id \<Rightarrow> qstring" where
  \<comment> \<open>\<open>toString(QUuid::WithoutBraces)\<close>: five groups of hexadecimal digits\<close>
  "taskIdKey i =
     hex_bytes (take 4 i) @ [0x2D] @ hex_bytes (take 2 (drop 4 i)) @ [0x2D] @
     hex_bytes (take 2 (drop 6 i)) @ [0x2D] @ hex_bytes (take 2 (drop 8 i)) @ [0x2D] @
     hex_bytes (drop 10 i)"

lemma hex_digit_inj:
  assumes "a < 16" and "b < 16" and "hex_digit a = hex_digit b"
  shows "a = b"
proof -
  have "unat a < 16" and "unat b < 16" using assms(1,2) by (simp_all add: word_less_nat_alt)
  then have m: "a \<in> set (map of_nat [0..<16])" "b \<in> set (map of_nat [0..<16])"
    by (metis atLeastLessThan_iff imageI list.set_map of_nat_unat set_upt ucast_id zero_le)+
  from m assms(3) show ?thesis
    by (simp add: upt_conv_Cons hex_digit_def) (elim disjE; simp)
qed

lemma nibbles_inj:
  assumes "drop_bit 4 a = drop_bit 4 b" and "a AND 15 = b AND 15"
  shows "a = (b :: byte)"
proof -
  have "(15::byte) = mask 4" by (simp add: mask_eq_exp_minus_1)
  with assms(2) have "take_bit 4 a = take_bit 4 b" by (simp add: take_bit_eq_mask)
  with assms(1) show ?thesis by (metis bits_ident)
qed

lemma hex2_inj: "hex2 a = hex2 b \<Longrightarrow> a = b"
proof -
  assume h: "hex2 a = hex2 b"
  from h have "drop_bit 4 a = drop_bit 4 b" and "a AND 15 = b AND 15"
    by (auto simp: hex2_def intro: hex_digit_inj high_nibble low_nibble)
  then show ?thesis by (rule nibbles_inj)
qed

lemma length_hex_bytes [simp]: "length (hex_bytes b) = 2 * length b"
  by (induction b) (auto simp: hex_bytes_def hex2_def)

lemma hex_bytes_inj: "hex_bytes a = hex_bytes b \<Longrightarrow> a = b"
proof (induction a arbitrary: b)
  case Nil
  then show ?case by (cases b) (auto simp: hex_bytes_def hex2_def)
next
  case (Cons x a)
  then obtain y b' where b: "b = y # b'" by (cases b) (auto simp: hex_bytes_def hex2_def)
  with Cons.prems have "hex2 x @ hex_bytes a = hex2 y @ hex_bytes b'"
    by (simp add: hex_bytes_def)
  then have "hex2 x = hex2 y" and "hex_bytes a = hex_bytes b'"
    by (simp_all add: hex2_def)
  with Cons.IH b show ?case by (simp add: hex2_inj)
qed

lemma taskIdKey_inj:
  assumes "taskIdKey a = taskIdKey b" and "length a = 16" and "length b = 16"
  shows "a = b"
proof -
  from assms have
    "hex_bytes (take 4 a) = hex_bytes (take 4 b)"
    "hex_bytes (take 2 (drop 4 a)) = hex_bytes (take 2 (drop 4 b))"
    "hex_bytes (take 2 (drop 6 a)) = hex_bytes (take 2 (drop 6 b))"
    "hex_bytes (take 2 (drop 8 a)) = hex_bytes (take 2 (drop 8 b))"
    "hex_bytes (drop 10 a) = hex_bytes (drop 10 b)"
    by (simp_all add: taskIdKey_def append_eq_append_conv)
  then have e: "take 4 a = take 4 b" "take 2 (drop 4 a) = take 2 (drop 4 b)"
    "take 2 (drop 6 a) = take 2 (drop 6 b)" "take 2 (drop 8 a) = take 2 (drop 8 b)"
    "drop 10 a = drop 10 b"
    by (simp_all add: hex_bytes_inj)
  have split: "x = take 4 x @ take 2 (drop 4 x) @ take 2 (drop 6 x) @ take 2 (drop 8 x) @ drop 10 x"
    for x :: bytes
  proof -
    have d: "drop n x = take 2 (drop n x) @ drop (n + 2) x" for n
      using append_take_drop_id [of 2 "drop n x"] by (simp add: add.commute)
    show ?thesis
      using append_take_drop_id [of 4 x] d [of 4] d [of 6] d [of 8] by simp
  qed
  show ?thesis
    using split [of a] split [of b] e by metis
qed

section \<open>Identifier of a torrent\<close>

definition uuid_of_hash :: "bytes \<Rightarrow> bytes" where
  \<comment> \<open>the first 16 bytes of the digest, with the version and variant bits of RFC 4122\<close>
  "uuid_of_hash h =
     (let n = min 16 (length h);
          u = take n h @ replicate (16 - n) 0;
          u1 = u[6 := (u ! 6 AND 0x0F) OR 0x50]
      in u1[8 := (u1 ! 8 AND 0x3F) OR 0x80])"

record info_hash =
  ih_text :: bytes              \<comment> \<open>what \<open>oss << infoHashes\<close> prints\<close>
  ih_v1 :: "qstring option"     \<comment> \<open>the printed SHA-1 hash, if the torrent has one\<close>
  ih_v2 :: "qstring option"     \<comment> \<open>the printed SHA-256 hash, if the torrent has one\<close>

definition taskIdFromInfoHashes :: "(bytes \<Rightarrow> bytes) \<Rightarrow> info_hash \<Rightarrow> task_id" where
  "taskIdFromInfoHashes sha1 ih = uuid_of_hash (sha1 (bs ''ih|'' @ ih_text ih))"

lemma length_uuid_of_hash [simp]: "length (uuid_of_hash h) = 16"
  by (simp add: uuid_of_hash_def Let_def)

lemma or_0x80_nonzero: "(x AND 0x3F) OR 0x80 \<noteq> (0 :: byte)"
proof
  assume "(x AND 0x3F) OR 0x80 = (0 :: byte)"
  then have "bit ((x AND 0x3F) OR 0x80 :: byte) 7 = bit (0 :: byte) 7" by simp
  then show False by (simp add: bit_or_iff)
qed

lemma uuid_of_hash_not_null: "\<not> isNull (uuid_of_hash h)"
proof
  assume "isNull (uuid_of_hash h)"
  then have "uuid_of_hash h ! 8 = 0" by (simp add: isNull_def null_id_def)
  moreover have "\<exists>x. uuid_of_hash h ! 8 = (x AND 0x3F) OR 0x80"
    by (auto simp: uuid_of_hash_def Let_def)
  ultimately show False using or_0x80_nonzero by metis
qed

lemma taskIdFromInfoHashes_props [simp]:
  "length (taskIdFromInfoHashes sha1 ih) = 16"
  "\<not> isNull (taskIdFromInfoHashes sha1 ih)"
  by (simp_all add: taskIdFromInfoHashes_def uuid_of_hash_not_null)

text \<open>
  The key under which the session layer files a task determines the task: on identifiers of
  16 bytes, two equal keys come from the same identifier. So the maps keyed by text (handles,
  limits, pending options, status locks) are maps keyed by task.
\<close>

theorem task_key_injective:
  assumes "length a = 16" and "length b = 16"
  shows "taskIdKey a = taskIdKey b \<longleftrightarrow> a = b"
  using taskIdKey_inj assms by blast

theorem task_key_injective_witness:
  "taskIdKey (uid 1) \<noteq> taskIdKey (uid 2)"
  using task_key_injective [of "uid 1" "uid 2"] by simp

end
