(* ===== verification/TaskPipeline.thy ===== *)
theory TaskPipeline
  imports Errors Interfaces TaskIds Complex_Main
begin

text \<open>
  The core data path of the program: \<open>core/task_event.h\<close>, \<open>core/task_snapshot.{h,cc}\<close>,
  \<open>core/task_state_store.{h,cc}\<close>, \<open>core/task_pipeline.{h,cc}\<close> and
  \<open>core/task_pipeline_service.{h,cc}\<close>. Events produced by the libtorrent layer are folded into
  one snapshot per task. The store (\<open>std::unordered_map\<close>) is an association list; its mutex
  makes each call atomic, so a run of the service is a sequence of calls. The wall clock is read
  twice in \<open>applyEvent\<close>, once when the task is new and once at the end: the two readings are the
  pair that comes with the event. Fields of \<open>TaskEvent\<close> are prefixed \<open>e_\<close>, those of
  \<open>TaskSnapshot\<close> \<open>s_\<close>; \<open>double\<close> fields are reals.
\<close>

section \<open>Events and snapshots\<close>

datatype task_event_type =
    kUpsertMeta | kStatusChanged | kProgressUpdated | kRateUpdated | kErrorOccurred
  | kDuplicateRejected | kRemoved

record task_event =
  e_type :: task_event_type
  e_taskId :: task_id
  e_status :: task_status
  e_name :: qstring
  e_savePath :: qstring
  e_errorMessage :: qstring
  e_infoHashV1 :: qstring
  e_infoHashV2 :: qstring
  e_comment :: qstring
  e_totalBytes :: int
  e_selectedBytes :: int
  e_downloadedBytes :: int
  e_uploadedBytes :: int
  e_downloadRate :: int
  e_uploadRate :: int
  e_seeders :: int
  e_users :: int
  e_availability :: real
  e_category :: qstring
  e_tags :: qstring
  e_eventMs :: int
  e_activeTimeSec :: int
  e_dlLimitBps :: int
  e_ulLimitBps :: int
  e_wastedBytes :: int
  e_nextAnnounceSec :: int
  e_lastSeenCompleteMs :: int
  e_pieces :: int
  e_pieceLength :: int
  e_createdBy :: qstring
  e_createdOnMs :: int
  e_completedOnMs :: int
  e_isPrivate :: int

definition default_event :: task_event where
  "default_event =
     \<lparr>e_type = kUpsertMeta, e_taskId = null_id, e_status = stUnknown, e_name = [], e_savePath = [],
      e_errorMessage = [], e_infoHashV1 = [], e_infoHashV2 = [], e_comment = [],
      e_totalBytes = - 1, e_selectedBytes = - 1, e_downloadedBytes = - 1, e_uploadedBytes = - 1,
      e_downloadRate = - 1, e_uploadRate = - 1, e_seeders = - 1, e_users = - 1,
      e_availability = - 1, e_category = [], e_tags = [], e_eventMs = invalidMs,
      e_activeTimeSec = - 1, e_dlLimitBps = - 1, e_ulLimitBps = - 1, e_wastedBytes = - 1,
      e_nextAnnounceSec = - 1, e_lastSeenCompleteMs = - 1, e_pieces = - 1, e_pieceLength = - 1,
      e_createdBy = [], e_createdOnMs = - 1, e_completedOnMs = - 1, e_isPrivate = - 1\<rparr>"

record task_snapshot =
  s_taskId :: task_id
  s_status :: task_status
  s_name :: qstring
  s_savePath :: qstring
  s_errorMessage :: qstring
  s_category :: qstring
  s_tags :: qstring
  s_infoHashV1 :: qstring
  s_infoHashV2 :: qstring
  s_comment :: qstring
  s_totalBytes :: int
  s_selectedBytes :: int
  s_downloadedBytes :: int
  s_uploadedBytes :: int
  s_downloadRate :: int
  s_uploadRate :: int
  s_seeders :: int
  s_users :: int
  s_availability :: real
  s_addedAtMs :: int
  s_activeTimeSec :: int
  s_dlLimitBps :: int
  s_ulLimitBps :: int
  s_wastedBytes :: int
  s_nextAnnounceSec :: int
  s_lastSeenCompleteMs :: int
  s_pieces :: int
  s_pieceLength :: int
  s_createdBy :: qstring
  s_createdOnMs :: int
  s_completedOnMs :: int
  s_isPrivate :: int
  s_lastUpdatedMs :: int

definition default_snapshot :: task_snapshot where
  "default_snapshot =
     \<lparr>s_taskId = null_id, s_status = stUnknown, s_name = [], s_savePath = [], s_errorMessage = [],
      s_category = [], s_tags = [], s_infoHashV1 = [], s_infoHashV2 = [], s_comment = [],
      s_totalBytes = 0, s_selectedBytes = 0, s_downloadedBytes = 0, s_uploadedBytes = 0,
      s_downloadRate = 0, s_uploadRate = 0, s_seeders = 0, s_users = 0, s_availability = 0,
      s_addedAtMs = invalidMs, s_activeTimeSec = 0, s_dlLimitBps = 0, s_ulLimitBps = 0,
      s_wastedBytes = 0, s_nextAnnounceSec = - 1, s_lastSeenCompleteMs = invalidMs,
      s_pieces = 0, s_pieceLength = 0, s_createdBy = [], s_createdOnMs = invalidMs,
      s_completedOnMs = invalidMs, s_isPrivate = - 1, s_lastUpdatedMs = invalidMs\<rparr>"

definition progress01 :: "task_snapshot \<Rightarrow> real" where
  "progress01 s =
     (if s_totalBytes s \<le> 0 then 0
      else
        let p = of_int (s_downloadedBytes s) / of_int (s_totalBytes s)
        in if p < 0 then 0 else if p > 1 then 1 else p)"

section \<open>applyEvent\<close>

type_synonym clock = "int \<times> int"  \<comment> \<open>the readings at insertion and at the end of the call\<close>
type_synonym store = "(task_id \<times> task_snapshot) list"

definition pickEventTimeOrNow :: "int \<Rightarrow> int \<Rightarrow> int" where
  "pickEventTimeOrNow now eventMs = (if isValidMs eventMs then eventMs else now)"

text \<open>\<open>if (!event.x.isEmpty()) s.x = event.x\<close> and \<open>if (event.x >= 0) s.x = event.x\<close>.\<close>

definition str_or :: "qstring \<Rightarrow> qstring \<Rightarrow> qstring" where
  "str_or new old = (if new \<noteq> [] then new else old)"

definition num_or :: "'n::{zero,ord} \<Rightarrow> 'n \<Rightarrow> 'n" where
  "num_or new old = (if 0 \<le> new then new else old)"

definition apply_upsert_meta :: "task_event \<Rightarrow> task_snapshot \<Rightarrow> task_snapshot" where
  "apply_upsert_meta e s = s\<lparr>
     s_name := str_or (e_name e) (s_name s),
     s_savePath := str_or (e_savePath e) (s_savePath s),
     s_category := str_or (e_category e) (s_category s),
     s_tags := str_or (e_tags e) (s_tags s),
     s_infoHashV1 := str_or (e_infoHashV1 e) (s_infoHashV1 s),
     s_infoHashV2 := str_or (e_infoHashV2 e) (s_infoHashV2 s),
     s_comment := str_or (e_comment e) (s_comment s),
     s_totalBytes := num_or (e_totalBytes e) (s_totalBytes s),
     s_selectedBytes := num_or (e_selectedBytes e) (s_selectedBytes s),
     s_pieces := num_or (e_pieces e) (s_pieces s),
     s_pieceLength := num_or (e_pieceLength e) (s_pieceLength s),
     s_createdBy := str_or (e_createdBy e) (s_createdBy s),
     s_createdOnMs := num_or (e_createdOnMs e) (s_createdOnMs s),
     s_isPrivate := num_or (e_isPrivate e) (s_isPrivate s)\<rparr>"

definition apply_status_changed :: "task_event \<Rightarrow> task_snapshot \<Rightarrow> task_snapshot" where
  "apply_status_changed e s = s\<lparr>
     s_status := e_status e,
     s_errorMessage := str_or (e_errorMessage e) (s_errorMessage s)\<rparr>"

definition apply_progress :: "task_event \<Rightarrow> task_snapshot \<Rightarrow> task_snapshot" where
  "apply_progress e s = s\<lparr>
     s_name := str_or (e_name e) (s_name s),
     s_status := (if e_status e \<noteq> stUnknown then e_status e else s_status s),
     s_totalBytes := num_or (e_totalBytes e) (s_totalBytes s),
     s_selectedBytes := num_or (e_selectedBytes e) (s_selectedBytes s),
     s_downloadedBytes := num_or (e_downloadedBytes e) (s_downloadedBytes s),
     s_uploadedBytes := num_or (e_uploadedBytes e) (s_uploadedBytes s),
     s_downloadRate := num_or (e_downloadRate e) (s_downloadRate s),
     s_uploadRate := num_or (e_uploadRate e) (s_uploadRate s),
     s_seeders := num_or (e_seeders e) (s_seeders s),
     s_users := num_or (e_users e) (s_users s),
     s_availability := num_or (e_availability e) (s_availability s),
     s_category := str_or (e_category e) (s_category s),
     s_tags := str_or (e_tags e) (s_tags s),
     s_infoHashV1 := str_or (e_infoHashV1 e) (s_infoHashV1 s),
     s_infoHashV2 := str_or (e_infoHashV2 e) (s_infoHashV2 s),
     s_activeTimeSec := num_or (e_activeTimeSec e) (s_activeTimeSec s),
     s_dlLimitBps := num_or (e_dlLimitBps e) (s_dlLimitBps s),
     s_ulLimitBps := num_or (e_ulLimitBps e) (s_ulLimitBps s),
     s_wastedBytes := num_or (e_wastedBytes e) (s_wastedBytes s),
     s_nextAnnounceSec := num_or (e_nextAnnounceSec e) (s_nextAnnounceSec s),
     s_lastSeenCompleteMs := num_or (e_lastSeenCompleteMs e) (s_lastSeenCompleteMs s),
     s_pieces := num_or (e_pieces e) (s_pieces s),
     s_pieceLength := num_or (e_pieceLength e) (s_pieceLength s),
     s_createdBy := str_or (e_createdBy e) (s_createdBy s),
     s_createdOnMs := num_or (e_createdOnMs e) (s_createdOnMs s),
     s_completedOnMs := num_or (e_completedOnMs e) (s_completedOnMs s),
     s_isPrivate := num_or (e_isPrivate e) (s_isPrivate s)\<rparr>"

definition apply_rate :: "task_event \<Rightarrow> task_snapshot \<Rightarrow> task_snapshot" where
  "apply_rate e s = s\<lparr>
     s_downloadRate := num_or (e_downloadRate e) (s_downloadRate s),
     s_uploadRate := num_or (e_uploadRate e) (s_uploadRate s)\<rparr>"

definition apply_error :: "task_event \<Rightarrow> task_snapshot \<Rightarrow> task_snapshot" where
  "apply_error e s = s\<lparr>s_status := stError, s_errorMessage := e_errorMessage e\<rparr>"

definition apply_payload :: "task_event \<Rightarrow> task_snapshot \<Rightarrow> task_snapshot" where
  \<comment> \<open>the switch over the event type\<close>
  "apply_payload e s =
     (case e_type e of
        kUpsertMeta \<Rightarrow> apply_upsert_meta e s
      | kStatusChanged \<Rightarrow> apply_status_changed e s
      | kProgressUpdated \<Rightarrow> apply_progress e s
      | kRateUpdated \<Rightarrow> apply_rate e s
      | kErrorOccurred \<Rightarrow> apply_error e s
      | kDuplicateRejected \<Rightarrow> s
      | kRemoved \<Rightarrow> s)"

definition applyEvent :: "clock \<Rightarrow> task_event \<Rightarrow> store \<Rightarrow> store" where
  "applyEvent clk e st =
     (if e_type e = kDuplicateRejected then st
      else if e_type e = kRemoved then AList.delete (e_taskId e) st
      else
        let s0 = (case map_of st (e_taskId e) of
                    Some s \<Rightarrow> s
                  | None \<Rightarrow> default_snapshot\<lparr>s_taskId := e_taskId e,
                      s_addedAtMs := pickEventTimeOrNow (fst clk) (e_eventMs e)\<rparr>);
            s1 = (apply_payload e s0)\<lparr>s_lastUpdatedMs := pickEventTimeOrNow (snd clk) (e_eventMs e)\<rparr>
        in AList.update (e_taskId e) s1 st)"

definition snapshot :: "store \<Rightarrow> task_id \<Rightarrow> task_snapshot option" where
  "snapshot st i = map_of st i"

definition snapshots :: "store \<Rightarrow> task_snapshot list" where
  "snapshots st = map snd st"

section \<open>TaskPipeline and TaskPipelineService\<close>

text \<open>
  \<open>TaskPipeline\<close> and its mutex-protected wrapper forward to the store; their log lines are not
  modelled. A batch is applied event by event.
\<close>

definition consume :: "clock \<Rightarrow> task_event \<Rightarrow> store \<Rightarrow> store" where
  "consume clk e st = applyEvent clk e st"

fun consumeBatch :: "(clock \<times> task_event) list \<Rightarrow> store \<Rightarrow> store" where
  "consumeBatch [] st = st"
| "consumeBatch ((clk, e) # es) st = consumeBatch es (applyEvent clk e st)"

definition service_consume :: "clock \<Rightarrow> task_event \<Rightarrow> store \<Rightarrow> store" where
  "service_consume clk e st = consume clk e st"

definition service_consumeBatch :: "(clock \<times> task_event) list \<Rightarrow> store \<Rightarrow> store" where
  "service_consumeBatch es st = consumeBatch es st"

definition service_snapshot :: "store \<Rightarrow> task_id \<Rightarrow> task_snapshot option" where
  "service_snapshot st i = snapshot st i"

definition service_snapshots :: "store \<Rightarrow> task_snapshot list" where
  "service_snapshots st = snapshots st"

section \<open>What the store promises\<close>

text \<open>
  The specification of one task: what an event does to its snapshot, with no store in sight. The
  store refines one such machine per task.
\<close>

fun task_step :: "clock \<times> task_event \<Rightarrow> task_snapshot option \<Rightarrow> task_snapshot option" where
  "task_step (clk, e) o' =
     (case e_type e of
        kDuplicateRejected \<Rightarrow> o'
      | kRemoved \<Rightarrow> None
      | _ \<Rightarrow>
          Some ((apply_payload e
                   (case o' of
                      Some s \<Rightarrow> s
                    | None \<Rightarrow> default_snapshot\<lparr>s_taskId := e_taskId e,
                        s_addedAtMs := pickEventTimeOrNow (fst clk) (e_eventMs e)\<rparr>))
                \<lparr>s_lastUpdatedMs := pickEventTimeOrNow (snd clk) (e_eventMs e)\<rparr>))"

definition store_step :: "clock \<times> task_event \<Rightarrow> store \<Rightarrow> store" where
  "store_step ce st = applyEvent (fst ce) (snd ce) st"

definition event_key :: "clock \<times> task_event \<Rightarrow> task_id" where
  "event_key ce = e_taskId (snd ce)"

lemma consumeBatch_fold: "consumeBatch es st = fold store_step es st"
  by (induction es st rule: consumeBatch.induct) (auto simp: store_step_def)

lemma snapshot_store_step:
  "snapshot (store_step ce st) k =
     (if k = event_key ce then task_step ce (snapshot st k) else snapshot st k)"
  by (cases ce; cases "e_type (snd ce)")
     (auto simp: store_step_def applyEvent_def snapshot_def event_key_def Let_def
        update_conv delete_conv split: option.splits)

interpretation task_store: keyed_machine snapshot store_step event_key task_step
  by unfold_locales (rule snapshot_store_step)

text \<open>What every stored snapshot satisfies: it carries its own key, no counter is negative.\<close>

definition snapshot_ok :: "task_id \<Rightarrow> task_snapshot \<Rightarrow> bool" where
  "snapshot_ok i s \<longleftrightarrow>
     s_taskId s = i \<and> 0 \<le> s_totalBytes s \<and> 0 \<le> s_selectedBytes s \<and> 0 \<le> s_downloadedBytes s \<and>
     0 \<le> s_uploadedBytes s \<and> 0 \<le> s_downloadRate s \<and> 0 \<le> s_uploadRate s \<and> 0 \<le> s_seeders s \<and>
     0 \<le> s_users s \<and> 0 \<le> s_availability s \<and> 0 \<le> s_pieces s \<and> 0 \<le> s_pieceLength s \<and>
     0 \<le> s_activeTimeSec s \<and> 0 \<le> s_wastedBytes s \<and> isValidMs (s_addedAtMs s) \<and>
     isValidMs (s_lastUpdatedMs s)"

definition clock_ok :: "clock \<times> task_event \<Rightarrow> bool" where
  "clock_ok ce \<longleftrightarrow> 0 \<le> fst (fst ce) \<and> 0 \<le> snd (fst ce)"

lemma num_or_nonneg [simp]: "0 \<le> (old :: 'n::{zero,linorder}) \<Longrightarrow> 0 \<le> num_or new old"
  by (simp add: num_or_def)

lemmas payload_defs = apply_payload_def apply_upsert_meta_def apply_status_changed_def
  apply_progress_def apply_rate_def apply_error_def

lemma apply_payload_frame [simp]:
  "s_taskId (apply_payload e s) = s_taskId s"
  "s_addedAtMs (apply_payload e s) = s_addedAtMs s"
  "s_lastUpdatedMs (apply_payload e s) = s_lastUpdatedMs s"
  by (cases "e_type e"; simp add: payload_defs)+

lemma apply_payload_ok:
  assumes "snapshot_ok i s" and "0 \<le> t"
  shows "snapshot_ok i ((apply_payload e s)\<lparr>s_lastUpdatedMs := t\<rparr>)"
  using assms
  by (cases "e_type e") (simp_all add: snapshot_ok_def payload_defs)

lemma fresh_snapshot_ok:
  "0 \<le> t \<Longrightarrow> 0 \<le> u \<Longrightarrow>
   snapshot_ok i (default_snapshot\<lparr>s_taskId := i, s_addedAtMs := t, s_lastUpdatedMs := u\<rparr>)"
  by (simp add: snapshot_ok_def default_snapshot_def)

lemma pick_nonneg [simp]: "0 \<le> now \<Longrightarrow> 0 \<le> pickEventTimeOrNow now t"
  by (simp add: pickEventTimeOrNow_def)

lemma task_step_ok:
  assumes c: "clock_ok ce" and o: "\<And>v. o' = Some v \<Longrightarrow> snapshot_ok (event_key ce) v"
    and st: "task_step ce o' = Some w"
  shows "snapshot_ok (event_key ce) w"
proof -
  obtain clk e where ce: "ce = (clk, e)" by (cases ce)
  let ?u = "pickEventTimeOrNow (snd clk) (e_eventMs e)"
  let ?s0 = "case o' of Some s \<Rightarrow> s | None \<Rightarrow> default_snapshot\<lparr>s_taskId := e_taskId e,
                        s_addedAtMs := pickEventTimeOrNow (fst clk) (e_eventMs e)\<rparr>"
  have u: "0 \<le> ?u" using c by (simp add: ce clock_ok_def)
  show ?thesis
  proof (cases "e_type e = kDuplicateRejected")
    case True
    with st ce o show ?thesis by simp
  next
    case nd: False
    with st ce have w: "w = (apply_payload e ?s0)\<lparr>s_lastUpdatedMs := ?u\<rparr>"
      by (cases "e_type e") auto
    show ?thesis
    proof (cases o')
      case (Some s)
      with o [OF Some] u show ?thesis unfolding w by (simp add: apply_payload_ok)
    next
      case None
      let ?f = "default_snapshot\<lparr>s_taskId := e_taskId e,
                  s_addedAtMs := pickEventTimeOrNow (fst clk) (e_eventMs e), s_lastUpdatedMs := 0\<rparr>"
      have "snapshot_ok (event_key ce) ?f"
        using c fresh_snapshot_ok [of "pickEventTimeOrNow (fst clk) (e_eventMs e)" 0 "e_taskId e"]
        by (simp add: ce clock_ok_def event_key_def)
      then have "snapshot_ok (event_key ce) ((apply_payload e ?f)\<lparr>s_lastUpdatedMs := ?u\<rparr>)"
        using u by (rule apply_payload_ok)
      moreover have "(apply_payload e ?f)\<lparr>s_lastUpdatedMs := ?u\<rparr> = w"
        unfolding w None by (cases "e_type e") (simp_all add: payload_defs)
      ultimately show ?thesis by simp
    qed
  qed
qed

interpretation task_store_inv:
  keyed_machine_inv snapshot store_step event_key task_step snapshot_ok clock_ok
  by unfold_locales (rule task_step_ok)

lemma keys_consumeBatch: "distinct (map fst st) \<Longrightarrow> distinct (map fst (consumeBatch es st))"
  by (induction es st rule: consumeBatch.induct)
     (auto simp: applyEvent_def Let_def distinct_update distinct_delete)

section \<open>Properties\<close>

text \<open>Concrete events for the witnesses.\<close>

definition ev_added :: "task_id \<Rightarrow> task_event" where
  "ev_added i = default_event\<lparr>e_taskId := i, e_name := qs ''a'', e_eventMs := 5\<rparr>"

definition ev_removed :: "task_id \<Rightarrow> task_event" where
  "ev_removed i = default_event\<lparr>e_type := kRemoved, e_taskId := i\<rparr>"

text \<open>
  C4. The store is one state machine per task: the snapshot of a task after a batch is the fold of
  the one-task specification over the events of that task, in order, from its snapshot before the
  batch. Events of other tasks have no part in it.
\<close>

theorem batch_refines_task_machine:
  "service_snapshot (service_consumeBatch es st) i =
     fold task_step (filter (\<lambda>ce. e_taskId (snd ce) = i) es) (service_snapshot st i)"
  using task_store.look_run [of es st i]
  by (simp add: service_snapshot_def service_consumeBatch_def consumeBatch_fold event_key_def)

text \<open>
  However the events of different tasks are interleaved by the alert thread, every task ends
  with the same snapshot: two batches with the same events per task are indistinguishable.
\<close>

theorem batch_interleaving_irrelevant:
  assumes "\<And>i. filter (\<lambda>ce. e_taskId (snd ce) = i) es = filter (\<lambda>ce. e_taskId (snd ce) = i) es'"
  shows "service_snapshot (service_consumeBatch es st) = service_snapshot (service_consumeBatch es' st)"
  by (rule ext)
     (simp add: service_snapshot_def service_consumeBatch_def consumeBatch_fold
        task_store.look_run [unfolded event_key_def] assms)

theorem batch_interleaving_irrelevant_witness:
  "service_snapshot (service_consumeBatch [((0, 0), ev_added (uid 1)), ((0, 0), ev_added (uid 2))] []) =
   service_snapshot (service_consumeBatch [((0, 0), ev_added (uid 2)), ((0, 0), ev_added (uid 1))] [])"
  by (rule batch_interleaving_irrelevant) (simp add: ev_added_def)

text \<open>
  A removal leaves nothing behind: after a \<open>kRemoved\<close> event the snapshot of the task depends
  only on the events after it, as if the task had never been known; with none, it is gone.
\<close>

theorem removed_resets:
  assumes "e_type r = kRemoved" and "e_taskId r = i"
  shows "service_snapshot (service_consumeBatch (es @ (clk, r) # es') st) i =
           service_snapshot (service_consumeBatch es' []) i"
proof -
  have k: "event_key (clk, r) = i" using assms(2) by (simp add: event_key_def)
  have v: "task_step (clk, r) v = None" for v using assms(1) by simp
  have "snapshot (fold store_step (es @ (clk, r) # es') st) i =
          fold task_step (filter (\<lambda>e. event_key e = i) es') None"
    by (rule task_store.look_run_after_reset [where r = "(clk, r)", OF k v])
  also have "\<dots> = snapshot (fold store_step es' []) i"
    using task_store.look_run [of es' "[]" i] by (simp add: snapshot_def)
  finally show ?thesis
    by (simp add: service_snapshot_def service_consumeBatch_def consumeBatch_fold)
qed

theorem removed_resets_witness:
  "e_type (ev_removed (uid 1)) = kRemoved \<and>
   service_snapshot (service_consumeBatch ([((0, 0), ev_added (uid 1))] @ ((0, 0), ev_removed (uid 1)) # []) []) (uid 1)
     = None"
proof -
  have h: "e_type (ev_removed (uid 1)) = kRemoved" "e_taskId (ev_removed (uid 1)) = uid 1"
    by (simp_all add: ev_removed_def)
  show ?thesis
    using h removed_resets [OF h, of "[((0, 0), ev_added (uid 1))]" "(0, 0)" "[]" "[]"]
    by (simp add: service_consumeBatch_def service_snapshot_def snapshot_def)
qed

text \<open>
  Every snapshot the store ever holds is well formed: filed under its own task id, no counter
  negative, its time stamps valid, the keys of the table distinct. The only assumption is that the
  clock reads non-negative times.
\<close>

theorem reachable_snapshots_ok:
  assumes "\<forall>ce \<in> set es. clock_ok ce"
  shows "distinct (map fst (service_consumeBatch es [])) \<and>
         (\<forall>s. service_snapshot (service_consumeBatch es []) i = Some s \<longrightarrow> snapshot_ok i s)"
proof (intro conjI allI impI)
  show "distinct (map fst (service_consumeBatch es []))"
    by (simp add: service_consumeBatch_def keys_consumeBatch)
next
  fix s
  assume "service_snapshot (service_consumeBatch es []) i = Some s"
  then have l: "snapshot (fold store_step es []) i = Some s"
    by (simp add: service_snapshot_def service_consumeBatch_def consumeBatch_fold)
  show "snapshot_ok i s"
    by (rule task_store_inv.run_ok [OF assms _ l]) (simp add: snapshot_def)
qed

theorem reachable_snapshots_ok_witness:
  "\<exists>s. service_snapshot (service_consumeBatch [((0, 0), ev_added (uid 1))] []) (uid 1) = Some s \<and>
       s_name s = qs ''a'' \<and> snapshot_ok (uid 1) s"
proof -
  have h: "\<forall>ce \<in> set [((0, 0), ev_added (uid 1))]. clock_ok ce" by (simp add: clock_ok_def)
  have "\<exists>s. service_snapshot (service_consumeBatch [((0, 0), ev_added (uid 1))] []) (uid 1) = Some s \<and>
            s_name s = qs ''a''"
    by (simp add: service_snapshot_def service_consumeBatch_def snapshot_def applyEvent_def
          Let_def ev_added_def default_event_def payload_defs str_or_def)
  then show ?thesis using reachable_snapshots_ok [OF h, of "uid 1"] by blast
qed

text \<open>
  The progress shown to the user is a fraction between 0 and 1 whatever the counters are, it is
  1 exactly when a task of positive size has all its bytes, and it never decreases when the
  downloaded byte count grows.
\<close>

theorem progress_bounds:
  "0 \<le> progress01 s \<and> progress01 s \<le> 1 \<and>
   (progress01 s = 1 \<longleftrightarrow> 0 < s_totalBytes s \<and> s_totalBytes s \<le> s_downloadedBytes s) \<and>
   (s_downloadedBytes s \<le> n \<longrightarrow> progress01 s \<le> progress01 (s\<lparr>s_downloadedBytes := n\<rparr>))"
proof (cases "s_totalBytes s \<le> 0")
  case True
  then show ?thesis by (simp add: progress01_def)
next
  case False
  let ?t = "real_of_int (s_totalBytes s)"
  have t: "0 < ?t" using False by simp
  have mono: "real_of_int (s_downloadedBytes s) / ?t \<le> real_of_int n / ?t"
    if "s_downloadedBytes s \<le> n"
    using that t by (intro divide_right_mono) simp_all
  show ?thesis
    using False t mono
    by (auto simp: progress01_def Let_def divide_simps)
qed

theorem progress_bounds_witness:
  "progress01 (default_snapshot\<lparr>s_totalBytes := 4, s_downloadedBytes := 1\<rparr>)
     \<le> progress01 (default_snapshot\<lparr>s_totalBytes := 4, s_downloadedBytes := 3\<rparr>) \<and>
   progress01 (default_snapshot\<lparr>s_totalBytes := 4, s_downloadedBytes := 1\<rparr>) = 1 / 4"
  using progress_bounds [of "default_snapshot\<lparr>s_totalBytes := 4, s_downloadedBytes := 1\<rparr>" 3]
  by (simp add: progress01_def Let_def)

end
