(* ===== verification/EventMapper.thy ===== *)
theory EventMapper
  imports TaskPipeline
begin

text \<open>
  From libtorrent alerts to task events: \<open>lt/task_alert_adapter.cc\<close> turns an alert into views
  (\<open>LtAlertView\<close>), \<open>lt/task_event_mapper.{h,cc}\<close> turns a view into a \<open>TaskEvent\<close> or drops it,
  \<open>lt/task_event_dispatcher.cc\<close> feeds a pipeline. Of libtorrent's types only the fields the code
  reads are here, as records; its strings are already decoded text.
\<close>

section \<open>Views\<close>

datatype view_type =
    vtTaskAdded | vtTaskStateChanged | vtTaskProgress | vtTaskRate | vtTaskError
  | vtDuplicateRejected | vtTaskRemoved | vtIgnored

record lt_view =
  v_type :: view_type
  v_taskId :: task_id
  v_status :: task_status
  v_name :: qstring
  v_savePath :: qstring
  v_message :: qstring
  v_totalBytes :: int
  v_selectedBytes :: int
  v_downloadedBytes :: int
  v_uploadedBytes :: int
  v_downloadRate :: int
  v_uploadRate :: int
  v_seeders :: int
  v_users :: int
  v_availability :: real
  v_category :: qstring
  v_tags :: qstring
  v_magnet :: qstring
  v_infoHashV1 :: qstring
  v_infoHashV2 :: qstring
  v_comment :: qstring
  v_eventMs :: int
  v_activeTimeSec :: int
  v_dlLimitBps :: int
  v_ulLimitBps :: int
  v_wastedBytes :: int
  v_nextAnnounceSec :: int
  v_lastSeenCompleteMs :: int
  v_pieces :: int
  v_pieceLength :: int
  v_createdBy :: qstring
  v_createdOnMs :: int
  v_completedOnMs :: int
  v_isPrivate :: int

definition default_view :: lt_view where
  "default_view =
     \<lparr>v_type = vtIgnored, v_taskId = null_id, v_status = stUnknown, v_name = [], v_savePath = [],
      v_message = [], v_totalBytes = - 1, v_selectedBytes = - 1, v_downloadedBytes = - 1,
      v_uploadedBytes = - 1, v_downloadRate = - 1, v_uploadRate = - 1, v_seeders = - 1,
      v_users = - 1, v_availability = - 1, v_category = [], v_tags = [], v_magnet = [],
      v_infoHashV1 = [], v_infoHashV2 = [], v_comment = [], v_eventMs = - 1,
      v_activeTimeSec = - 1, v_dlLimitBps = - 1, v_ulLimitBps = - 1, v_wastedBytes = - 1,
      v_nextAnnounceSec = - 1, v_lastSeenCompleteMs = - 1, v_pieces = - 1, v_pieceLength = - 1,
      v_createdBy = [], v_createdOnMs = - 1, v_completedOnMs = - 1, v_isPrivate = - 1\<rparr>"

section \<open>mapAlertToTaskEvent\<close>

definition mapAlertToTaskEvent :: "lt_view \<Rightarrow> task_event option" where
  "mapAlertToTaskEvent a =
     (if v_type a = vtIgnored \<or> isNull (v_taskId a) then None
      else
        let ev = default_event\<lparr>e_taskId := v_taskId a, e_eventMs := v_eventMs a\<rparr> in
        case v_type a of
          vtTaskAdded \<Rightarrow> Some (ev\<lparr>
            e_type := kUpsertMeta,
            e_name := v_name a,
            e_savePath := v_savePath a,
            e_infoHashV1 := v_infoHashV1 a,
            e_infoHashV2 := v_infoHashV2 a,
            e_comment := v_comment a,
            e_totalBytes := v_totalBytes a,
            e_selectedBytes := v_selectedBytes a,
            e_pieces := v_pieces a,
            e_pieceLength := v_pieceLength a,
            e_createdBy := v_createdBy a,
            e_createdOnMs := v_createdOnMs a,
            e_isPrivate := v_isPrivate a\<rparr>)
        | vtTaskStateChanged \<Rightarrow> Some (ev\<lparr>
            e_type := kStatusChanged,
            e_status := v_status a,
            e_errorMessage := v_message a\<rparr>)
        | vtTaskProgress \<Rightarrow> Some (ev\<lparr>
            e_type := kProgressUpdated,
            e_name := v_name a,
            e_status := v_status a,
            e_totalBytes := v_totalBytes a,
            e_selectedBytes := v_selectedBytes a,
            e_downloadedBytes := v_downloadedBytes a,
            e_uploadedBytes := v_uploadedBytes a,
            e_downloadRate := v_downloadRate a,
            e_uploadRate := v_uploadRate a,
            e_seeders := v_seeders a,
            e_users := v_users a,
            e_availability := v_availability a,
            e_infoHashV1 := v_infoHashV1 a,
            e_infoHashV2 := v_infoHashV2 a,
            e_activeTimeSec := v_activeTimeSec a,
            e_dlLimitBps := v_dlLimitBps a,
            e_ulLimitBps := v_ulLimitBps a,
            e_wastedBytes := v_wastedBytes a,
            e_nextAnnounceSec := v_nextAnnounceSec a,
            e_lastSeenCompleteMs := v_lastSeenCompleteMs a,
            e_pieces := v_pieces a,
            e_pieceLength := v_pieceLength a,
            e_createdBy := v_createdBy a,
            e_createdOnMs := v_createdOnMs a,
            e_completedOnMs := v_completedOnMs a,
            e_isPrivate := v_isPrivate a\<rparr>)
        | vtTaskRate \<Rightarrow> Some (ev\<lparr>
            e_type := kRateUpdated,
            e_downloadRate := v_downloadRate a,
            e_uploadRate := v_uploadRate a\<rparr>)
        | vtTaskError \<Rightarrow> Some (ev\<lparr>
            e_type := kErrorOccurred,
            e_errorMessage := v_message a\<rparr>)
        | vtDuplicateRejected \<Rightarrow> Some (ev\<lparr>
            e_type := kDuplicateRejected,
            e_errorMessage := v_message a\<rparr>)
        | vtTaskRemoved \<Rightarrow> Some (ev\<lparr>e_type := kRemoved\<rparr>)
        | vtIgnored \<Rightarrow> None)"

definition map_views :: "lt_view list \<Rightarrow> task_event list" where
  \<comment> \<open>the loop that keeps the views that map to an event\<close>
  "map_views vs = List.map_filter mapAlertToTaskEvent vs"

text \<open>
  The dispatcher; \<open>clk\<close> gives the clock readings of each \<open>applyEvent\<close>. A null pipeline pointer is
  \<open>None\<close>.
\<close>

definition dispatchAlertViewToPipeline ::
    "clock \<Rightarrow> lt_view \<Rightarrow> store option \<Rightarrow> store option" where
  "dispatchAlertViewToPipeline clk a pl =
     (case pl of
        None \<Rightarrow> None
      | Some st \<Rightarrow>
          (case mapAlertToTaskEvent a of
             None \<Rightarrow> Some st
           | Some ev \<Rightarrow> Some (consume clk ev st)))"

definition dispatchAlertViewsToPipeline ::
    "(nat \<Rightarrow> clock) \<Rightarrow> lt_view list \<Rightarrow> store option \<Rightarrow> store option" where
  "dispatchAlertViewsToPipeline clk vs pl =
     (case pl of
        None \<Rightarrow> None
      | Some st \<Rightarrow>
          (let events = map_views vs in
           if events \<noteq> [] then Some (consumeBatch (zip (map clk [0..<length events]) events) st)
           else Some st))"

section \<open>The alert adapter\<close>

datatype lt_state =
    sChecking_files | sChecking_resume_data | sDownloading_metadata | sDownloading | sFinished
  | sSeeding | sOther

record torrent_info =
  ti_comment :: qstring
  ti_num_pieces :: int
  ti_piece_length :: int
  ti_creator :: qstring
  ti_creation_date :: int       \<comment> \<open>seconds, 0 when absent\<close>
  ti_priv :: bool
  ti_total_size :: int

record torrent_status =
  ts_info_hashes :: info_hash
  ts_paused :: bool             \<comment> \<open>the flag \<open>torrent_flags::paused\<close>\<close>
  ts_state :: lt_state
  ts_name :: qstring
  ts_total_wanted :: int
  ts_total_done :: int
  ts_total_upload :: int
  ts_download_rate :: int
  ts_upload_rate :: int
  ts_num_seeds :: int
  ts_num_peers :: int
  ts_distributed_copies :: real
  ts_active_seconds :: int
  ts_total_failed_bytes :: int
  ts_total_redundant_bytes :: int
  ts_next_announce_seconds :: int
  ts_last_seen_complete :: int
  ts_has_metadata :: bool
  ts_torrent_file :: "torrent_info option"
  ts_completed_time :: int

record add_params =
  ap_info_hashes :: info_hash
  ap_name :: qstring
  ap_save_path :: qstring
  ap_ti :: "torrent_info option"

datatype lt_alert =
    AddTorrentAlert "qstring option" add_params   \<comment> \<open>the error message when \<open>add->error\<close>\<close>
  | TorrentErrorAlert info_hash qstring
  | TorrentRemovedAlert info_hash
  | StateUpdateAlert "torrent_status list"
  | OtherAlert

definition toHexV1 :: "info_hash \<Rightarrow> qstring" where
  "toHexV1 ih = (case ih_v1 ih of None \<Rightarrow> [] | Some t \<Rightarrow> t)"

definition toHexV2 :: "info_hash \<Rightarrow> qstring" where
  "toHexV2 ih = (case ih_v2 ih of None \<Rightarrow> [] | Some t \<Rightarrow> t)"

definition mapTorrentState :: "torrent_status \<Rightarrow> task_status" where
  "mapTorrentState st =
     (if ts_paused st then stPaused
      else case ts_state st of
             sChecking_files \<Rightarrow> stChecking
           | sChecking_resume_data \<Rightarrow> stChecking
           | sDownloading_metadata \<Rightarrow> stDownloading
           | sDownloading \<Rightarrow> stDownloading
           | sFinished \<Rightarrow> stFinished
           | sSeeding \<Rightarrow> stSeeding
           | sOther \<Rightarrow> stQueued)"

definition adaptAlertToView :: "(bytes \<Rightarrow> bytes) \<Rightarrow> lt_alert option \<Rightarrow> lt_view option" where
  "adaptAlertToView sha1 al =
     (case al of
        None \<Rightarrow> None
      | Some (AddTorrentAlert error ps) \<Rightarrow>
          (let v = default_view\<lparr>v_taskId := taskIdFromInfoHashes sha1 (ap_info_hashes ps)\<rparr> in
           case error of
             Some msg \<Rightarrow> Some (v\<lparr>v_type := vtTaskError, v_message := msg\<rparr>)
           | None \<Rightarrow>
               (let v1 = v\<lparr>v_type := vtTaskAdded,
                     v_name := ap_name ps,
                     v_savePath := ap_save_path ps,
                     v_infoHashV1 := toHexV1 (ap_info_hashes ps),
                     v_infoHashV2 := toHexV2 (ap_info_hashes ps)\<rparr>;
                    v2 = (case ap_ti ps of
                            None \<Rightarrow> v1
                          | Some ti \<Rightarrow> v1\<lparr>
                              v_comment := ti_comment ti,
                              v_pieces := ti_num_pieces ti,
                              v_pieceLength := ti_piece_length ti,
                              v_createdBy := ti_creator ti,
                              v_createdOnMs := (if 0 < ti_creation_date ti
                                                then ti_creation_date ti * 1000
                                                else v_createdOnMs v1),
                              v_isPrivate := (if ti_priv ti then 1 else 0),
                              v_totalBytes := ti_total_size ti\<rparr>)
                in Some (v2\<lparr>v_category := qs ''Default'', v_status := stQueued\<rparr>)))
      | Some (TorrentErrorAlert ih msg) \<Rightarrow>
          Some (default_view\<lparr>v_taskId := taskIdFromInfoHashes sha1 ih, v_type := vtTaskError,
                  v_message := msg\<rparr>)
      | Some (TorrentRemovedAlert ih) \<Rightarrow>
          Some (default_view\<lparr>v_taskId := taskIdFromInfoHashes sha1 ih, v_type := vtTaskRemoved\<rparr>)
      | Some (StateUpdateAlert sts) \<Rightarrow> None
      | Some OtherAlert \<Rightarrow> None)"

definition adaptTorrentStatusToProgressView :: "(bytes \<Rightarrow> bytes) \<Rightarrow> torrent_status \<Rightarrow> lt_view" where
  "adaptTorrentStatusToProgressView sha1 st =
     (let v = default_view\<lparr>
            v_taskId := taskIdFromInfoHashes sha1 (ts_info_hashes st),
            v_type := vtTaskProgress,
            v_name := ts_name st,
            v_totalBytes := ts_total_wanted st,
            v_selectedBytes := ts_total_wanted st,
            v_downloadedBytes := ts_total_done st,
            v_uploadedBytes := ts_total_upload st,
            v_downloadRate := ts_download_rate st,
            v_uploadRate := ts_upload_rate st,
            v_seeders := ts_num_seeds st,
            v_users := ts_num_peers st,
            v_availability := ts_distributed_copies st,
            v_infoHashV1 := toHexV1 (ts_info_hashes st),
            v_infoHashV2 := toHexV2 (ts_info_hashes st),
            v_category := qs ''Default'',
            v_status := mapTorrentState st,
            v_activeTimeSec := ts_active_seconds st,
            v_wastedBytes := ts_total_failed_bytes st + ts_total_redundant_bytes st,
            v_nextAnnounceSec := ts_next_announce_seconds st\<rparr>;
          v1 = (if 0 < ts_last_seen_complete st
                then v\<lparr>v_lastSeenCompleteMs := ts_last_seen_complete st * 1000\<rparr> else v);
          v2 = (if ts_has_metadata st
                then (case ts_torrent_file st of
                        None \<Rightarrow> v1
                      | Some ti \<Rightarrow> v1\<lparr>
                          v_pieces := ti_num_pieces ti,
                          v_pieceLength := ti_piece_length ti,
                          v_createdBy := ti_creator ti,
                          v_createdOnMs := (if 0 < ti_creation_date ti
                                            then ti_creation_date ti * 1000
                                            else v_createdOnMs v1),
                          v_isPrivate := (if ti_priv ti then 1 else 0)\<rparr>)
                else v1)
      in if 0 < ts_completed_time st
         then v2\<lparr>v_completedOnMs := ts_completed_time st * 1000\<rparr> else v2)"

definition adaptAlertToViews :: "(bytes \<Rightarrow> bytes) \<Rightarrow> lt_alert option \<Rightarrow> lt_view list" where
  "adaptAlertToViews sha1 al =
     (case al of
        None \<Rightarrow> []
      | Some (StateUpdateAlert sts) \<Rightarrow> map (adaptTorrentStatusToProgressView sha1) sts
      | Some a \<Rightarrow> (case adaptAlertToView sha1 (Some a) of None \<Rightarrow> [] | Some v \<Rightarrow> [v]))"

section \<open>Lemmas\<close>

lemma mapAlert_key: "mapAlertToTaskEvent a = Some ev \<Longrightarrow> e_taskId ev = v_taskId a"
  by (auto simp: mapAlertToTaskEvent_def Let_def split: if_splits view_type.splits)

lemma mapAlert_None: "mapAlertToTaskEvent a = None \<longleftrightarrow> v_type a = vtIgnored \<or> isNull (v_taskId a)"
  by (auto simp: mapAlertToTaskEvent_def Let_def split: view_type.splits)

lemma progress_view_type [simp]:
  "v_type (adaptTorrentStatusToProgressView sha1 st) = vtTaskProgress"
  "v_taskId (adaptTorrentStatusToProgressView sha1 st) =
     taskIdFromInfoHashes sha1 (ts_info_hashes st)"
  by (auto simp: adaptTorrentStatusToProgressView_def Let_def split: option.splits)

lemma adaptAlertToView_type: "adaptAlertToView sha1 al = Some v \<Longrightarrow> v_type v \<noteq> vtIgnored"
  by (auto simp: adaptAlertToView_def Let_def split: option.splits lt_alert.splits if_splits)

lemma adaptAlertToView_id:
  "adaptAlertToView sha1 al = Some v \<Longrightarrow> \<exists>ih. v_taskId v = taskIdFromInfoHashes sha1 ih"
  by (auto simp: adaptAlertToView_def Let_def split: option.splits lt_alert.splits if_splits)

section \<open>Properties\<close>


definition example_ih :: info_hash where
  "example_ih = \<lparr>ih_text = bs ''00ff'', ih_v1 = Some (qs ''00ff''), ih_v2 = None\<rparr>"


text \<open>
  A progress report of libtorrent keeps what the user owns: consuming it leaves the save path,
  the category, the tags, the comment, the error text and the time of addition of a known task as
  they were (the placeholder category of the view is not passed on), and overwrites the status with
  the state libtorrent reports.
\<close>

theorem progress_report_keeps_user_data:
  assumes "mapAlertToTaskEvent (adaptTorrentStatusToProgressView sha1 ts) = Some ev"
    and "service_snapshot st (e_taskId ev) = Some s"
  shows "\<exists>s'. service_snapshot (service_consume clk ev st) (e_taskId ev) = Some s' \<and>
           s_savePath s' = s_savePath s \<and> s_category s' = s_category s \<and> s_tags s' = s_tags s \<and>
           s_comment s' = s_comment s \<and> s_errorMessage s' = s_errorMessage s \<and>
           s_addedAtMs s' = s_addedAtMs s \<and> s_status s' = mapTorrentState ts"
proof -
  let ?v = "adaptTorrentStatusToProgressView sha1 ts"
  have st: "v_status ?v = mapTorrentState ts"
    by (auto simp: adaptTorrentStatusToProgressView_def Let_def split: option.splits)
  have nu: "mapTorrentState ts \<noteq> stUnknown"
    by (auto simp: mapTorrentState_def split: lt_state.splits)
  from assms(1) st have ev: "e_type ev = kProgressUpdated" "e_status ev = mapTorrentState ts"
    "e_category ev = []" "e_tags ev = []"
    by (auto simp: mapAlertToTaskEvent_def Let_def default_event_def split: if_splits)
  from assms(2) have m: "map_of st (e_taskId ev) = Some s"
    by (simp add: service_snapshot_def snapshot_def)
  show ?thesis
    using ev nu m
    by (simp add: service_snapshot_def service_consume_def consume_def snapshot_def applyEvent_def
          Let_def update_conv payload_defs str_or_def)
qed

definition example_ts :: torrent_status where
  "example_ts =
     \<lparr>ts_info_hashes = example_ih, ts_paused = False, ts_state = sDownloading, ts_name = [],
      ts_total_wanted = 10, ts_total_done = 4, ts_total_upload = 0, ts_download_rate = 1,
      ts_upload_rate = 0, ts_num_seeds = 1, ts_num_peers = 2, ts_distributed_copies = 1,
      ts_active_seconds = 3, ts_total_failed_bytes = 0, ts_total_redundant_bytes = 0,
      ts_next_announce_seconds = 60, ts_last_seen_complete = 0, ts_has_metadata = False,
      ts_torrent_file = None, ts_completed_time = 0\<rparr>"

theorem progress_report_keeps_user_data_witness:
  "\<exists>ev s'. mapAlertToTaskEvent (adaptTorrentStatusToProgressView (\<lambda>b. b) example_ts) = Some ev \<and>
     service_snapshot (service_consume (0, 0) ev
         [(e_taskId ev, default_snapshot\<lparr>s_category := qs ''films''\<rparr>)]) (e_taskId ev) = Some s' \<and>
     s_category s' = qs ''films'' \<and> s_status s' = stDownloading"
proof -
  let ?v = "adaptTorrentStatusToProgressView (\<lambda>b. b) example_ts"
  have "mapAlertToTaskEvent ?v \<noteq> None"
    by (simp add: mapAlert_None)
  then obtain ev where ev: "mapAlertToTaskEvent ?v = Some ev" by auto
  have s: "service_snapshot [(e_taskId ev, default_snapshot\<lparr>s_category := qs ''films''\<rparr>)] (e_taskId ev)
             = Some (default_snapshot\<lparr>s_category := qs ''films''\<rparr>)"
    by (simp add: service_snapshot_def snapshot_def)
  have t: "mapTorrentState example_ts = stDownloading"
    by (simp add: mapTorrentState_def example_ts_def)
  from progress_report_keeps_user_data [OF ev s, of "(0, 0)"] ev t show ?thesis
    by auto
qed

end
