(* ===== verification/EventIngest.thy ===== *)
theory EventIngest
  imports EventMapper
begin

text \<open>
  \<open>app/event_ingest_orchestrator.{h,cc}\<close>: the batches of views that the session thread posts to
  the UI thread are mapped to events, the status of a progress report is suppressed while the task
  is locked (after a pause or resume request, until the worker has had time to act), the events
  are consumed, and the removed and duplicate tasks are reported. The lock table
  (\<open>unordered_map<QString, qint64>\<close>) is keyed by the text key of the task; \<open>now\<close> is the reading of
  \<open>QDateTime::currentMSecsSinceEpoch\<close>, \<open>clk\<close> the readings inside \<open>applyEvent\<close>.
\<close>

type_synonym locks = "(qstring \<times> int) list"

record ingest_result =
  duplicateRejectedTaskIds :: "task_id list"
  removedTaskIds :: "task_id list"

definition lockProgressStatus :: "task_id \<Rightarrow> int \<Rightarrow> locks \<Rightarrow> locks" where
  "lockProgressStatus taskId lockUntilMs m = AList.update (taskIdKey taskId) lockUntilMs m"

fun apply_locks :: "int \<Rightarrow> locks \<Rightarrow> task_event list \<Rightarrow> task_event list \<times> locks" where
  \<comment> \<open>the loop over the events that hides the status of locked tasks\<close>
  "apply_locks now m [] = ([], m)"
| "apply_locks now m (ev # evs) =
     (let (ev', m') =
        (if e_type ev = kProgressUpdated
         then (case map_of m (taskIdKey (e_taskId ev)) of
                 None \<Rightarrow> (ev, m)
               | Some t \<Rightarrow>
                   if now < t then (ev\<lparr>e_status := stUnknown\<rparr>, m)
                   else (ev, AList.delete (taskIdKey (e_taskId ev)) m))
         else (ev, m));
        (evs', m'') = apply_locks now m' evs
      in (ev' # evs', m''))"

definition result_of :: "task_event list \<Rightarrow> ingest_result" where
  "result_of evs =
     \<lparr>duplicateRejectedTaskIds = map e_taskId (filter (\<lambda>e. e_type e = kDuplicateRejected) evs),
      removedTaskIds = map e_taskId (filter (\<lambda>e. e_type e = kRemoved) evs)\<rparr>"

definition ingest ::
    "int \<Rightarrow> (nat \<Rightarrow> clock) \<Rightarrow> lt_view list \<Rightarrow> store option \<times> locks
       \<Rightarrow> ingest_result \<times> (store option \<times> locks)" where
  "ingest now clk views pm =
     (case fst pm of
        None \<Rightarrow> (result_of [], pm)
      | Some st \<Rightarrow>
          (let events = map_views views in
           if views = [] \<or> events = [] then (result_of [], pm)
           else
             let (evs, m) = apply_locks now (snd pm) events;
                 st' = service_consumeBatch (zip (map clk [0..<length evs]) evs) st
             in (result_of evs, (Some st', m))))"

section \<open>Lemmas\<close>

lemma apply_locks_frame:
  "map e_taskId (fst (apply_locks now m evs)) = map e_taskId evs \<and>
   map e_type (fst (apply_locks now m evs)) = map e_type evs \<and>
   length (fst (apply_locks now m evs)) = length evs"
  by (induction now m evs rule: apply_locks.induct)
     (auto simp: case_prod_beta Let_def split: option.splits if_splits)

lemma apply_locks_result: "result_of (fst (apply_locks now m evs)) = result_of evs"
proof -
  have "map e_taskId (filter (\<lambda>e. e_type e = t) (fst (apply_locks now m evs))) =
        map e_taskId (filter (\<lambda>e. e_type e = t) evs)" for t
    by (induction now m evs rule: apply_locks.induct)
       (auto simp: case_prod_beta Let_def split: option.splits if_splits)
  then show ?thesis by (simp add: result_of_def)
qed

lemma delete_other_lock:
  "k \<noteq> k' \<Longrightarrow> map_of (AList.delete k' m) k = map_of m k"
  by (simp add: delete_conv)

text \<open>While the lock of a task stands, its progress events carry no status and the lock stays.\<close>

lemma apply_locks_locked:
  assumes "map_of m (taskIdKey i) = Some t" and "now < t"
  shows "map_of (snd (apply_locks now m evs)) (taskIdKey i) = Some t \<and>
         (\<forall>e \<in> set (fst (apply_locks now m evs)).
            e_taskId e = i \<longrightarrow> e_type e = kProgressUpdated \<longrightarrow> e_status e = stUnknown)"
  using assms
proof (induction now m evs rule: apply_locks.induct)
  case (1 now m)
  then show ?case by simp
next
  case (2 now m ev evs)
  let ?step = "if e_type ev = kProgressUpdated
         then (case map_of m (taskIdKey (e_taskId ev)) of
                 None \<Rightarrow> (ev, m)
               | Some t \<Rightarrow>
                   if now < t then (ev\<lparr>e_status := stUnknown\<rparr>, m)
                   else (ev, AList.delete (taskIdKey (e_taskId ev)) m))
         else (ev, m)"
  obtain ev' m' where s: "?step = (ev', m')" by (cases ?step)
  have keep: "map_of m' (taskIdKey i) = Some t"
    using s "2.prems" by (auto simp: delete_conv split: if_splits option.splits)
  have head: "e_taskId ev' = i \<Longrightarrow> e_type ev' = kProgressUpdated \<Longrightarrow> e_status ev' = stUnknown"
    using s "2.prems" by (auto split: if_splits option.splits)
  have "map_of (snd (apply_locks now m' evs)) (taskIdKey i) = Some t \<and>
         (\<forall>e \<in> set (fst (apply_locks now m' evs)).
            e_taskId e = i \<longrightarrow> e_type e = kProgressUpdated \<longrightarrow> e_status e = stUnknown)"
    by (rule "2.IH" [OF s [symmetric] refl keep "2.prems"(2)])
  with head s show ?case by (auto simp: case_prod_beta Let_def)
qed

text \<open>Events that carry no status leave the status of a known task alone.\<close>

definition statusless :: "task_event \<Rightarrow> bool" where
  "statusless e \<longleftrightarrow>
     e_type e = kRateUpdated \<or> e_type e = kUpsertMeta \<or> e_type e = kDuplicateRejected \<or>
     (e_type e = kProgressUpdated \<and> e_status e = stUnknown)"

lemma statusless_fold:
  "\<forall>ce \<in> set ces. statusless (snd ce) \<Longrightarrow>
   \<exists>s'. fold task_step ces (Some s) = Some s' \<and> s_status s' = s_status s"
proof (induction ces arbitrary: s)
  case Nil
  then show ?case by simp
next
  case (Cons ce ces)
  obtain clk e where ce: "ce = (clk, e)" by (cases ce)
  have "\<exists>s1. task_step ce (Some s) = Some s1 \<and> s_status s1 = s_status s"
    using Cons.prems by (auto simp: ce statusless_def payload_defs)
  then obtain s1 where s1: "task_step ce (Some s) = Some s1" and eq: "s_status s1 = s_status s"
    by blast
  have "\<forall>ce \<in> set ces. statusless (snd ce)" using Cons.prems by simp
  from Cons.IH [OF this, of s1] s1 eq show ?case by simp
qed

lemma map_views_set:
  "ev \<in> set (map_views vs) \<Longrightarrow> \<exists>v \<in> set vs. mapAlertToTaskEvent v = Some ev"
  by (auto simp: map_views_def map_filter_def)

lemma mapAlert_type:
  "mapAlertToTaskEvent v = Some ev \<Longrightarrow>
   (v_type v = vtTaskProgress \<longrightarrow> e_type ev = kProgressUpdated) \<and>
   (v_type v = vtTaskRate \<longrightarrow> e_type ev = kRateUpdated)"
  by (auto simp: mapAlertToTaskEvent_def Let_def split: if_splits)

lemma zip_snd_set: "ce \<in> set (zip xs ys) \<Longrightarrow> snd ce \<in> set ys"
  by (cases ce) (auto dest: set_zip_rightD)

section \<open>Properties\<close>

text \<open>
  A status lock holds: while the lock of a known task has not expired, no batch of progress and
  rate reports of libtorrent for it, mixed with any reports for other tasks, changes its status,
  and the lock is still there afterwards. So the state the user asked for is not overwritten by
  reports that were on their way.
\<close>

theorem locked_status_survives_reports:
  assumes "map_of m (taskIdKey i) = Some t" and "now < t"
    and "\<And>v. v \<in> set views \<Longrightarrow> v_taskId v = i \<Longrightarrow> v_type v = vtTaskProgress \<or> v_type v = vtTaskRate"
    and "service_snapshot st i = Some s"
  shows "\<exists>st' m' s'. snd (ingest now clk views (Some st, m)) = (Some st', m') \<and>
           service_snapshot st' i = Some s' \<and> s_status s' = s_status s \<and>
           map_of m' (taskIdKey i) = Some t"
proof (cases "views = [] \<or> map_views views = []")
  case True
  then show ?thesis using assms by (simp add: ingest_def)
next
  case False
  define al where "al = apply_locks now m (map_views views)"
  obtain evs m' where al': "al = (evs, m')" by (cases al)
  define ces where "ces = zip (map clk [0..<length evs]) evs"
  have locked: "map_of m' (taskIdKey i) = Some t"
    and quiet: "\<forall>e \<in> set evs. e_taskId e = i \<longrightarrow> e_type e = kProgressUpdated \<longrightarrow> e_status e = stUnknown"
    using apply_locks_locked [OF assms(1,2), of "map_views views"] al' by (auto simp: al_def)
  have types: "e_type e = kProgressUpdated \<or> e_type e = kRateUpdated"
    if e: "e \<in> set evs" and "e_taskId e = i" for e
  proof -
    from e obtain n where n: "n < length evs" "evs ! n = e" by (auto simp: in_set_conv_nth)
    let ?e0 = "map_views views ! n"
    have fr: "map e_taskId evs = map e_taskId (map_views views)"
      "map e_type evs = map e_type (map_views views)" "length evs = length (map_views views)"
      using apply_locks_frame [of now m "map_views views"] al' by (auto simp: al_def)
    have same: "e_taskId ?e0 = i" "e_type ?e0 = e_type e" "?e0 \<in> set (map_views views)"
      using n fr \<open>e_taskId e = i\<close> by (metis nth_map, metis nth_map, simp)
    from map_views_set [OF same(3)] obtain v where "v \<in> set views"
      and mv: "mapAlertToTaskEvent v = Some ?e0" by blast
    moreover have "v_taskId v = i" using mapAlert_key [OF mv] same(1) by simp
    ultimately show ?thesis using assms(3) mapAlert_type [OF mv] same(2) by auto
  qed
  have "\<forall>ce \<in> set (filter (\<lambda>ce. e_taskId (snd ce) = i) ces). statusless (snd ce)"
  proof
    fix ce
    assume "ce \<in> set (filter (\<lambda>ce. e_taskId (snd ce) = i) ces)"
    then have e: "snd ce \<in> set evs" "e_taskId (snd ce) = i"
      using zip_snd_set [of ce] by (auto simp: ces_def)
    from types [OF e] quiet e show "statusless (snd ce)" by (auto simp: statusless_def)
  qed
  from statusless_fold [OF this, of s] obtain s' where
    "fold task_step (filter (\<lambda>ce. e_taskId (snd ce) = i) ces) (Some s) = Some s'"
    and st': "s_status s' = s_status s" by blast
  then have "service_snapshot (service_consumeBatch ces st) i = Some s'"
    using task_store.look_run [of ces st i] assms(4)
    by (simp add: service_snapshot_def service_consumeBatch_def consumeBatch_fold event_key_def)
  moreover have "snd (ingest now clk views (Some st, m)) = (Some (service_consumeBatch ces st), m')"
    using False al' by (simp add: ingest_def Let_def al_def ces_def)
  ultimately show ?thesis using st' locked by blast
qed

theorem locked_status_survives_reports_witness:
  "\<exists>st' m' s'. snd (ingest 10 (\<lambda>_. (0, 0))
        [default_view\<lparr>v_type := vtTaskProgress, v_taskId := uid 1, v_status := stDownloading\<rparr>]
        (Some [(uid 1, default_snapshot\<lparr>s_status := stPaused\<rparr>)], [(taskIdKey (uid 1), 20)]))
      = (Some st', m') \<and> service_snapshot st' (uid 1) = Some s' \<and> s_status s' = stPaused"
proof -
  have l: "map_of [(taskIdKey (uid 1), 20)] (taskIdKey (uid 1)) = Some (20::int)" by simp
  have n: "(10::int) < 20" by simp
  have s: "service_snapshot [(uid 1, default_snapshot\<lparr>s_status := stPaused\<rparr>)] (uid 1) =
             Some (default_snapshot\<lparr>s_status := stPaused\<rparr>)"
    by (simp add: service_snapshot_def snapshot_def)
  show ?thesis
    using locked_status_survives_reports [OF l n _ s,
        of "[default_view\<lparr>v_type := vtTaskProgress, v_taskId := uid 1, v_status := stDownloading\<rparr>]"
           "\<lambda>_. (0, 0)"]
    by auto
qed

text \<open>
  The tasks a batch reports as removed are exactly those of its removal views with an
  identifier, in order, and the tasks it reports as duplicates exactly those of its duplicate
  views: nothing is invented, nothing lost, whatever locks stand.
\<close>

theorem ingest_reports_removals:
  shows "removedTaskIds (fst (ingest now clk views (Some st, m))) =
           map v_taskId (filter (\<lambda>v. v_type v = vtTaskRemoved \<and> \<not> isNull (v_taskId v)) views) \<and>
         duplicateRejectedTaskIds (fst (ingest now clk views (Some st, m))) =
           map v_taskId (filter (\<lambda>v. v_type v = vtDuplicateRejected \<and> \<not> isNull (v_taskId v)) views)"
proof -
  have r: "map e_taskId (filter (\<lambda>e. e_type e = kRemoved) (map_views vs)) =
           map v_taskId (filter (\<lambda>v. v_type v = vtTaskRemoved \<and> \<not> isNull (v_taskId v)) vs)" for vs
    by (induction vs)
       (auto simp: map_views_def map_filter_def mapAlertToTaskEvent_def Let_def
          split: view_type.splits)
  have d: "map e_taskId (filter (\<lambda>e. e_type e = kDuplicateRejected) (map_views vs)) =
           map v_taskId (filter (\<lambda>v. v_type v = vtDuplicateRejected \<and> \<not> isNull (v_taskId v)) vs)" for vs
    by (induction vs)
       (auto simp: map_views_def map_filter_def mapAlertToTaskEvent_def Let_def
          split: view_type.splits)
  have "fst (ingest now clk views (Some st, m)) = result_of (map_views views)"
    using apply_locks_result [of now m "map_views views"]
    by (auto simp: ingest_def Let_def case_prod_beta map_views_def map_filter_def)
  then show ?thesis by (simp add: result_of_def r d)
qed

end
