(* ===== verification/RingBuffer.thy ===== *)
theory RingBuffer
  imports Interfaces
begin

text \<open>
  The bounded queue behind the per-task logs and the logger (\<open>base/ring_buffer.h\<close>): one slot and
  one sequence number per position, a head and a tail ticket, all \<open>size_t\<close> (\<open>64 word\<close>, so
  tickets wrap). The theory models the operations as one thread runs them; a retry loop that
  never leaves is the value \<open>None\<close> of \<open>partial_function (option)\<close>.

  \<open>C\<close> is the template parameter \<open>Capacity\<close>; \<open>capacity_ok C\<close> is what the correctness of the
  algorithm needs of it. The class itself only asserts that it is a power of two:
  \<open>capacity_one_overwrites\<close> shows what happens for 1. \<open>mv x\<close> is what the move constructor
  of the element leaves behind in the slot.

  The difference \<open>intptr_t(seq) - intptr_t(tail + 1)\<close> is \<open>diff\<close>, computed at the width of
  \<open>intptr_t\<close>; \<open>diff_exact\<close> shows that it is the exact difference (no signed overflow) as long
  as fewer than \<open>2 ^ 63\<close> tickets were given out.
\<close>

type_synonym size_t = "64 word"

record 'a ring =
  rb_buffer :: "'a option list"
  rb_seqs :: "size_t list"
  rb_head :: size_t
  rb_tail :: size_t

definition capacity_ok :: "nat \<Rightarrow> bool" where
  "capacity_ok C \<longleftrightarrow> (\<exists>k. 0 < k \<and> k \<le> 62 \<and> C = 2 ^ k)"

definition new_ring :: "nat \<Rightarrow> 'a ring" where
  "new_ring C =
     \<lparr> rb_buffer = replicate C None, rb_seqs = map of_nat [0..<C], rb_head = 0, rb_tail = 0 \<rparr>"

definition pos :: "nat \<Rightarrow> size_t \<Rightarrow> nat" where
  "pos C w = unat (w AND (of_nat C - 1))"

definition diff :: "size_t \<Rightarrow> size_t \<Rightarrow> int" where
  "diff a b = sint (a - b)"

section \<open>The operations\<close>

partial_function (option) push_loop ::
  "nat \<Rightarrow> 'a \<Rightarrow> size_t \<Rightarrow> 'a ring \<Rightarrow> (bool \<times> 'a ring) option" where
  "push_loop C x head q =
     (let p = pos C head; d = diff (rb_seqs q ! p) head in
      if d = 0 then
        (if rb_head q = head then
           Some (True, q\<lparr> rb_head := head + 1,
                          rb_buffer := (rb_buffer q)[p := Some x],
                          rb_seqs := (rb_seqs q)[p := head + 1] \<rparr>)
         else push_loop C x (rb_head q) q)
      else if d < 0 then Some (False, q)
      else push_loop C x (rb_head q) q)"

definition PushImpl :: "nat \<Rightarrow> 'a \<Rightarrow> 'a ring \<Rightarrow> (bool \<times> 'a ring) option" where
  "PushImpl C x q = push_loop C x (rb_head q) q"

partial_function (option) pop_loop ::
  "('a \<Rightarrow> 'a) \<Rightarrow> nat \<Rightarrow> size_t \<Rightarrow> 'a ring \<Rightarrow> ('a option \<times> 'a ring) option" where
  "pop_loop mv C tail q =
     (let p = pos C tail; d = diff (rb_seqs q ! p) (tail + 1) in
      if d = 0 then
        Some (rb_buffer q ! p,
              q\<lparr> rb_tail := tail + 1,
                 rb_buffer := (rb_buffer q)[p := map_option mv (rb_buffer q ! p)],
                 rb_seqs := (rb_seqs q)[p := tail + of_nat C] \<rparr>)
      else if d < 0 then Some (None, q)
      else pop_loop mv C (rb_tail q) q)"

definition TryPop :: "('a \<Rightarrow> 'a) \<Rightarrow> nat \<Rightarrow> 'a ring \<Rightarrow> ('a option \<times> 'a ring) option" where
  "TryPop mv C q = pop_loop mv C (rb_tail q) q"

fun TryPopBatch :: "('a \<Rightarrow> 'a) \<Rightarrow> nat \<Rightarrow> nat \<Rightarrow> 'a ring \<Rightarrow> ('a list \<times> 'a ring) option" where
  "TryPopBatch mv C 0 q = Some ([], q)"
| "TryPopBatch mv C (Suc n) q =
     (case TryPop mv C q of
        None \<Rightarrow> None
      | Some (None, q') \<Rightarrow> Some ([], q')
      | Some (Some x, q') \<Rightarrow> map_option (\<lambda>(xs, q''). (x # xs, q'')) (TryPopBatch mv C n q'))"

definition PeekAt :: "nat \<Rightarrow> size_t \<Rightarrow> 'a ring \<Rightarrow> 'a option" where
  "PeekAt C index q =
     (if rb_tail q > rb_head q then None
      else if index \<ge> rb_head q - rb_tail q then None
      else let p = pos C (rb_tail q + index) in
           if diff (rb_seqs q ! p) (rb_tail q + index + 1) \<ge> 0 then rb_buffer q ! p else None)"

definition PeekFront :: "nat \<Rightarrow> 'a ring \<Rightarrow> 'a option" where
  "PeekFront C q = PeekAt C 0 q"

definition PeekLatest :: "nat \<Rightarrow> 'a ring \<Rightarrow> 'a option" where
  "PeekLatest C q =
     (if rb_tail q \<ge> rb_head q then None
      else PeekAt C (rb_head q - rb_tail q - 1) q)"

definition Size :: "'a ring \<Rightarrow> size_t" where
  "Size q = (if rb_head q \<ge> rb_tail q then rb_head q - rb_tail q else 0)"

definition Empty :: "'a ring \<Rightarrow> bool" where
  "Empty q \<longleftrightarrow> Size q = 0"

section \<open>Contents and invariant\<close>

definition filled :: "'a ring \<Rightarrow> nat" where
  "filled q = unat (rb_head q - rb_tail q)"

definition slot :: "nat \<Rightarrow> 'a ring \<Rightarrow> nat \<Rightarrow> nat" where
  "slot C q i = pos C (rb_tail q + of_nat i)"

definition content :: "nat \<Rightarrow> 'a ring \<Rightarrow> 'a list" where
  "content C q = map (\<lambda>i. the (rb_buffer q ! slot C q i)) [0..<filled q]"

definition ring_inv :: "nat \<Rightarrow> 'a ring \<Rightarrow> bool" where
  "ring_inv C q \<longleftrightarrow>
     length (rb_buffer q) = C \<and> length (rb_seqs q) = C \<and> filled q \<le> C \<and>
     (\<forall>i < C. rb_seqs q ! slot C q i =
                rb_tail q + of_nat i + (if i < filled q then 1 else 0) \<and>
              (i < filled q \<longrightarrow> rb_buffer q ! slot C q i \<noteq> None))"

lemma length_content [simp]: "length (content C q) = filled q"
  by (simp add: content_def)

subsection \<open>Positions\<close>

lemma capacity_okE:
  assumes "capacity_ok C"
  obtains k where "0 < k" "k \<le> 62" "C = 2 ^ k" "C dvd 2 ^ 64" "2 \<le> C" "C \<le> 2 ^ 62"
proof -
  from assms obtain k where k: "0 < k" "k \<le> 62" "C = 2 ^ k" by (auto simp: capacity_ok_def)
  moreover from k have "C dvd 2 ^ 64" using le_imp_power_dvd [of k 64 "2::nat"] by simp
  moreover from k have "2 \<le> C" by (cases k) auto
  moreover from k have "C \<le> 2 ^ 62" using power_increasing [of k 62 "2::nat"] by simp
  ultimately show ?thesis by (rule that)
qed

lemma pos_mod:
  assumes "capacity_ok C"
  shows "pos C w = unat w mod C"
proof -
  from assms obtain k where k: "k \<le> 62" "C = 2 ^ k" by (rule capacity_okE) 
  then have "of_nat C - 1 = (mask k :: size_t)" by (simp add: mask_eq_exp_minus_1)
  then have "pos C w = unat (take_bit k w)" by (simp add: pos_def take_bit_eq_mask)
  also have "\<dots> = take_bit k (unat w)" by (rule unsigned_take_bit_eq)
  finally show ?thesis using k by (simp add: take_bit_eq_mod)
qed

lemma pos_add:
  assumes "capacity_ok C"
  shows "pos C (w + of_nat i) = (unat w + i) mod C"
proof -
  from assms have "C dvd 2 ^ 64" by (rule capacity_okE)
  then show ?thesis
    by (simp add: pos_mod [OF assms] unat_word_ariths mod_mod_cancel unat_of_nat mod_add_right_eq)
qed

lemma slot_eq: "capacity_ok C \<Longrightarrow> slot C q i = (unat (rb_tail q) + i) mod C"
  by (simp add: slot_def pos_add)

lemma slot_less: "capacity_ok C \<Longrightarrow> slot C q i < C"
  by (auto simp: slot_eq elim: capacity_okE)

lemma slot_inj: "capacity_ok C \<Longrightarrow> i < C \<Longrightarrow> j < C \<Longrightarrow> slot C q i = slot C q j \<longleftrightarrow> i = j"
proof (induction i j rule: linorder_wlog)
  case (le i j)
  have "(unat (rb_tail q) + j) mod C = (unat (rb_tail q) + i) mod C \<longleftrightarrow> C dvd j - i"
    using le by (subst mod_eq_dvd_iff_nat) auto
  with le show ?case by (auto simp: slot_eq dest: dvd_imp_le)
next
  case (sym i j)
  then show ?case by metis
qed

lemma slot_wrap: "capacity_ok C \<Longrightarrow> slot C q C = slot C q 0"
  by (simp add: slot_eq)

lemma slot_0: "slot C q 0 = pos C (rb_tail q)"
  by (simp add: slot_def)

lemma head_ticket: "rb_head q = rb_tail q + of_nat (filled q)"
  by (simp add: filled_def)

lemma slot_head: "pos C (rb_head q) = slot C q (filled q)"
  by (simp add: slot_def filled_def)

lemma slot_Suc: "slot C q (Suc i) = pos C (rb_tail q + 1 + of_nat i)"
  by (simp add: slot_def add.assoc)


subsection \<open>Push and TryPop on one slot\<close>

lemma filled_less_width: "capacity_ok C \<Longrightarrow> ring_inv C q \<Longrightarrow> filled q < 2 ^ 63"
  by (auto simp: ring_inv_def elim: capacity_okE)

lemma inv_lengths:
  "ring_inv C q \<Longrightarrow> length (rb_buffer q) = C \<and> length (rb_seqs q) = C \<and> filled q \<le> C"
  by (simp add: ring_inv_def)

lemma inv_seq:
  "ring_inv C q \<Longrightarrow> i < C \<Longrightarrow>
   rb_seqs q ! slot C q i = rb_tail q + of_nat i + (if i < filled q then 1 else 0)"
  by (simp add: ring_inv_def)

lemma inv_full: "ring_inv C q \<Longrightarrow> i < filled q \<Longrightarrow> rb_buffer q ! slot C q i \<noteq> None"
  by (auto simp: ring_inv_def)

definition pushed :: "nat \<Rightarrow> 'a \<Rightarrow> 'a ring \<Rightarrow> 'a ring" where
  "pushed C x q =
     q\<lparr> rb_head := rb_head q + 1,
        rb_buffer := (rb_buffer q)[pos C (rb_head q) := Some x],
        rb_seqs := (rb_seqs q)[pos C (rb_head q) := rb_head q + 1] \<rparr>"

definition popped :: "('a \<Rightarrow> 'a) \<Rightarrow> nat \<Rightarrow> 'a ring \<Rightarrow> 'a ring" where
  "popped mv C q =
     q\<lparr> rb_tail := rb_tail q + 1,
        rb_buffer := (rb_buffer q)[pos C (rb_tail q) := map_option mv (rb_buffer q ! pos C (rb_tail q))],
        rb_seqs := (rb_seqs q)[pos C (rb_tail q) := rb_tail q + of_nat C] \<rparr>"

lemma PushImpl_room:
  assumes "capacity_ok C" "ring_inv C q" "filled q < C"
  shows "PushImpl C x q = Some (True, pushed C x q)"
  using inv_seq [OF assms(2,3)]
  by (simp add: PushImpl_def push_loop.simps slot_head diff_def Let_def pushed_def filled_def)

lemma sint_of_neg:
  assumes "0 < n" "n < 2 ^ 63"
  shows "sint (- of_nat n :: size_t) < 0"
proof -
  have "(- of_nat n :: size_t) = word_of_int (- int n)" by simp
  moreover have "- (2 ^ 63) \<le> - int n" "- int n < 2 ^ 63" using assms by auto
  ultimately have "sint (- of_nat n :: size_t) = - int n"
    by (simp only: sint_sbintrunc' ) (simp add: signed_take_bit_int_eq_self)
  with assms show ?thesis by simp
qed

lemma PushImpl_full:
  assumes "capacity_ok C" "ring_inv C q" "filled q = C"
  shows "PushImpl C x q = Some (False, q)"
proof -
  from assms(1) have C: "2 \<le> C" "C \<le> 2 ^ 62" by (auto elim: capacity_okE)
  have "pos C (rb_head q) = slot C q 0"
    using slot_head [of C q] slot_wrap [OF assms(1), of q] assms(3) by simp
  with inv_seq [OF assms(2), of 0] assms(3) C
  have "rb_seqs q ! pos C (rb_head q) = rb_tail q + 1" by simp
  then have d: "rb_seqs q ! pos C (rb_head q) - rb_head q = - of_nat (C - 1)"
    using C head_ticket [of q] assms(3) by (simp add: of_nat_diff)
  have "diff (rb_seqs q ! pos C (rb_head q)) (rb_head q) < 0"
    unfolding diff_def d by (rule sint_of_neg) (use C in auto)
  then show ?thesis by (simp add: PushImpl_def push_loop.simps Let_def)
qed

lemma TryPop_some:
  assumes "ring_inv C q" "0 < filled q"
  shows "TryPop mv C q = Some (rb_buffer q ! pos C (rb_tail q), popped mv C q)"
  using inv_seq [OF assms(1), of 0] inv_lengths [OF assms(1)] assms(2)
  by (simp add: TryPop_def pop_loop.simps slot_0 diff_def Let_def popped_def)

lemma TryPop_none:
  assumes "capacity_ok C" "ring_inv C q" "filled q = 0"
  shows "TryPop mv C q = Some (None, q)"
proof -
  from assms(1) have "0 < C" by (auto elim: capacity_okE)
  with inv_seq [OF assms(2), of 0] assms(3)
  have "rb_seqs q ! pos C (rb_tail q) - (rb_tail q + 1) = - of_nat 1" by (simp add: slot_0)
  then have "diff (rb_seqs q ! pos C (rb_tail q)) (rb_tail q + 1) < 0"
    unfolding diff_def by (simp only:) (rule sint_of_neg, auto)
  then show ?thesis by (simp add: TryPop_def pop_loop.simps Let_def)
qed

lemma unat_Suc_small: "unat w < 2 ^ 63 \<Longrightarrow> unat (w + 1 :: size_t) = Suc (unat w)"
  by (simp add: unat_word_ariths)

lemma filled_pushed:
  assumes "capacity_ok C" "ring_inv C q"
  shows "filled (pushed C x q) = Suc (filled q)"
proof -
  have "filled (pushed C x q) = unat ((rb_head q - rb_tail q) + 1)"
    by (simp add: filled_def pushed_def algebra_simps)
  with unat_Suc_small [OF filled_less_width [OF assms, unfolded filled_def]] show ?thesis
    by (simp only: filled_def)
qed

lemma filled_popped:
  assumes "0 < filled q"
  shows "filled (popped mv C q) = filled q - 1"
proof -
  have "rb_head q - rb_tail q \<noteq> 0" using assms by (auto simp: filled_def)
  then have "unat ((rb_head q - rb_tail q) - 1) = unat (rb_head q - rb_tail q) - 1"
    by (rule unat_minus_one)
  moreover have "filled (popped mv C q) = unat ((rb_head q - rb_tail q) - 1)"
    by (simp add: filled_def popped_def algebra_simps)
  ultimately show ?thesis by (simp only: filled_def)
qed

lemma popped_sel:
  "rb_tail (popped mv C q) = rb_tail q + 1"
  "rb_head (popped mv C q) = rb_head q"
  "rb_seqs (popped mv C q) = (rb_seqs q)[slot C q 0 := rb_tail q + of_nat C]"
  "rb_buffer (popped mv C q) = (rb_buffer q)[slot C q 0 := map_option mv (rb_buffer q ! slot C q 0)]"
  by (simp_all add: popped_def slot_0)

lemma pushed_sel:
  "rb_tail (pushed C x q) = rb_tail q"
  "rb_head (pushed C x q) = rb_head q + 1"
  "rb_seqs (pushed C x q) = (rb_seqs q)[slot C q (filled q) := rb_head q + 1]"
  "rb_buffer (pushed C x q) = (rb_buffer q)[slot C q (filled q) := Some x]"
  by (simp_all add: pushed_def slot_head)

lemma slot_pushed: "slot C (pushed C x q) i = slot C q i"
  by (simp add: slot_def pushed_def)

lemma slot_popped: "slot C (popped mv C q) i = slot C q (Suc i)"
  by (simp add: slot_def popped_def add.assoc)

lemma ring_inv_pushed:
  assumes "capacity_ok C" "ring_inv C q" "filled q < C"
  shows "ring_inv C (pushed C x q)"
  unfolding ring_inv_def
proof (intro conjI allI impI)
  show "length (rb_buffer (pushed C x q)) = C" "length (rb_seqs (pushed C x q)) = C"
    "filled (pushed C x q) \<le> C"
    using inv_lengths [OF assms(2)] assms(3) filled_pushed [OF assms(1,2)]
    by (auto simp: pushed_sel)
next
  fix i assume i: "i < C"
  show "rb_seqs (pushed C x q) ! slot C (pushed C x q) i =
          rb_tail (pushed C x q) + of_nat i + (if i < filled (pushed C x q) then 1 else 0)"
    using inv_seq [OF assms(2) i] slot_inj [OF assms(1) assms(3) i, of q]
      slot_less [OF assms(1), of q i] inv_lengths [OF assms(2)] head_ticket [of q]
    by (auto simp: slot_pushed filled_pushed [OF assms(1,2)] pushed_sel nth_list_update)
next
  fix i assume i: "i < C" "i < filled (pushed C x q)"
  then show "rb_buffer (pushed C x q) ! slot C (pushed C x q) i \<noteq> None"
    using inv_full [OF assms(2), of i] slot_inj [OF assms(1) assms(3) i(1), of q]
      slot_less [OF assms(1), of q i] inv_lengths [OF assms(2)]
    by (auto simp: slot_pushed filled_pushed [OF assms(1,2)] pushed_sel nth_list_update
        less_Suc_eq)
qed

lemma content_pushed:
  assumes "capacity_ok C" "ring_inv C q" "filled q < C"
  shows "content C (pushed C x q) = content C q @ [x]"
proof (rule nth_equalityI)
  show "length (content C (pushed C x q)) = length (content C q @ [x])"
    by (simp add: filled_pushed [OF assms(1,2)])
next
  fix i assume "i < length (content C (pushed C x q))"
  then have "i \<le> filled q" by (simp add: filled_pushed [OF assms(1,2)])
  moreover from this assms(3) have "i < C" by simp
  ultimately show "content C (pushed C x q) ! i = (content C q @ [x]) ! i"
    using slot_inj [OF assms(1) assms(3), of i q] slot_less [OF assms(1), of q i]
      inv_lengths [OF assms(2)] filled_pushed [OF assms(1,2), of x]
    by (auto simp: content_def slot_pushed pushed_sel nth_list_update nth_append
        simp del: upt_Suc)
qed

lemma ring_inv_popped:
  assumes "capacity_ok C" "ring_inv C q" "0 < filled q"
  shows "ring_inv C (popped mv C q)"
  unfolding ring_inv_def
proof (intro conjI allI impI)
  show "length (rb_buffer (popped mv C q)) = C" "length (rb_seqs (popped mv C q)) = C"
    "filled (popped mv C q) \<le> C"
    using inv_lengths [OF assms(2)] filled_popped [OF assms(3)] by (auto simp: popped_sel)
next
  fix i assume i: "i < C"
  show "rb_seqs (popped mv C q) ! slot C (popped mv C q) i =
          rb_tail (popped mv C q) + of_nat i + (if i < filled (popped mv C q) then 1 else 0)"
  proof (cases "Suc i < C")
    case True
    from assms(1) have "0 < C" by (auto elim: capacity_okE)
    with slot_inj [OF assms(1) _ True, of 0 q] have ne: "slot C q 0 \<noteq> slot C q (Suc i)" by simp
    from inv_seq [OF assms(2) True] ne assms(3) show ?thesis
      by (auto simp: slot_popped filled_popped [OF assms(3)] popped_sel
          add.assoc add.left_commute)
  next
    case False
    with i have C: "C = Suc i" by simp
    have "rb_seqs (popped mv C q) ! slot C q (Suc i) = rb_tail q + of_nat C"
      using slot_wrap [OF assms(1), of q] slot_less [OF assms(1), of q 0] inv_lengths [OF assms(2)]
      unfolding C [symmetric] by (simp add: popped_sel)
    moreover have "\<not> i < filled (popped mv C q)"
      using inv_lengths [OF assms(2)] filled_popped [OF assms(3)] assms(3) C by auto
    ultimately show ?thesis using C by (simp add: slot_popped) (simp add: popped_sel)
  qed
next
  fix i assume i: "i < C" "i < filled (popped mv C q)"
  then have "Suc i < filled q" using filled_popped [OF assms(3)] assms(3) by auto
  moreover from this inv_lengths [OF assms(2)] have "Suc i < C" "0 < C" by auto
  ultimately show "rb_buffer (popped mv C q) ! slot C (popped mv C q) i \<noteq> None"
    using inv_full [OF assms(2), of "Suc i"] slot_inj [OF assms(1), of 0 "Suc i" q]
    by (auto simp: slot_popped popped_sel)
qed

lemma content_popped:
  assumes "capacity_ok C" "ring_inv C q" "content C q = x # xs"
  shows "content C (popped mv C q) = xs" and "rb_buffer q ! pos C (rb_tail q) = Some x"
proof -
  from assms(3) have n: "filled q = Suc (length xs)" by (metis length_content length_Cons)
  have "content C q ! 0 = x" using assms(3) by simp
  with n inv_full [OF assms(2), of 0] show "rb_buffer q ! pos C (rb_tail q) = Some x"
    by (auto simp: content_def slot_0 simp del: upt_Suc)
  have "content C (popped mv C q) = tl (content C q)"
  proof (rule nth_equalityI)
    show "length (content C (popped mv C q)) = length (tl (content C q))"
      using n by (simp add: filled_popped)
  next
    fix i assume "i < length (content C (popped mv C q))"
    then have "Suc i < filled q" using n by (simp add: filled_popped)
    moreover from this inv_lengths [OF assms(2)] have "Suc i < C" "0 < C" by auto
    ultimately show "content C (popped mv C q) ! i = tl (content C q) ! i"
      using slot_inj [OF assms(1), of 0 "Suc i" q] n
      by (auto simp: content_def nth_tl slot_popped filled_popped popped_sel
          simp del: upt_Suc)
  qed
  with assms(3) show "content C (popped mv C q) = xs" by simp
qed

lemma ring_inv_new: "capacity_ok C \<Longrightarrow> ring_inv C (new_ring C)"
  by (auto simp: ring_inv_def new_ring_def filled_def slot_def pos_mod unat_of_nat
      elim!: capacity_okE)

lemma content_new: "content C (new_ring C) = []"
  by (simp add: content_def filled_def new_ring_def)


section \<open>The queue contract\<close>

lemma room_cases:
  assumes "capacity_ok C \<and> ring_inv C q"
  obtains (full) "filled q = C" | (room) "filled q < C"
  using assms inv_lengths [of C q] by (cases "filled q = C") auto

interpretation ring: bounded_queue "content C" "\<lambda>q. capacity_ok C \<and> ring_inv C q" C
  "\<lambda>x q. the (PushImpl C x q)" "\<lambda>q. the (TryPop mv C q)" for C mv
proof (unfold_locales, goal_cases)
  case (1 q x)
  from 1 show ?case
    by (cases rule: room_cases)
      (use 1 in \<open>auto simp: PushImpl_full PushImpl_room ring_inv_pushed\<close>)
next
  case (2 q)
  then show ?case
    by (cases "filled q = 0") (auto simp: TryPop_none TryPop_some ring_inv_popped)
next
  case (3 q x)
  then show ?case by (auto simp: PushImpl_room content_pushed)
next
  case (4 q x)
  then show ?case by (auto simp: PushImpl_full)
next
  case (5 q)
  then show ?case by (auto dest: inv_lengths)
next
  case (6 q)
  then have "filled q = 0" by (metis length_content list.size(3))
  with 6 show ?case by (auto simp: TryPop_none)
next
  case (7 q x xs)
  then have "0 < filled q" by (metis length_content length_Cons zero_less_Suc)
  with 7 content_popped(1) [of C q x xs mv] content_popped(2) [of C q x xs] show ?case by (auto simp: TryPop_some)
qed

lemma PushImpl_returns:
  "capacity_ok C \<and> ring_inv C q \<Longrightarrow> PushImpl C x q = Some (the (PushImpl C x q))"
  by (cases rule: room_cases) (auto simp: PushImpl_full PushImpl_room)

lemma TryPop_returns:
  "capacity_ok C \<and> ring_inv C q \<Longrightarrow> TryPop mv C q = Some (the (TryPop mv C q))"
  by (cases "filled q = 0") (auto simp: TryPop_none TryPop_some)

fun push_list :: "nat \<Rightarrow> 'a list \<Rightarrow> 'a ring \<Rightarrow> 'a ring option" where
  "push_list C [] q = Some q"
| "push_list C (x # xs) q =
     (case PushImpl C x q of None \<Rightarrow> None | Some (_, q') \<Rightarrow> push_list C xs q')"

lemma push_list_run:
  "capacity_ok C \<and> ring_inv C q \<Longrightarrow> push_list C xs q = Some (ring.push_all C xs q)"
proof (induction xs arbitrary: q)
  case Nil
  then show ?case by simp
next
  case (Cons x xs)
  from Cons.IH [OF ring.inv_push [OF Cons.prems, of x]] PushImpl_returns [OF Cons.prems, of x]
  show ?case by (cases "the (PushImpl C x q)") auto
qed

lemma TryPopBatch_run:
  "capacity_ok C \<and> ring_inv C q \<Longrightarrow> TryPopBatch mv C n q = Some (ring.pop_n mv C n q)"
proof (induction n arbitrary: q)
  case 0
  then show ?case by simp
next
  case (Suc n)
  note ih = Suc.IH [OF ring.inv_pop [OF Suc.prems, of mv]]
  obtain o' q' where "the (TryPop mv C q) = (o', q')" by (cases "the (TryPop mv C q)")
  with ih TryPop_returns [OF Suc.prems, of mv] show ?case
    by (cases o') (auto simp: case_prod_beta Let_def)
qed

section \<open>Reading without removing\<close>

lemma unat_index: "i < 2 ^ 64 \<Longrightarrow> unat (of_nat i :: size_t) = i"
  by (simp add: unat_of_nat)

lemma PeekAt_content:
  assumes "capacity_ok C" "ring_inv C q" "rb_tail q \<le> rb_head q" "i < 2 ^ 64"
  shows "PeekAt C (of_nat i) q = (if i < filled q then Some (content C q ! i) else None)"
proof (cases "i < filled q")
  case True
  moreover from this inv_lengths [OF assms(2)] have "i < C" by simp
  ultimately show ?thesis
    using leD [OF assms(3)] inv_seq [OF assms(2), of i] inv_full [OF assms(2) True] unat_index [OF assms(4)]
    by (auto simp: PeekAt_def Let_def slot_def diff_def content_def word_le_nat_alt filled_def)
next
  case False
  then have "rb_head q - rb_tail q \<le> of_nat i"
    using unat_index [OF assms(4)] by (simp add: word_le_nat_alt filled_def)
  with False show ?thesis by (simp add: PeekAt_def)
qed

lemma Size_filled: "rb_tail q \<le> rb_head q \<Longrightarrow> unat (Size q) = filled q"
  by (simp add: Size_def filled_def)


text \<open>
  What the difference of two tickets is, as long as no ticket has reached the sign bit.
\<close>

lemma diff_exact:
  assumes "unat a < 2 ^ 63" "unat b < 2 ^ 63"
  shows "diff a b = int (unat a) - int (unat b)" and "diff a b = sint a - sint b"
proof -
  have r: "sint (word_of_int i :: size_t) = i" if "- (2 ^ 63) \<le> i" "i < 2 ^ 63" for i
    using that by (simp only: sint_sbintrunc') (simp add: signed_take_bit_int_eq_self)
  have b: "0 \<le> int (unat a)" "0 \<le> int (unat b)"
    "int (unat a) < int (2 ^ 63)" "int (unat b) < int (2 ^ 63)"
    using assms by (simp_all only: of_nat_less_iff of_nat_0_le_iff)
  have u: "0 \<le> uint a" "uint a < 2 ^ 63" "0 \<le> uint b" "uint b < 2 ^ 63"
    using b by simp_all
  have "diff a b = sint (word_of_int (uint a - uint b) :: size_t)"
    by (simp add: diff_def)
  also have "\<dots> = uint a - uint b" by (rule r) (use u in linarith)+
  finally show e: "diff a b = int (unat a) - int (unat b)" by simp
  have s: "sint a = int (unat a)" "sint b = int (unat b)"
    using r [of "uint a"] r [of "uint b"] u by auto
  show "diff a b = sint a - sint b" by (simp only: e s)
qed

section \<open>Properties\<close>



text \<open>
  Pushing any sequence into an empty buffer and popping a batch gives the first elements in
  the order they came, at most \<open>Capacity\<close> of them; no loop spins.
\<close>

theorem ring_batch_fifo:
  assumes "capacity_ok C"
  shows "\<exists>q q'. push_list C xs (new_ring C) = Some q \<and>
                TryPopBatch mv C n q = Some (take n (take C xs), q')"
proof -
  have inv: "capacity_ok C \<and> ring_inv C (new_ring C)" by (simp add: assms ring_inv_new)
  have "fst (ring.pop_n mv C n (ring.push_all C xs (new_ring C))) = take n (take C xs)"
    by (rule ring.fifo [OF inv content_new])
  with push_list_run [OF inv, of xs] TryPopBatch_run [OF ring.inv_push_all [OF inv, of xs], of mv n]
  show ?thesis by (metis prod.collapse)
qed

lemma ring_batch_fifo_witness:
  "\<exists>q q'. push_list 2 [1, 2, 3 :: nat] (new_ring 2) = Some q \<and> TryPopBatch id 2 5 q = Some ([1, 2], q')"
proof -
  have "capacity_ok 2" by (auto simp: capacity_ok_def intro: exI [of _ 1])
  from ring_batch_fifo [OF this, of "[1, 2, 3 :: nat]" id 5] show ?thesis
    by (simp only: take_Cons_numeral take_Suc_Cons) simp
qed

text \<open>
  The class accepts \<open>Capacity = 1\<close>, but then a published slot (\<open>seq = head\<close>) looks free to the
  next \<open>Push\<close>: it overwrites the unread element although the buffer is full, and afterwards
  \<open>TryPop\<close> retries for ever.
\<close>


lemma pop_loop_sign:
  assumes "pop_loop mv C t q = Some r"
  shows "t = rb_tail q \<longrightarrow> diff (rb_seqs q ! pos C t) (t + 1) \<le> 0"
  using assms
  by (rule pop_loop.raw_induct
        [of "\<lambda>mv C t q r. t = rb_tail q \<longrightarrow> diff (rb_seqs q ! pos C t) (t + 1) \<le> 0", rotated])
     (auto simp: Let_def split: if_splits)

lemma TryPop_stuck:
  "diff (rb_seqs q ! pos C (rb_tail q)) (rb_tail q + 1) > 0 \<Longrightarrow> TryPop mv C q = None"
  using pop_loop_sign [of mv C "rb_tail q" q] by (cases "TryPop mv C q") (auto simp: TryPop_def)

theorem capacity_one_overwrites:
  "\<exists>q1 q2. PushImpl 1 x (new_ring 1) = Some (True, q1) \<and> PushImpl 1 y q1 = Some (True, q2) \<and>
           rb_buffer q2 = [Some y] \<and> Size q2 = 2 \<and> TryPop mv 1 q2 = None"
  by (simp add: PushImpl_def push_loop.simps new_ring_def pos_def diff_def Let_def Size_def
      TryPop_stuck)

text \<open>
  While the head ticket has not wrapped, the read-only operations see the contents:
  \<open>Size\<close> and \<open>Empty\<close> count them, \<open>PeekAt i\<close> is the \<open>i\<close>-th oldest element or nothing,
  \<open>PeekFront\<close> is what \<open>TryPop\<close> would return and \<open>PeekLatest\<close> the newest element.
\<close>

theorem ring_peek:
  assumes "capacity_ok C" and "ring_inv C q" and "rb_tail q \<le> rb_head q" and "i < 2 ^ 64"
  shows "unat (Size q) = length (content C q) \<and>
    (Empty q \<longleftrightarrow> content C q = []) \<and>
    PeekAt C (of_nat i) q =
      (if i < length (content C q) then Some (content C q ! i) else None) \<and>
    PeekFront C q = (case TryPop id C q of Some (y, _) \<Rightarrow> y | None \<Rightarrow> None) \<and>
    PeekLatest C q = (if content C q = [] then None else Some (last (content C q)))"
proof (intro conjI)
  from assms have inv: "capacity_ok C" "ring_inv C q" "rb_tail q \<le> rb_head q" by auto
  note peek = PeekAt_content [OF inv]
  have nil: "content C q = [] \<longleftrightarrow> filled q = 0" by (metis length_0_conv length_content)
  show sz: "unat (Size q) = length (content C q)" using Size_filled [OF inv(3)] by simp
  show "Empty q \<longleftrightarrow> content C q = []"
    using sz by (metis Empty_def length_0_conv unat_eq_zero)
  show "PeekAt C (of_nat i) q =
      (if i < length (content C q) then Some (content C q ! i) else None)"
    using peek [OF assms(4)] by simp
  show "PeekFront C q = (case TryPop id C q of Some (y, _) \<Rightarrow> y | None \<Rightarrow> None)"
  proof (cases "filled q = 0")
    case True
    with peek [of 0] show ?thesis by (simp add: PeekFront_def TryPop_none [OF inv(1,2)])
  next
    case False
    then obtain y ys where c: "content C q = y # ys" using nil by (cases "content C q") auto
    from content_popped(2) [OF inv(1,2) c] peek [of 0] False c show ?thesis
      by (simp add: PeekFront_def TryPop_some [OF inv(2)])
  qed
  show "PeekLatest C q = (if content C q = [] then None else Some (last (content C q)))"
  proof (cases "filled q = 0")
    case True
    then have "rb_head q = rb_tail q"
      unfolding filled_def by (metis eq_iff_diff_eq_0 unat_eq_zero)
    with True show ?thesis by (simp add: PeekLatest_def nil)
  next
    case False
    then have ne: "rb_head q \<noteq> rb_tail q" by (auto simp: filled_def)
    have i: "rb_head q - rb_tail q - 1 = of_nat (filled q - 1)"
      using False by (simp add: of_nat_diff filled_def)
    have "filled q - 1 < 2 ^ 64" using filled_less_width [OF inv(1,2)] by simp
    from peek [OF this] False ne inv(3) show ?thesis
      by (auto simp: PeekLatest_def i nil last_conv_nth order_le_less)
  qed
qed

lemma ring_peek_witness:
  "unat (Size (pushed 4 (9 :: nat) (new_ring 4))) = 1 \<and>
   PeekFront 4 (pushed 4 (9 :: nat) (new_ring 4)) = Some 9"
proof -
  have c: "capacity_ok 4" by (auto simp: capacity_ok_def intro: exI [of _ 2])
  have e: "filled (new_ring 4 :: nat ring) = 0" by (simp add: filled_def new_ring_def)
  let ?q = "pushed 4 (9 :: nat) (new_ring 4)"
  have inv: "ring_inv 4 ?q" and con: "content 4 ?q = [9]"
    using ring_inv_pushed [OF c ring_inv_new [OF c], of "9 :: nat"]
      content_pushed [OF c ring_inv_new [OF c], of "9 :: nat"] e
    by (simp_all add: content_new)
  have "rb_tail ?q \<le> rb_head ?q" by (simp add: pushed_sel new_ring_def)
  from ring_peek [OF c inv this, of 0] con TryPop_some [OF inv, of id] content_popped(2) [OF c inv con]
  show ?thesis by (simp add: filled_pushed [OF c ring_inv_new [OF c]])
qed

end
