(* ===== verification/LogStore.thy ===== *)
theory LogStore
  imports RingBuffer Errors TaskIds
begin

text \<open>
  The per-task log store (\<open>core/log_store.h\<close>, \<open>core/log_store.cc\<close>): one ring buffer and one
  counter of dropped entries per task, created on the first \<open>append\<close>. The two mutexes make each
  operation atomic; a run of the store is a list of operations. \<open>C\<close> is the template parameter
  \<open>Capacity\<close> (8192 in \<open>LogStore\<close>), \<open>None\<close> is a retry loop that never leaves.
\<close>

record log_entry =
  le_task :: task_id
  le_level :: log_level
  le_timestampMs :: int
  le_message :: qstring
  le_detail :: qstring

record per_task =
  pt_queue :: "log_entry ring"
  pt_dropped :: nat

type_synonym log_store = "(task_id \<times> per_task) list"

definition kLogStoreCapacity :: nat where
  "kLogStoreCapacity = 8192"

definition makeLogEntry :: "int \<Rightarrow> task_id \<Rightarrow> log_level \<Rightarrow> qstring \<Rightarrow> qstring \<Rightarrow> log_entry" where
  "makeLogEntry now tid level message detail =
     \<lparr> le_task = tid, le_level = level, le_timestampMs = now, le_message = message,
       le_detail = detail \<rparr>"

definition new_per_task :: "nat \<Rightarrow> per_task" where
  "new_per_task C = \<lparr> pt_queue = new_ring C, pt_dropped = 0 \<rparr>"

definition getOrCreate :: "nat \<Rightarrow> task_id \<Rightarrow> log_store \<Rightarrow> per_task \<times> log_store" where
  "getOrCreate C tid st =
     (case map_of st tid of
        Some p \<Rightarrow> (p, st)
      | None \<Rightarrow> (new_per_task C, AList.update tid (new_per_task C) st))"

definition log_append :: "nat \<Rightarrow> log_entry \<Rightarrow> log_store \<Rightarrow> log_store option" where
  "log_append C e st =
     (let (p, st') = getOrCreate C (le_task e) st in
      case PushImpl C e (pt_queue p) of
        None \<Rightarrow> None
      | Some (ok, q') \<Rightarrow>
          Some (AList.update (le_task e)
                 \<lparr> pt_queue = q', pt_dropped = (if ok then pt_dropped p else pt_dropped p + 1) \<rparr> st'))"

definition log_snapshot :: "nat \<Rightarrow> task_id \<Rightarrow> nat \<Rightarrow> log_store \<Rightarrow> log_entry list" where
  "log_snapshot C tid max_count st =
     (case map_of st tid of
        None \<Rightarrow> []
      | Some p \<Rightarrow>
          List.map_filter (\<lambda>i. PeekAt C (of_nat i) (pt_queue p))
            [0..<min max_count (unat (Size (pt_queue p)))])"

definition droppedCount :: "task_id \<Rightarrow> log_store \<Rightarrow> nat" where
  "droppedCount tid st = (case map_of st tid of None \<Rightarrow> 0 | Some p \<Rightarrow> pt_dropped p)"

partial_function (option) drain :: "nat \<Rightarrow> (log_entry \<Rightarrow> log_entry) \<Rightarrow> log_entry ring \<Rightarrow> log_entry ring option" where
  "drain C mv q =
     (case TryPop mv C q of
        None \<Rightarrow> None
      | Some (None, q') \<Rightarrow> Some q'
      | Some (Some _, q') \<Rightarrow> drain C mv q')"

definition log_clear :: "nat \<Rightarrow> (log_entry \<Rightarrow> log_entry) \<Rightarrow> task_id \<Rightarrow> log_store \<Rightarrow> log_store option" where
  "log_clear C mv tid st =
     (case map_of st tid of
        None \<Rightarrow> Some st
      | Some p \<Rightarrow>
          (case drain C mv (pt_queue p) of
             None \<Rightarrow> None
           | Some q' \<Rightarrow> Some (AList.update tid \<lparr> pt_queue = q', pt_dropped = 0 \<rparr> st)))"

datatype log_op = Append log_entry | Clear task_id

fun log_step :: "nat \<Rightarrow> (log_entry \<Rightarrow> log_entry) \<Rightarrow> log_op \<Rightarrow> log_store \<Rightarrow> log_store option" where
  "log_step C mv (Append e) st = log_append C e st"
| "log_step C mv (Clear tid) st = log_clear C mv tid st"

fun log_run :: "nat \<Rightarrow> (log_entry \<Rightarrow> log_entry) \<Rightarrow> log_op list \<Rightarrow> log_store \<Rightarrow> log_store option" where
  "log_run C mv [] st = Some st"
| "log_run C mv (opn # ops) st =
     (case log_step C mv opn st of None \<Rightarrow> None | Some st' \<Rightarrow> log_run C mv ops st')"

section \<open>The promise: per task, the oldest entries and a count of the rest\<close>

fun op_key :: "log_op \<Rightarrow> task_id" where
  "op_key (Append e) = le_task e"
| "op_key (Clear tid) = tid"

type_synonym task_log = "log_entry list \<times> nat"

fun task_log_step :: "nat \<Rightarrow> log_op \<Rightarrow> task_log option \<Rightarrow> task_log option" where
  "task_log_step C (Append e) None = Some ([e], 0)"
| "task_log_step C (Append e) (Some (es, d)) =
     Some (if length es < C then (es @ [e], d) else (es, d + 1))"
| "task_log_step C (Clear _) None = None"
| "task_log_step C (Clear _) (Some _) = Some ([], 0)"

definition spec_step :: "nat \<Rightarrow> log_op \<Rightarrow> (task_id \<Rightarrow> task_log option) \<Rightarrow> task_id \<Rightarrow> task_log option" where
  "spec_step C opn m = m(op_key opn := task_log_step C opn (m (op_key opn)))"

interpretation logs: keyed_machine "\<lambda>m k. m k" "spec_step C" op_key "task_log_step C" for C
  by unfold_locales (simp add: spec_step_def)

definition abs_task :: "nat \<Rightarrow> per_task \<Rightarrow> task_log" where
  "abs_task C p = (content C (pt_queue p), pt_dropped p)"

definition abs_store :: "nat \<Rightarrow> log_store \<Rightarrow> task_id \<Rightarrow> task_log option" where
  "abs_store C st tid = map_option (abs_task C) (map_of st tid)"

text \<open>\<open>m\<close> bounds the tickets given out, so that none of them wraps.\<close>

definition ring_ok :: "nat \<Rightarrow> nat \<Rightarrow> 'a ring \<Rightarrow> bool" where
  "ring_ok C m q \<longleftrightarrow> ring_inv C q \<and> rb_tail q \<le> rb_head q \<and> unat (rb_head q) \<le> m"

definition store_ok :: "nat \<Rightarrow> nat \<Rightarrow> log_store \<Rightarrow> bool" where
  "store_ok C m st \<longleftrightarrow> (\<forall>tid p. map_of st tid = Some p \<longrightarrow> ring_ok C m (pt_queue p))"

lemma ring_ok_mono: "ring_ok C m q \<Longrightarrow> m \<le> n \<Longrightarrow> ring_ok C n q"
  by (auto simp: ring_ok_def)

lemma ring_ok_new: "capacity_ok C \<Longrightarrow> ring_ok C m (new_ring C)"
  by (simp add: ring_ok_def ring_inv_new) (simp add: new_ring_def)

lemma ring_ok_pushed:
  assumes "capacity_ok C" "ring_ok C m q" "filled q < C" "m < 2 ^ 63"
  shows "ring_ok C (Suc m) (pushed C x q)"
proof -
  have "unat (rb_head q + 1) = Suc (unat (rb_head q))"
    using assms(2,4) by (intro unat_Suc_small) (auto simp: ring_ok_def)
  with assms ring_inv_pushed [OF assms(1) _ assms(3), of x] show ?thesis
    by (simp add: ring_ok_def pushed_sel word_le_nat_alt)
qed

lemma ring_ok_popped:
  assumes "capacity_ok C" "ring_ok C m q" "0 < filled q"
  shows "ring_ok C m (popped mv C q)"
proof -
  have "rb_tail q \<noteq> rb_head q" using assms(3) by (auto simp: filled_def)
  with assms(2) have "rb_tail q < rb_head q" by (simp add: ring_ok_def order_less_le)
  then have "rb_tail q + 1 \<le> rb_head q" by (rule inc_le)
  with assms ring_inv_popped [OF assms(1) _ assms(3), of mv] show ?thesis
    by (simp add: ring_ok_def popped_sel)
qed

lemma drain_empties:
  assumes "capacity_ok C" "ring_ok C m q"
  shows "\<exists>q'. drain C mv q = Some q' \<and> ring_ok C m q' \<and> content C q' = []"
  using assms(2)
proof (induction "filled q" arbitrary: q)
  case 0
  then have "TryPop mv C q = Some (None, q)" and "content C q = []"
    using TryPop_none [OF assms(1), of q mv] by (auto simp: ring_ok_def content_def)
  with 0 show ?case by (auto simp: drain.simps)
next
  case (Suc n)
  then have pos: "0 < filled q" by simp
  obtain y where "rb_buffer q ! pos C (rb_tail q) = Some y"
    using inv_full [of C q 0] Suc.prems pos by (auto simp: ring_ok_def slot_0)
  with TryPop_some [of C q mv] Suc.prems pos
  have "TryPop mv C q = Some (Some y, popped mv C q)" by (simp add: ring_ok_def)
  moreover have "n = filled (popped mv C q)" using filled_popped [OF pos] Suc.hyps(2) by simp
  ultimately show ?case
    using Suc.hyps(1) [OF _ ring_ok_popped [OF assms(1) Suc.prems pos]] by (simp add: drain.simps)
qed


lemma abs_store_update:
  "abs_store C (AList.update tid p st) = (abs_store C st)(tid := Some (abs_task C p))"
  by (auto simp: abs_store_def update_conv')

lemma store_ok_update:
  "store_ok C m st \<Longrightarrow> m \<le> n \<Longrightarrow> ring_ok C n (pt_queue p) \<Longrightarrow> store_ok C n (AList.update tid p st)"
  by (auto simp: store_ok_def update_conv' intro: ring_ok_mono)

text \<open>One append to the queue of a task, against the promise for that task.\<close>

definition after_append :: "nat \<Rightarrow> log_entry \<Rightarrow> per_task \<Rightarrow> per_task option" where
  "after_append C e p =
     map_option (\<lambda>(ok, q').
         \<lparr> pt_queue = q', pt_dropped = (if ok then pt_dropped p else pt_dropped p + 1) \<rparr>)
       (PushImpl C e (pt_queue p))"

lemma after_append_refines:
  assumes "capacity_ok C" "ring_ok C m (pt_queue p)" "m < 2 ^ 63"
  shows "\<exists>p'. after_append C e p = Some p' \<and> ring_ok C (Suc m) (pt_queue p') \<and>
              Some (abs_task C p') = task_log_step C (Append e) (Some (abs_task C p))"
proof -
  from assms have inv: "capacity_ok C \<and> ring_inv C (pt_queue p)" by (simp add: ring_ok_def)
  then show ?thesis
  proof (cases rule: room_cases)
    case full
    with inv assms ring_ok_mono [OF assms(2), of "Suc m"] show ?thesis
      by (simp add: after_append_def PushImpl_full abs_task_def)
  next
    case room
    with inv assms ring_ok_pushed [OF assms(1,2) room assms(3), of e] show ?thesis
      by (simp add: after_append_def PushImpl_room abs_task_def content_pushed)
  qed
qed

lemma log_append_unfold:
  "log_append C e st =
     (case map_of st (le_task e) of
        Some p \<Rightarrow> map_option (\<lambda>p'. AList.update (le_task e) p' st) (after_append C e p)
      | None \<Rightarrow> map_option (\<lambda>p'. AList.update (le_task e) p'
                  (AList.update (le_task e) (new_per_task C) st)) (after_append C e (new_per_task C)))"
  by (auto simp: log_append_def getOrCreate_def after_append_def map_option_case
      split: option.splits)

lemma log_step_refines:
  assumes "capacity_ok C" "store_ok C m st" "m < 2 ^ 63"
  shows "\<exists>st'. log_step C mv opn st = Some st' \<and> store_ok C (Suc m) st' \<and>
               abs_store C st' = spec_step C opn (abs_store C st)"
proof (cases opn)
  case (Append e)
  let ?p = "case map_of st (le_task e) of Some p \<Rightarrow> p | None \<Rightarrow> new_per_task C"
  have "0 < C" using assms(1) by (auto elim: capacity_okE)
  have "ring_ok C m (pt_queue ?p)"
    using assms ring_ok_new [OF assms(1)]
    by (auto simp: store_ok_def new_per_task_def split: option.splits)
  from after_append_refines [OF assms(1) this assms(3), of e] obtain p' where
    p': "after_append C e ?p = Some p'" "ring_ok C (Suc m) (pt_queue p')"
      "Some (abs_task C p') = task_log_step C (Append e) (Some (abs_task C ?p))" by blast
  have st0: "store_ok C m (AList.update (le_task e) (new_per_task C) st)"
    by (intro store_ok_update [OF assms(2)])
      (simp_all add: ring_ok_new [OF assms(1)] new_per_task_def)
  show ?thesis
  proof (cases "map_of st (le_task e)")
    case None
    with p' \<open>0 < C\<close> have "abs_task C p' = ([e], 0)"
      by (simp add: abs_task_def new_per_task_def content_new)
    with None p' Append store_ok_update [OF st0, of "Suc m" p' "le_task e"] show ?thesis
      by (simp add: log_append_unfold abs_store_update spec_step_def)
         (simp add: abs_store_def)
  next
    case (Some p)
    with p' Append store_ok_update [OF assms(2), of "Suc m" p' "le_task e"] show ?thesis
      by (simp add: log_append_unfold abs_store_update spec_step_def)
         (simp add: abs_store_def)
  qed
next
  case (Clear tid)
  show ?thesis
  proof (cases "map_of st tid")
    case None
    have "store_ok C (Suc m) st"
      using assms(2) ring_ok_mono [of C m _ "Suc m"] by (force simp: store_ok_def)
    with None Clear show ?thesis
      by (simp add: log_clear_def spec_step_def fun_eq_iff) (simp add: abs_store_def)
  next
    case (Some p)
    with assms(2) have "ring_ok C m (pt_queue p)" by (auto simp: store_ok_def)
    from drain_empties [OF assms(1) this, of mv] obtain q' where
      q': "drain C mv (pt_queue p) = Some q'" "ring_ok C m q'" "content C q' = []" by blast
    have "store_ok C (Suc m) (AList.update tid \<lparr> pt_queue = q', pt_dropped = 0 \<rparr> st)"
      using q'(2) by (intro store_ok_update [OF assms(2)]) (auto intro: ring_ok_mono)
    with Clear Some q' show ?thesis
      by (simp add: log_clear_def abs_store_update spec_step_def)
         (simp add: abs_store_def abs_task_def)
  qed
qed

lemma log_run_refines:
  assumes "capacity_ok C" "store_ok C m st" "m + length ops \<le> 2 ^ 63"
  shows "\<exists>st'. log_run C mv ops st = Some st' \<and> store_ok C (m + length ops) st' \<and>
               abs_store C st' = fold (spec_step C) ops (abs_store C st)"
  using assms(2,3)
proof (induction ops arbitrary: m st)
  case Nil
  then show ?case by simp
next
  case (Cons opn ops)
  then have "m < 2 ^ 63" by simp
  from log_step_refines [OF assms(1) Cons.prems(1) this, of mv opn] obtain st' where
    st': "log_step C mv opn st = Some st'" "store_ok C (Suc m) st'"
      "abs_store C st' = spec_step C opn (abs_store C st)" by blast
  from Cons.IH [OF st'(2)] Cons.prems(2) st' show ?case by simp
qed

lemma map_filter_nth:
  "n \<le> length xs \<Longrightarrow>
   List.map_filter (\<lambda>i. if i < length xs then Some (xs ! i) else None) [0..<n] = take n xs"
  by (induction n) (auto simp: map_filter_simps take_Suc_conv_app_nth map_filter_def)

lemma log_snapshot_abs:
  assumes "capacity_ok C" "store_ok C m st"
  shows "log_snapshot C tid mx st =
           take mx (case abs_store C st tid of None \<Rightarrow> [] | Some (es, _) \<Rightarrow> es)"
proof (cases "map_of st tid")
  case None
  then show ?thesis by (simp add: log_snapshot_def abs_store_def)
next
  case (Some p)
  with assms(2) have ok: "ring_inv C (pt_queue p)" "rb_tail (pt_queue p) \<le> rb_head (pt_queue p)"
    by (auto simp: store_ok_def ring_ok_def)
  let ?c = "content C (pt_queue p)" and ?n = "min mx (filled (pt_queue p))"
  have "List.map_filter (\<lambda>i. PeekAt C (of_nat i) (pt_queue p)) [0..<?n] =
        List.map_filter (\<lambda>i. if i < length ?c then Some (?c ! i) else None) [0..<?n]"
    using filled_less_width [OF assms(1) ok(1)]
    by (auto simp: map_filter_def PeekAt_content [OF assms(1) ok] intro!: map_cong filter_cong)
  also have "\<dots> = take ?n ?c" by (rule map_filter_nth) simp
  also have "\<dots> = take mx ?c" by (simp add: min_def)
  finally show ?thesis
    using Some Size_filled [OF ok(2)] by (simp add: log_snapshot_def abs_store_def abs_task_def)
qed

lemma droppedCount_abs:
  "droppedCount tid st = (case abs_store C st tid of None \<Rightarrow> 0 | Some (_, d) \<Rightarrow> d)"
  by (auto simp: droppedCount_def abs_store_def abs_task_def split: option.splits)

lemma task_log_appends:
  assumes "0 < C"
  shows "fold (task_log_step C) (map Append es) (Some (xs, d)) =
           Some (xs @ take (C - length xs) es, d + (length es - (C - length xs)))"
proof (induction es arbitrary: xs d)
  case Nil
  then show ?case by simp
next
  case (Cons e es)
  show ?case by (cases "length xs < C") (auto simp: Cons.IH take_Cons')
qed

section \<open>Properties\<close>

definition log_example :: "byte \<Rightarrow> int \<Rightarrow> log_entry" where
  "log_example b t = makeLogEntry t (uid b) lvInfo [] []"

text \<open>
  Any run of appends and clears of any tasks on a new store completes, and afterwards what
  \<open>snapshot\<close> and \<open>droppedCount\<close> report for a task is what the operations on that task alone
  produce, whatever the other tasks logged in between: the accepted entries in order and the
  number of entries that found the queue full.
\<close>

theorem log_store_refines:
  assumes "capacity_ok C" and "length ops \<le> 2 ^ 63"
  shows "\<exists>st. log_run C mv ops [] = Some st \<and>
     (\<forall>tid mx. (log_snapshot C tid mx st, droppedCount tid st) =
        (case fold (task_log_step C) (filter (\<lambda>opn. op_key opn = tid) ops) None of
           None \<Rightarrow> ([], 0) | Some (es, d) \<Rightarrow> (take mx es, d)))"
proof -
  have "store_ok C 0 []" by (simp add: store_ok_def)
  from log_run_refines [OF assms(1) this, of ops mv] assms(2) obtain st where
    st: "log_run C mv ops [] = Some st" "store_ok C (length ops) st"
      "abs_store C st = fold (spec_step C) ops (abs_store C [])" by auto
  have "abs_store C st tid = fold (task_log_step C) (filter (\<lambda>opn. op_key opn = tid) ops) None"
    for tid
    by (simp add: st(3) logs.look_run) (simp add: abs_store_def)
  with st(1) log_snapshot_abs [OF assms(1) st(2)] droppedCount_abs [of _ st C] show ?thesis
    by (auto split: option.splits)
qed

lemma log_store_refines_witness:
  "\<exists>st. log_run 2 id [Append (log_example 1 5), Clear (uid 1), Append (log_example 1 6)] [] = Some st"
proof -
  have "capacity_ok 2" by (auto simp: capacity_ok_def intro: exI [of _ 1])
  from log_store_refines [OF this,
      of "[Append (log_example 1 5), Clear (uid 1), Append (log_example 1 6)]" id]
  show ?thesis by auto
qed

text \<open>
  Appending \<open>n\<close> entries for one task, interleaved in any way with entries of other tasks,
  keeps the first \<open>Capacity\<close> of them in order and counts exactly the others as dropped: no entry
  is lost silently, and another task's flood drops nothing of this one.
\<close>

theorem log_store_keeps_or_counts:
  assumes "capacity_ok C" and "length es \<le> 2 ^ 63"
    and "filter (\<lambda>e. le_task e = tid) es = mine"
  shows "\<exists>st. log_run C mv (map Append es) [] = Some st \<and>
     log_snapshot C tid mx st = take mx (take C mine) \<and> droppedCount tid st = length mine - C"
proof -
  have "store_ok C 0 []" by (simp add: store_ok_def)
  from log_run_refines [OF assms(1) this, of "map Append es" mv] assms(2) obtain st where
    st: "log_run C mv (map Append es) [] = Some st" "store_ok C (length es) st"
      "abs_store C st = fold (spec_step C) (map Append es) (abs_store C [])" by auto
  have C: "0 < C" using assms(1) by (auto elim: capacity_okE)
  have "abs_store C st tid = fold (task_log_step C) (map Append mine) None"
    using assms(3) by (simp add: st(3) logs.look_run filter_map o_def) (simp add: abs_store_def)
  also have "\<dots> = (if mine = [] then None else Some (take C mine, length mine - C))"
  proof (cases mine)
    case (Cons e es)
    with C task_log_appends [OF C, of es "[e]" 0] show ?thesis by (simp add: take_Cons')
  qed simp
  finally show ?thesis
    using st log_snapshot_abs [OF assms(1) st(2), of tid mx] droppedCount_abs [of tid st C] by auto
qed

lemma log_store_keeps_or_counts_witness:
  "\<exists>st. log_run 2 id (map Append (map (log_example 1) [1, 2, 3])) [] = Some st \<and>
        log_snapshot 2 (uid 1) 9 st = map (log_example 1) [1, 2] \<and> droppedCount (uid 1) st = 1"
proof -
  have "capacity_ok 2" by (auto simp: capacity_ok_def intro: exI [of _ 1])
  from log_store_keeps_or_counts [OF this, of "map (log_example 1) [1, 2, 3]" "uid 1"
      "map (log_example 1) [1, 2, 3]" id 9]
  show ?thesis by (simp add: log_example_def makeLogEntry_def)
qed

end
