(* ===== verification/DownloadPipeline.thy ===== *)
theory DownloadPipeline
  imports RssTypes
begin

text \<open>
  The download queues between the RSS service and the session
  (\<open>app/rss_download_pipeline.cc\<close>) and the orchestrator that owns them
  (\<open>app/rss_download_orchestrator.cc\<close>). There are two lanes with the same code, one for magnets
  and one for torrent URLs: a FIFO queue, a counter of started items, a limit, and a flag that
  says that a pump is already posted to the UI event loop.

  \<open>ln_posted\<close> is the part of the event loop that belongs to the lane: the posted pumps, each with
  the start function it captured. The orchestrator passes two such functions: the one built in
  \<open>enqueue...\<close>, which checks for shutdown, and the one built in \<open>finish...\<close>, which does not.
  Items handed to the start handler and settlements handed to the settle handler are logged in
  \<open>ln_started\<close> and \<open>ln_settled\<close>.
\<close>

record magnet_item =
  mi_uri :: qstring
  mi_savePath :: qstring
  mi_settlement :: rss_settlement
  mi_skipInteractiveAdd :: bool
  mi_category :: qstring
  mi_tagsCsv :: qstring

record url_item =
  ui_url :: qstring
  ui_savePath :: qstring
  ui_referer :: qstring
  ui_settlement :: rss_settlement

datatype start_fn = FromEnqueue | FromFinish

record 'i lane =
  ln_queue :: "'i list"
  ln_inFlight :: int
  ln_maxInFlight :: int
  ln_scheduled :: bool
  ln_posted :: "start_fn list"
  ln_started :: "'i list"
  ln_settled :: "rss_settlement list"

definition new_lane :: "'i lane" where
  "new_lane =
     \<lparr> ln_queue = [], ln_inFlight = 0, ln_maxInFlight = 8, ln_scheduled = False, ln_posted = [],
       ln_started = [], ln_settled = [] \<rparr>"

record handlers =
  hd_settle :: bool
  hd_start :: bool
  hd_shuttingDown :: bool

section \<open>One lane\<close>

definition setMaxInFlight :: "int \<Rightarrow> 'i lane \<Rightarrow> 'i lane" where
  "setMaxInFlight n l = l\<lparr> ln_maxInFlight := max 1 n \<rparr>"

definition schedulePump :: "start_fn \<Rightarrow> 'i lane \<Rightarrow> 'i lane" where
  "schedulePump fn l =
     (if \<not> ln_scheduled l then l\<lparr> ln_scheduled := True, ln_posted := ln_posted l @ [fn] \<rparr> else l)"

definition enqueue :: "'i \<Rightarrow> start_fn \<Rightarrow> 'i lane \<Rightarrow> 'i lane" where
  "enqueue x fn l = schedulePump fn (l\<lparr> ln_queue := ln_queue l @ [x] \<rparr>)"

definition finish :: "start_fn \<Rightarrow> 'i lane \<Rightarrow> 'i lane" where
  "finish fn l = schedulePump fn (l\<lparr> ln_inFlight := max 0 (ln_inFlight l - 1) \<rparr>)"

definition pumpOnUi :: "'i lane \<Rightarrow> 'i option \<times> 'i lane" where
  "pumpOnUi l =
     (let l' = l\<lparr> ln_scheduled := False \<rparr> in
      if ln_inFlight l' \<ge> ln_maxInFlight l' \<or> ln_queue l' = [] then (None, l')
      else (Some (hd (ln_queue l')),
            l'\<lparr> ln_queue := tl (ln_queue l'), ln_inFlight := ln_inFlight l' + 1 \<rparr>))"

section \<open>The orchestrator's start functions\<close>

definition runStartFn ::
  "('i \<Rightarrow> rss_settlement) \<Rightarrow> handlers \<Rightarrow> start_fn \<Rightarrow> 'i \<Rightarrow> 'i lane \<Rightarrow> 'i lane" where
  "runStartFn settlement h fn x l =
     (case fn of
        FromEnqueue \<Rightarrow>
          if \<not> hd_shuttingDown h \<and> hd_start h then l\<lparr> ln_started := ln_started l @ [x] \<rparr>
          else finish FromFinish
                 (if hd_settle h then l\<lparr> ln_settled := ln_settled l @ [settlement x] \<rparr> else l)
      | FromFinish \<Rightarrow> if hd_start h then l\<lparr> ln_started := ln_started l @ [x] \<rparr> else l)"

definition runPosted :: "('i \<Rightarrow> rss_settlement) \<Rightarrow> handlers \<Rightarrow> 'i lane \<Rightarrow> 'i lane" where
  \<comment> \<open>the UI event loop takes the next posted pump of the lane\<close>
  "runPosted settlement h l =
     (case ln_posted l of
        [] \<Rightarrow> l
      | fn # rest \<Rightarrow>
          (case pumpOnUi (l\<lparr> ln_posted := rest \<rparr>) of
             (None, l') \<Rightarrow> l'
           | (Some x, l') \<Rightarrow> runStartFn settlement h fn x l'))"

section \<open>The two lanes of the pipeline\<close>

record pipeline =
  pl_magnet :: "magnet_item lane"
  pl_torrent :: "url_item lane"
  pl_handlers :: handlers

definition setMagnetMaxInFlight :: "int \<Rightarrow> pipeline \<Rightarrow> pipeline" where
  "setMagnetMaxInFlight n p = p\<lparr> pl_magnet := setMaxInFlight n (pl_magnet p) \<rparr>"

definition setRssTorrentMaxInFlight :: "int \<Rightarrow> pipeline \<Rightarrow> pipeline" where
  "setRssTorrentMaxInFlight n p = p\<lparr> pl_torrent := setMaxInFlight n (pl_torrent p) \<rparr>"

definition setHandlers :: "bool \<Rightarrow> bool \<Rightarrow> pipeline \<Rightarrow> pipeline" where
  "setHandlers settle start p =
     p\<lparr> pl_handlers := (pl_handlers p)\<lparr> hd_settle := settle, hd_start := start \<rparr> \<rparr>"

definition enqueueMagnet :: "magnet_item \<Rightarrow> pipeline \<Rightarrow> pipeline" where
  "enqueueMagnet x p = p\<lparr> pl_magnet := enqueue x FromEnqueue (pl_magnet p) \<rparr>"

definition enqueueRssTorrentUrl :: "url_item \<Rightarrow> pipeline \<Rightarrow> pipeline" where
  "enqueueRssTorrentUrl x p = p\<lparr> pl_torrent := enqueue x FromEnqueue (pl_torrent p) \<rparr>"

definition finishMagnet :: "pipeline \<Rightarrow> pipeline" where
  "finishMagnet p = p\<lparr> pl_magnet := finish FromFinish (pl_magnet p) \<rparr>"

definition finishRssTorrent :: "pipeline \<Rightarrow> pipeline" where
  "finishRssTorrent p = p\<lparr> pl_torrent := finish FromFinish (pl_torrent p) \<rparr>"

definition pumpMagnet :: "pipeline \<Rightarrow> pipeline" where
  "pumpMagnet p =
     p\<lparr> pl_magnet := runPosted mi_settlement (pl_handlers p) (pl_magnet p) \<rparr>"

definition pumpRssTorrent :: "pipeline \<Rightarrow> pipeline" where
  "pumpRssTorrent p =
     p\<lparr> pl_torrent := runPosted ui_settlement (pl_handlers p) (pl_torrent p) \<rparr>"

section \<open>What happens to a lane\<close>

text \<open>
  The events of a lane: an item arrives, the event loop runs the posted pump, a started item is
  finished (at most once each), the limit is set. \<open>arrived\<close> and \<open>finished\<close> record the history.
\<close>

record 'i run =
  rn_lane :: "'i lane"
  rn_arrived :: "'i list"
  rn_finished :: nat

inductive lane_step :: "('i \<Rightarrow> rss_settlement) \<Rightarrow> handlers \<Rightarrow> 'i run \<Rightarrow> 'i run \<Rightarrow> bool"
  for settlement h
where
  arrive: "lane_step settlement h r
             (r\<lparr> rn_lane := enqueue x FromEnqueue (rn_lane r), rn_arrived := rn_arrived r @ [x] \<rparr>)"
| ui: "ln_posted (rn_lane r) \<noteq> [] \<Longrightarrow>
       lane_step settlement h r (r\<lparr> rn_lane := runPosted settlement h (rn_lane r) \<rparr>)"
| complete: "rn_finished r < length (ln_started (rn_lane r)) \<Longrightarrow>
         lane_step settlement h r
           (r\<lparr> rn_lane := finish FromFinish (rn_lane r), rn_finished := Suc (rn_finished r) \<rparr>)"

inductive lane_reach :: "('i \<Rightarrow> rss_settlement) \<Rightarrow> handlers \<Rightarrow> int \<Rightarrow> 'i run \<Rightarrow> bool"
  for settlement h mx
where
  start: "lane_reach settlement h mx
            \<lparr> rn_lane = setMaxInFlight mx new_lane, rn_arrived = [], rn_finished = 0 \<rparr>"
| step: "lane_reach settlement h mx r \<Longrightarrow> lane_step settlement h r r' \<Longrightarrow>
         lane_reach settlement h mx r'"

definition lane_ok :: "int \<Rightarrow> 'i run \<Rightarrow> bool" where
  "lane_ok mx r \<longleftrightarrow>
     (let l = rn_lane r in
      ln_maxInFlight l = max 1 mx \<and>
      ln_posted l \<in> (if ln_scheduled l then {[FromEnqueue], [FromFinish]} else {[]}) \<and>
      rn_finished r \<le> length (ln_started l) \<and>
      ln_inFlight l = int (length (ln_started l)) - int (rn_finished r) \<and>
      ln_inFlight l \<le> ln_maxInFlight l \<and>
      rn_arrived r = ln_started l @ ln_queue l \<and> ln_settled l = [] \<and>
      (ln_queue l \<noteq> [] \<longrightarrow> ln_scheduled l \<or> 0 < ln_inFlight l))"

lemma lane_ok_start:
  "lane_ok mx \<lparr> rn_lane = setMaxInFlight mx new_lane, rn_arrived = [], rn_finished = 0 \<rparr>"
  by (simp add: lane_ok_def setMaxInFlight_def new_lane_def)

lemma lane_ok_step:
  assumes "lane_step settlement h r r'" "lane_ok mx r" "hd_start h" "\<not> hd_shuttingDown h"
  shows "lane_ok mx r'"
  using assms(1)
proof (cases rule: lane_step.cases)
  case (arrive x)
  with assms(2) show ?thesis
    by (auto simp: lane_ok_def enqueue_def schedulePump_def Let_def split: if_splits)
next
  case ui
  then obtain fn where p: "ln_posted (rn_lane r) = [fn]" "ln_scheduled (rn_lane r)"
    using assms(2) by (auto simp: lane_ok_def Let_def split: if_splits)
  show ?thesis
  proof (cases "ln_inFlight (rn_lane r) \<ge> ln_maxInFlight (rn_lane r) \<or> ln_queue (rn_lane r) = []")
    case True
    with ui p assms(2) show ?thesis
      by (auto simp: lane_ok_def runPosted_def pumpOnUi_def Let_def)
  next
    case False
    then obtain x q where q: "ln_queue (rn_lane r) = x # q" by (cases "ln_queue (rn_lane r)") auto
    with ui p False assms show ?thesis
      by (cases fn) (auto simp: lane_ok_def runPosted_def pumpOnUi_def runStartFn_def Let_def)
  qed
next
  case complete
  with assms(2) show ?thesis
    by (auto simp: lane_ok_def finish_def schedulePump_def Let_def split: if_splits)
qed

lemma lane_reach_ok:
  "lane_reach settlement h mx r \<Longrightarrow> hd_start h \<Longrightarrow> \<not> hd_shuttingDown h \<Longrightarrow> lane_ok mx r"
  by (induction rule: lane_reach.induct) (auto intro: lane_ok_start lane_ok_step)

section \<open>Draining\<close>

text \<open>
  A scheduler that runs the posted pump if there is one and otherwise finishes a started item;
  \<open>n\<close> bounds the number of steps.
\<close>

fun drain_run :: "('i \<Rightarrow> rss_settlement) \<Rightarrow> handlers \<Rightarrow> nat \<Rightarrow> 'i run \<Rightarrow> 'i run" where
  "drain_run settlement h 0 r = r"
| "drain_run settlement h (Suc n) r =
     (if ln_posted (rn_lane r) \<noteq> [] then
        drain_run settlement h n (r\<lparr> rn_lane := runPosted settlement h (rn_lane r) \<rparr>)
      else if rn_finished r < length (ln_started (rn_lane r)) then
        drain_run settlement h n
          (r\<lparr> rn_lane := finish FromFinish (rn_lane r), rn_finished := Suc (rn_finished r) \<rparr>)
      else r)"

definition work :: "'i run \<Rightarrow> nat" where
  "work r =
     3 * length (ln_queue (rn_lane r)) + 2 * (length (ln_started (rn_lane r)) - rn_finished r) +
     (if ln_scheduled (rn_lane r) then 1 else 0)"

lemma work_ui:
  assumes "lane_ok mx r" "ln_posted (rn_lane r) \<noteq> []" "hd_start h" "\<not> hd_shuttingDown h"
  shows "work (r\<lparr> rn_lane := runPosted settlement h (rn_lane r) \<rparr>) < work r"
proof -
  obtain fn where p: "ln_posted (rn_lane r) = [fn]" "ln_scheduled (rn_lane r)"
    using assms(1,2) by (auto simp: lane_ok_def Let_def split: if_splits)
  have f: "rn_finished r \<le> length (ln_started (rn_lane r))"
    using assms(1) by (simp add: lane_ok_def Let_def)
  show ?thesis
    using p f assms(3,4)
    by (cases fn; cases "ln_queue (rn_lane r)")
      (auto simp: work_def runPosted_def pumpOnUi_def runStartFn_def Let_def)
qed

lemma work_done:
  "rn_finished r < length (ln_started (rn_lane r)) \<Longrightarrow> \<not> ln_scheduled (rn_lane r) \<Longrightarrow>
   work (r\<lparr> rn_lane := finish FromFinish (rn_lane r), rn_finished := Suc (rn_finished r) \<rparr>) < work r"
  by (auto simp: work_def finish_def schedulePump_def)

lemma drain_run_ok:
  assumes "lane_ok mx r" "hd_start h" "\<not> hd_shuttingDown h" "work r \<le> n"
  shows "lane_ok mx (drain_run settlement h n r) \<and>
         ln_queue (rn_lane (drain_run settlement h n r)) = [] \<and>
         rn_arrived (drain_run settlement h n r) = rn_arrived r"
  using assms(1,4)
proof (induction n arbitrary: r)
  case 0
  then show ?case by (simp add: work_def)
next
  case (Suc n)
  have sched: "ln_posted (rn_lane r) = [] \<longleftrightarrow> \<not> ln_scheduled (rn_lane r)"
    using Suc.prems(1) by (auto simp: lane_ok_def Let_def split: if_splits)
  consider (ui) "ln_posted (rn_lane r) \<noteq> []"
    | (complete) "ln_posted (rn_lane r) = []" "rn_finished r < length (ln_started (rn_lane r))"
    | (idle) "ln_posted (rn_lane r) = []" "\<not> rn_finished r < length (ln_started (rn_lane r))"
    by blast
  then show ?case
  proof cases
    case ui
    let ?r = "r\<lparr> rn_lane := runPosted settlement h (rn_lane r) \<rparr>"
    have "lane_ok mx ?r"
      by (rule lane_ok_step [OF lane_step.ui [OF ui] Suc.prems(1) assms(2,3)])
    with Suc.IH [of ?r] work_ui [OF Suc.prems(1) ui assms(2,3), of settlement] Suc.prems(2) ui
    show ?thesis by simp
  next
    case complete
    let ?r = "r\<lparr> rn_lane := finish FromFinish (rn_lane r), rn_finished := Suc (rn_finished r) \<rparr>"
    have "lane_ok mx ?r"
      by (rule lane_ok_step [OF lane_step.complete [OF complete(2)] Suc.prems(1) assms(2,3)])
    with Suc.IH [of ?r] work_done [OF complete(2)] Suc.prems(2) complete sched show ?thesis by simp
  next
    case idle
    with sched Suc.prems(1) show ?thesis by (auto simp: lane_ok_def Let_def)
  qed
qed

section \<open>Properties\<close>


definition example_handlers :: handlers where
  "example_handlers = \<lparr> hd_settle = True, hd_start = True, hd_shuttingDown = False \<rparr>"

definition example_reach :: "nat run" where
  "example_reach =
     \<lparr> rn_lane = runPosted (\<lambda>_. \<lparr> st_item_id = [], st_record_save_path = [] \<rparr>) example_handlers
         (enqueue 8 FromEnqueue (enqueue 7 FromEnqueue (setMaxInFlight 2 new_lane))),
       rn_arrived = [7, 8], rn_finished = 0 \<rparr>"

lemma example_reaches:
  "lane_reach (\<lambda>_. \<lparr> st_item_id = [], st_record_save_path = [] \<rparr>) example_handlers 2 example_reach"
  (is "lane_reach ?s ?h 2 _")
proof -
  let ?r0 = "\<lparr> rn_lane = setMaxInFlight 2 new_lane, rn_arrived = [], rn_finished = 0 \<rparr> :: nat run"
  let ?r1 = "?r0\<lparr> rn_lane := enqueue 7 FromEnqueue (rn_lane ?r0), rn_arrived := rn_arrived ?r0 @ [7] \<rparr>"
  let ?r2 = "?r1\<lparr> rn_lane := enqueue 8 FromEnqueue (rn_lane ?r1), rn_arrived := rn_arrived ?r1 @ [8] \<rparr>"
  have "lane_reach ?s ?h 2 ?r2"
    by (rule lane_reach.step [OF lane_reach.step [OF lane_reach.start lane_step.arrive] lane_step.arrive])
  moreover have "ln_posted (rn_lane ?r2) \<noteq> []"
    by (simp add: enqueue_def schedulePump_def setMaxInFlight_def new_lane_def)
  ultimately have "lane_reach ?s ?h 2 (?r2\<lparr> rn_lane := runPosted ?s ?h (rn_lane ?r2) \<rparr>)"
    by (rule lane_reach.step [OF _ lane_step.ui])
  then show ?thesis by (simp add: example_reach_def)
qed




end
