(* ===== verification/TrackerCodec.thy ===== *)
theory TrackerCodec
  imports Prelude
begin

text \<open>
  The wire formats of the built-in HTTP tracker: percent decoding and query parameters
  (\<open>percentDecodeQueryValue\<close>, \<open>queryParamRaw\<close> in \<open>core/builtin_http_tracker.cc\<close>), the bencoded
  answers (\<open>core/bencode_minimal.cc\<close>), and the bind mode (\<open>core/network_util.cc\<close>).
\<close>

section \<open>Percent decoding\<close>

definition hex_nibble :: "byte \<Rightarrow> byte option" where
  "hex_nibble ch =
     (if 0x30 \<le> ch \<and> ch \<le> 0x39 then Some (ch - 0x30)
      else if 0x41 \<le> ch \<and> ch \<le> 0x46 then Some (ch - 0x41 + 10)
      else if 0x61 \<le> ch \<and> ch \<le> 0x66 then Some (ch - 0x61 + 10)
      else None)"

fun hex_pair :: "bytes \<Rightarrow> byte option" where
  "hex_pair (h # l # _) =
     (case (hex_nibble h, hex_nibble l) of
        (Some hi, Some lo) \<Rightarrow> Some (push_bit 4 hi OR lo)
      | _ \<Rightarrow> None)"
| "hex_pair _ = None"

function percentDecodeQueryValue :: "bytes \<Rightarrow> bytes" where
  "percentDecodeQueryValue [] = []"
| "percentDecodeQueryValue (c # cs) =
     (case (if c = 0x25 then hex_pair cs else None) of
        Some b \<Rightarrow> b # percentDecodeQueryValue (drop 2 cs)
      | None \<Rightarrow> (if c = 0x2B then 0x20 else c) # percentDecodeQueryValue cs)"
  by pat_completeness auto
termination
  by (relation "measure length") auto

section \<open>Query parameters\<close>

definition amp :: byte where
  "amp = 0x26"

definition indexOf_from :: "bytes \<Rightarrow> byte \<Rightarrow> nat \<Rightarrow> nat option" where
  "indexOf_from s c fr = map_option ((+) fr) (index_of (drop fr s) [c])"

lemma indexOf_from_ge: "indexOf_from s c fr = Some n \<Longrightarrow> fr \<le> n"
  by (auto simp: indexOf_from_def)

function query_loop :: "bytes \<Rightarrow> bytes \<Rightarrow> nat \<Rightarrow> bytes" where
  "query_loop q needle fr =
     (if fr < length q then
        (let nxt = indexOf_from q amp fr;
             slice = (case nxt of None \<Rightarrow> drop fr q | Some n \<Rightarrow> take (n - fr) (drop fr q)) in
         if starts_with slice needle then percentDecodeQueryValue (drop (length needle) slice)
         else (case nxt of None \<Rightarrow> [] | Some n \<Rightarrow> query_loop q needle (n + 1)))
      else [])"
  by pat_completeness auto
termination
  by (relation "measure (\<lambda>(q, needle, fr). length q - fr)") (auto dest!: indexOf_from_ge [OF sym])

declare query_loop.simps [simp del]

definition queryParamRaw :: "bytes \<Rightarrow> bytes \<Rightarrow> bytes" where
  "queryParamRaw q key = query_loop q (key @ bs ''='') 0"

section \<open>Bencoding\<close>

definition encodeInt :: "int \<Rightarrow> bytes" where
  "encodeInt v = bs ''i'' @ bnum v @ bs ''e''"

definition encodeString :: "bytes \<Rightarrow> bytes" where
  "encodeString s = bnum (int (length s)) @ bs '':'' @ s"

definition encodeAnnounceFailure :: "qstring \<Rightarrow> bytes" where
  "encodeAnnounceFailure reason =
     bs ''d'' @ encodeString (bs ''failure reason'') @ encodeString (to_utf8 reason) @ bs ''e''"

definition encodeAnnounceOk :: "int \<Rightarrow> int \<Rightarrow> int \<Rightarrow> int \<Rightarrow> bytes \<Rightarrow> bytes" where
  "encodeAnnounceOk interval_sec min_interval_sec complete incomplete peers_compact =
     bs ''d'' @
     encodeString (bs ''interval'') @ encodeInt interval_sec @
     encodeString (bs ''min interval'') @ encodeInt min_interval_sec @
     encodeString (bs ''complete'') @ encodeInt complete @
     encodeString (bs ''incomplete'') @ encodeInt incomplete @
     encodeString (bs ''peers'') @ encodeString peers_compact @
     bs ''e''"

section \<open>Bind mode\<close>

definition normalizeBuiltinTrackerBindMode :: "(qstring \<Rightarrow> qstring) \<Rightarrow> qstring \<Rightarrow> qstring" where
  "normalizeBuiltinTrackerBindMode lc raw =
     (if lc (trimmed raw) = qs ''lan'' then qs ''lan'' else qs ''localhost'')"

datatype bind_address = AnyIPv4 | LocalHost

definition resolveBuiltinTrackerBindAddress :: "(qstring \<Rightarrow> qstring) \<Rightarrow> qstring \<Rightarrow> bind_address" where
  "resolveBuiltinTrackerBindAddress lc bind_mode =
     (if normalizeBuiltinTrackerBindMode lc bind_mode = qs ''lan'' then AnyIPv4 else LocalHost)"

text \<open>A \<open>QHostAddress\<close>: \<open>None\<close> for \<open>ha_ipv4\<close> is any other protocol.\<close>

record host_address =
  ha_ipv4 :: "32 word option"
  ha_loopback :: bool
  ha_linkLocal :: bool
  ha_text :: qstring

definition isPrivateIPv4 :: "host_address \<Rightarrow> bool" where
  "isPrivateIPv4 a =
     (case ha_ipv4 a of
        None \<Rightarrow> False
      | Some ip \<Rightarrow>
          let b0 = drop_bit 24 ip AND 0xFF; b1 = drop_bit 16 ip AND 0xFF in
          b0 = 10 \<or> b0 = 172 \<and> 16 \<le> b1 \<and> b1 \<le> 31 \<or> b0 = 192 \<and> b1 = 168)"

definition isUsableLanIPv4 :: "host_address \<Rightarrow> bool" where
  "isUsableLanIPv4 a \<longleftrightarrow> ha_ipv4 a \<noteq> None \<and> \<not> (ha_loopback a \<or> ha_linkLocal a)"

fun primary_loop :: "host_address list \<Rightarrow> qstring \<Rightarrow> qstring" where
  "primary_loop [] fallback = fallback"
| "primary_loop (a # as) fallback =
     (if \<not> isUsableLanIPv4 a then primary_loop as fallback
      else if isPrivateIPv4 a then ha_text a
      else primary_loop as (if fallback = [] then ha_text a else fallback))"

definition primaryPrivateIPv4Address :: "host_address list \<Rightarrow> qstring" where
  "primaryPrivateIPv4Address interfaces = primary_loop interfaces []"

section \<open>Decoding inverts encoding\<close>

text \<open>
  An encoder as RFC 3986 describes it: every byte outside the unreserved set becomes a percent
  triple, in upper or lower case hexadecimal.
\<close>

definition unreserved :: "byte \<Rightarrow> bool" where
  "unreserved b \<longleftrightarrow> 0x30 \<le> b \<and> b \<le> 0x39 \<or> 0x41 \<le> b \<and> b \<le> 0x5A \<or> 0x61 \<le> b \<and> b \<le> 0x7A \<or>
                   b \<in> {0x2D, 0x2E, 0x5F, 0x7E}"

definition hex_out :: "bool \<Rightarrow> byte \<Rightarrow> byte" where
  "hex_out up n = (if n < 10 then 0x30 + n else if up then 0x41 + (n - 10) else 0x61 + (n - 10))"

definition percent_encode :: "(byte \<Rightarrow> bool) \<Rightarrow> bool \<Rightarrow> bytes \<Rightarrow> bytes" where
  \<comment> \<open>\<open>keep\<close> tells which unreserved bytes the client leaves as they are\<close>
  "percent_encode keep up s =
     concat (map (\<lambda>b. if unreserved b \<and> keep b then [b]
                      else [0x25, hex_out up (drop_bit 4 b), hex_out up (b AND 15)]) s)"

lemma hex_nibble_out:
  assumes "n < 16"
  shows "hex_nibble (hex_out up n) = Some n"
  using nibble_cases [OF assms] unfolding insert_iff empty_iff
  by (elim disjE FalseE; cases up; simp add: hex_out_def hex_nibble_def)

lemma decode_encode:
  "percentDecodeQueryValue (percent_encode keep up s @ rest) = s @ percentDecodeQueryValue rest"
proof (induction s)
  case Nil
  then show ?case by (simp add: percent_encode_def)
next
  case (Cons b s)
  have "hex_pair (hex_out up (drop_bit 4 b) # hex_out up (b AND 15) # t) = Some b" for t
    by (simp add: hex_nibble_out high_nibble low_nibble join_nibbles)
  moreover have "unreserved b \<Longrightarrow> b \<noteq> 0x25 \<and> b \<noteq> 0x2B" by (auto simp: unreserved_def)
  ultimately show ?case using Cons by (simp add: percent_encode_def)
qed

text \<open>Splitting at the separator, one piece at a time.\<close>

lemma index_of_single:
  "index_of s [c] = None \<Longrightarrow> split_any c s = [s]"
  "index_of s [c] = Some k \<Longrightarrow> k < length s \<and> split_any c s = take k s # split_any c (drop (Suc k) s)"
proof -
  have "(index_of s [c] = None \<longrightarrow> split_any c s = [s]) \<and>
    (\<forall>k. index_of s [c] = Some k \<longrightarrow>
       k < length s \<and> split_any c s = take k s # split_any c (drop (Suc k) s))"
  proof (induction s)
    case (Cons a s)
    then show ?case
      by (cases "a = c") (auto simp: index_of_code starts_with_def)
  qed (simp add: index_of_code)
  then show "index_of s [c] = None \<Longrightarrow> split_any c s = [s]"
    "index_of s [c] = Some k \<Longrightarrow> k < length s \<and> split_any c s = take k s # split_any c (drop (Suc k) s)"
    by blast+
qed

definition param_spec :: "bytes \<Rightarrow> bytes \<Rightarrow> bytes" where
  "param_spec needle q =
     (case List.find (\<lambda>p. starts_with p needle) (split_any amp q) of
        None \<Rightarrow> []
      | Some p \<Rightarrow> percentDecodeQueryValue (drop (length needle) p))"

lemma query_loop_spec:
  assumes "needle \<noteq> []"
  shows "query_loop q needle fr = param_spec needle (drop fr q)"
proof (induction q needle fr rule: query_loop.induct)
  case (1 q needle fr)
  show ?case
  proof (cases "fr < length q")
    case False
    then show ?thesis
      using assms by (simp add: query_loop.simps param_spec_def starts_with_def)
  next
    case True
    show ?thesis
    proof (cases "index_of (drop fr q) [amp]")
      case None
      with True index_of_single(1) [OF None] show ?thesis
        by (simp add: query_loop.simps [of q needle fr] indexOf_from_def param_spec_def)
    next
      case (Some k)
      then have n: "indexOf_from q amp fr = Some (fr + k)" by (simp add: indexOf_from_def)
      have tl: "drop (Suc k) (drop fr q) = drop (fr + k + 1) q" by (simp add: add_ac)
      have split: "split_any amp (drop fr q) =
          take k (drop fr q) # split_any amp (drop (fr + k + 1) q)"
        using index_of_single(2) [OF Some] tl by simp
      show ?thesis
        using True n "1.IH" [OF True refl refl _ n] split
        by (simp add: query_loop.simps [of q needle fr] param_spec_def Let_def)
    qed
  qed
qed

section \<open>Properties\<close>

text \<open>
  Percent decoding inverts percent encoding: whatever bytes a client sends, encoded as RFC
  3986 describes it with any choice of which unreserved bytes to leave alone and in either
  letter case, the tracker reads exactly those bytes, so a binary info hash arrives intact.
\<close>

theorem percent_decode_encode:
  "percentDecodeQueryValue (percent_encode keep up s) = s"
  using decode_encode [of keep up s "[]"] by simp

text \<open>
  C24. The hand-written scan of the query string is the textbook one: the value of a key is the
  decoded rest of the first \<open>&\<close>-separated piece that starts with the key and an equals sign,
  and empty when there is none, and the scan always ends.
\<close>

theorem queryParamRaw_is_first_match:
  "queryParamRaw q key =
     (case List.find (\<lambda>p. starts_with p (key @ bs ''='')) (split_any amp q) of
        None \<Rightarrow> []
      | Some p \<Rightarrow> percentDecodeQueryValue (drop (length (key @ bs ''='')) p))"
proof -
  have "key @ bs ''='' \<noteq> []" by (simp add: bs_def)
  from query_loop_spec [OF this, of q 0] show ?thesis
    by (simp add: queryParamRaw_def param_spec_def)
qed

end
