(* ===== verification/Tracker.thy ===== *)
theory Tracker
  imports TrackerCodec
begin

text \<open>
  The built-in HTTP tracker (\<open>core/builtin_http_tracker.cc\<close>): the peer table, the request
  handler of one connection, and starting and stopping the server.

  Arguments: \<open>std::shuffle\<close>, the value of a query item as \<open>QUrlQuery\<close> decodes it, lower case, the
  clock, the address of the socket (\<open>None\<close> for anything but IPv4) and the port that
  \<open>QTcpServer::listen\<close> obtains (\<open>None\<close> when it fails). What is written to a socket is an effect.
\<close>

section \<open>The peer table\<close>

record peer =
  pr_id :: bytes
  pr_ipv4 :: "32 word"
  pr_port :: "16 word"
  pr_left :: int
  pr_last_seen_ms :: int

type_synonym peer_table = "(bytes \<times> peer list) list"

definition kAnnounceIntervalSec :: int where "kAnnounceIntervalSec = 1800"
definition kMinAnnounceIntervalSec :: int where "kMinAnnounceIntervalSec = 900"
definition kMaxPeersReturn :: int where "kMaxPeersReturn = 50"
definition kDefaultNumwant :: int where "kDefaultNumwant = 50"
definition kPeerTtlMs :: int where "kPeerTtlMs = 45 * 60 * 1000"

definition peers_of :: "peer_table \<Rightarrow> bytes \<Rightarrow> peer list" where
  "peers_of t ih = (case map_of t ih of None \<Rightarrow> [] | Some v \<Rightarrow> v)"

definition upsert_peer ::
  "bytes \<Rightarrow> bytes \<Rightarrow> 32 word \<Rightarrow> 16 word \<Rightarrow> int \<Rightarrow> int \<Rightarrow> peer_table \<Rightarrow> peer_table" where
  "upsert_peer ih pid ip port left now t =
     (let vec = peers_of t ih;
          new = \<lparr> pr_id = pid, pr_ipv4 = ip, pr_port = port, pr_left = left, pr_last_seen_ms = now \<rparr> in
      AList.update ih
        (if list_ex (\<lambda>p. pr_id p = pid) vec then
           upd_first (\<lambda>p. pr_id p = pid)
             (\<lambda>p. p\<lparr> pr_ipv4 := ip, pr_port := port, pr_left := left, pr_last_seen_ms := now \<rparr>) vec
         else vec @ [new]) t)"

definition remove_peer :: "bytes \<Rightarrow> bytes \<Rightarrow> peer_table \<Rightarrow> peer_table" where
  "remove_peer ih pid t =
     (case map_of t ih of
        None \<Rightarrow> t
      | Some vec \<Rightarrow>
          let vec' = filter (\<lambda>p. pr_id p \<noteq> pid) vec in
          if vec' = [] then AList.delete ih t else AList.update ih vec' t)"

fun prune_peers :: "int \<Rightarrow> peer_table \<Rightarrow> peer_table" where
  "prune_peers now [] = []"
| "prune_peers now ((ih, vec) # t) =
     (let vec' = filter (\<lambda>p. \<not> now - pr_last_seen_ms p > kPeerTtlMs) vec in
      if vec' = [] then prune_peers now t else (ih, vec') # prune_peers now t)"

definition countComplete :: "peer_table \<Rightarrow> bytes \<Rightarrow> int" where
  "countComplete t ih = int (length (filter (\<lambda>p. pr_left p = 0) (peers_of t ih)))"

definition countIncomplete :: "peer_table \<Rightarrow> bytes \<Rightarrow> int" where
  "countIncomplete t ih = int (length (filter (\<lambda>p. pr_left p > 0) (peers_of t ih)))"

definition be32 :: "32 word \<Rightarrow> bytes" where
  "be32 w = [ucast (drop_bit 24 w), ucast (drop_bit 16 w), ucast (drop_bit 8 w), ucast w]"

definition be16 :: "16 word \<Rightarrow> bytes" where
  "be16 w = [ucast (drop_bit 8 w), ucast w]"

definition buildCompactPeers ::
  "(peer list \<Rightarrow> peer list) \<Rightarrow> peer_table \<Rightarrow> bytes \<Rightarrow> bytes \<Rightarrow> int \<Rightarrow> bytes" where
  "buildCompactPeers shuf t ih exclude_peer_id numwant =
     (let cand = filter (\<lambda>p. pr_id p \<noteq> exclude_peer_id) (peers_of t ih) in
      if cand = [] then []
      else (let mixed = shuf cand;
                n = min numwant (min kMaxPeersReturn (int (length mixed))) in
            concat (map (\<lambda>p. be32 (pr_ipv4 p) @ be16 (pr_port p)) (take (nat n) mixed))))"

section \<open>The connection handler\<close>

type_synonym sock = nat

datatype tracker_effect =
    SendAndDisconnect sock bytes
  | CloseSocket sock

record tracker =
  tk_table :: peer_table
  tk_buffers :: "(sock \<times> bytes) list"
  tk_bind_mode :: qstring
  tk_listening :: "16 word option"

definition new_tracker :: tracker where
  "new_tracker = \<lparr> tk_table = [], tk_buffers = [], tk_bind_mode = qs ''localhost'', tk_listening = None \<rparr>"

definition crlf :: bytes where
  "crlf = [0x0D, 0x0A]"

definition http_response :: "int \<Rightarrow> bytes \<Rightarrow> bytes" where
  "http_response code body =
     bs ''HTTP/1.0 '' @ bnum code @ (if code = 200 then bs '' OK'' else bs '' Error'') @
     crlf @ bs ''Content-Type: text/plain'' @ crlf @ bs ''Content-Length: '' @
     bnum (int (length body)) @ crlf @ crlf @ body"

definition writeHttp :: "sock \<Rightarrow> int \<Rightarrow> bytes \<Rightarrow> tracker_effect list" where
  "writeHttp s code body = [SendAndDisconnect s (http_response code body)]"

definition fail_http :: "sock \<Rightarrow> int \<Rightarrow> string \<Rightarrow> tracker_effect list" where
  "fail_http s code reason = writeHttp s code (encodeAnnounceFailure (qs reason))"

definition byte_space :: "byte \<Rightarrow> bool" where
  "byte_space c \<longleftrightarrow> c = 0x20 \<or> 0x09 \<le> c \<and> c \<le> 0x0D"

definition byte_trimmed :: "bytes \<Rightarrow> bytes" where
  "byte_trimmed s = rev (dropWhile byte_space (rev (dropWhile byte_space s)))"

text \<open>The query items the handler reads through \<open>QUrlQuery\<close>.\<close>

record tracker_env =
  te_lower :: "qstring \<Rightarrow> qstring"
  te_item :: "bytes \<Rightarrow> string \<Rightarrow> qstring"
  te_shuffle :: "peer list \<Rightarrow> peer list"

definition numwant_of :: "qstring \<Rightarrow> int" where
  "numwant_of nw =
     (if nw = [] then kDefaultNumwant
      else (case to_int 32 nw of
              None \<Rightarrow> kDefaultNumwant
            | Some v \<Rightarrow> if v \<ge> 0 then min v kMaxPeersReturn else kDefaultNumwant))"

record announce =
  an_info_hash :: bytes
  an_peer_id :: bytes
  an_port :: "16 word"
  an_left :: int
  an_numwant :: int
  an_stopped :: bool

definition parse_announce :: "tracker_env \<Rightarrow> bytes \<Rightarrow> string + announce" where
  \<comment> \<open>the checks of \<open>handleRead\<close> on the query, in their order; \<open>Inl\<close> is the failure reason\<close>
  "parse_announce E q =
     (let ih_raw = queryParamRaw q (bs ''info_hash'') in
      if length ih_raw \<noteq> 20 then Inl ''invalid info_hash''
      else
        (let peer_id = queryParamRaw q (bs ''peer_id'') in
         if length peer_id \<noteq> 20 then Inl ''invalid peer_id''
         else
           (case to_int 32 (te_item E q ''port'') of
              None \<Rightarrow> Inl ''invalid port''
            | Some port \<Rightarrow>
                if port \<le> 0 \<or> port > 65535 then Inl ''invalid port''
                else
                  (let compact_s = te_item E q ''compact'' in
                   if compact_s \<noteq> [] \<and> compact_s \<noteq> qs ''1'' then Inl ''compact=1 required''
                   else
                     Inr \<lparr> an_info_hash = ih_raw, an_peer_id = peer_id, an_port = word_of_int port,
                           an_left = (case to_int 64 (te_item E q ''left'') of None \<Rightarrow> 0 | Some v \<Rightarrow> v),
                           an_numwant = numwant_of (te_item E q ''numwant''),
                           an_stopped = (te_lower E (te_item E q ''event'') = qs ''stopped'') \<rparr>))))"

definition do_announce ::
  "tracker_env \<Rightarrow> int \<Rightarrow> sock \<Rightarrow> 32 word \<Rightarrow> announce \<Rightarrow> tracker \<Rightarrow> tracker_effect list \<times> tracker" where
  "do_announce E now s ipv4_host a st =
     (let ih = an_info_hash a; pid = an_peer_id a;
          table = (if an_stopped a then remove_peer ih pid (tk_table st)
                   else upsert_peer ih pid ipv4_host (an_port a) (an_left a) now (tk_table st));
          peers = buildCompactPeers (te_shuffle E) table ih pid
                    (if an_numwant a > 0 then an_numwant a else kDefaultNumwant);
          body = encodeAnnounceOk kAnnounceIntervalSec kMinAnnounceIntervalSec
                   (countComplete table ih) (countIncomplete table ih) peers in
      (writeHttp s 200 body, st\<lparr> tk_table := table \<rparr>))"

definition handle_query ::
  "tracker_env \<Rightarrow> int \<Rightarrow> sock \<Rightarrow> 32 word option \<Rightarrow> bytes \<Rightarrow> tracker \<Rightarrow> tracker_effect list \<times> tracker" where
  "handle_query E now s addr q st =
     (case parse_announce E q of
        Inl reason \<Rightarrow> (fail_http s 200 reason, st)
      | Inr a \<Rightarrow>
          (case addr of
             None \<Rightarrow> (fail_http s 200 ''IPv6 not supported'', st)
           | Some ipv4_host \<Rightarrow> do_announce E now s ipv4_host a st))"

definition handle_request_line ::
  "tracker_env \<Rightarrow> int \<Rightarrow> sock \<Rightarrow> 32 word option \<Rightarrow> bytes \<Rightarrow> tracker \<Rightarrow> tracker_effect list \<times> tracker" where
  "handle_request_line E now s addr first st =
     (if \<not> starts_with first (bs ''GET '') then (fail_http s 400 ''method not allowed'', st)
      else
        (case indexOf_from first 0x20 4 of
           None \<Rightarrow> (fail_http s 400 ''bad request line'', st)
         | Some sp2 \<Rightarrow>
             (let path_query = take (sp2 - 4) (drop 4 first) in
              if \<not> starts_with path_query (bs ''/announce'') then
                (fail_http s 400 ''unsupported path'', st)
              else
                (case index_of path_query (bs ''?'') of
                   None \<Rightarrow> (fail_http s 200 ''missing query'', st)
                 | Some qmark \<Rightarrow> handle_query E now s addr (drop (qmark + 1) path_query) st))))"

definition header_end :: "bytes \<Rightarrow> nat option" where
  "header_end buf =
     (case index_of buf (crlf @ crlf) of
        Some i \<Rightarrow> Some i
      | None \<Rightarrow> index_of buf [0x0A, 0x0A])"

definition request_line_end :: "bytes \<Rightarrow> nat \<Rightarrow> nat option" where
  "request_line_end buf hdr_end =
     (case index_of buf crlf of
        None \<Rightarrow> index_of buf [0x0A]
      | Some i \<Rightarrow> if i > hdr_end then index_of buf [0x0A] else Some i)"

definition handleRead ::
  "tracker_env \<Rightarrow> int \<Rightarrow> sock \<Rightarrow> 32 word option \<Rightarrow> bytes \<Rightarrow> tracker \<Rightarrow> tracker_effect list \<times> tracker" where
  "handleRead E now s addr input st =
     (let buf = (case map_of (tk_buffers st) s of None \<Rightarrow> [] | Some b \<Rightarrow> b) @ input;
          forget = st\<lparr> tk_buffers := AList.delete s (tk_buffers st) \<rparr> in
      if int (length buf) > 2 ^ 20 then (fail_http s 400 ''request too large'' @ [CloseSocket s], forget)
      else
        (case header_end buf of
           None \<Rightarrow>
             if int (length buf) > 8192 then
               (fail_http s 400 ''request too large'' @ [CloseSocket s], forget)
             else ([], st\<lparr> tk_buffers := AList.update s buf (tk_buffers st) \<rparr>)
         | Some hdr_end \<Rightarrow>
             (case request_line_end buf hdr_end of
                None \<Rightarrow> (fail_http s 400 ''bad request'', forget)
              | Some e \<Rightarrow>
                  if e = 0 \<or> e > hdr_end then (fail_http s 400 ''bad request'', forget)
                  else handle_request_line E now s addr (byte_trimmed (take e buf)) forget)))"

definition disconnected :: "sock \<Rightarrow> tracker \<Rightarrow> tracker" where
  "disconnected s st = st\<lparr> tk_buffers := AList.delete s (tk_buffers st) \<rparr>"

definition cleanup_tick :: "int \<Rightarrow> tracker \<Rightarrow> tracker" where
  "cleanup_tick now st = st\<lparr> tk_table := prune_peers now (tk_table st) \<rparr>"

definition applyConfig ::
  "(qstring \<Rightarrow> qstring) \<Rightarrow> (bind_address \<Rightarrow> 16 word \<Rightarrow> 16 word option) \<Rightarrow> bool \<Rightarrow> 16 word \<Rightarrow> qstring \<Rightarrow>
   tracker \<Rightarrow> tracker" where
  "applyConfig lc listen enabled port bind_mode st =
     (let mode = normalizeBuiltinTrackerBindMode lc bind_mode;
          st1 = st\<lparr> tk_bind_mode := mode, tk_listening := None \<rparr> in
      if \<not> enabled then st1
      else st1\<lparr> tk_listening := listen (resolveBuiltinTrackerBindAddress lc mode) port \<rparr>)"

definition queryBindMode :: "tracker \<Rightarrow> qstring" where
  "queryBindMode st = tk_bind_mode st"

definition shutdown_tracker :: "tracker \<Rightarrow> tracker" where
  "shutdown_tracker st = st\<lparr> tk_listening := None \<rparr>"

definition queryPort :: "tracker \<Rightarrow> 16 word" where
  "queryPort st = (case tk_listening st of None \<Rightarrow> 0 | Some p \<Rightarrow> p)"

section \<open>The table as a map\<close>

definition find_peer :: "peer_table \<Rightarrow> bytes \<times> bytes \<Rightarrow> peer option" where
  "find_peer t k = List.find (\<lambda>p. pr_id p = snd k) (peers_of t (fst k))"

definition table_ok :: "peer_table \<Rightarrow> bool" where
  "table_ok t \<longleftrightarrow> distinct (map fst t) \<and>
     (\<forall>(ih, vec) \<in> set t. vec \<noteq> [] \<and> distinct (map pr_id vec))"

lemma peers_of_ok: "table_ok t \<Longrightarrow> distinct (map pr_id (peers_of t ih))"
  by (auto simp: peers_of_def table_ok_def split: option.splits dest!: map_of_SomeD)

lemma peers_of_update: "peers_of (AList.update ih vec t) ih' = (if ih' = ih then vec else peers_of t ih')"
  by (simp add: peers_of_def update_conv')

lemma table_ok_update:
  assumes "table_ok t" "vec \<noteq> []" "distinct (map pr_id vec)"
  shows "table_ok (AList.update ih vec t)"
proof -
  have "distinct (map fst (AList.update ih vec t))"
    using assms(1) by (simp add: table_ok_def distinct_update)
  moreover have "(i, v) \<in> set (AList.update ih vec t) \<Longrightarrow> (i, v) \<in> set t \<or> v = vec" for i v
    by (induction t) (auto split: if_splits)
  ultimately show ?thesis using assms by (fastforce simp: table_ok_def)
qed

lemma find_upd_first:
  "distinct (map pr_id vec) \<Longrightarrow> list_ex (\<lambda>p. pr_id p = pid) vec \<Longrightarrow> (\<And>p. pr_id (g p) = pr_id p) \<Longrightarrow>
   List.find (\<lambda>p. pr_id p = k) (upd_first (\<lambda>p. pr_id p = pid) g vec) =
     (if k = pid then map_option g (List.find (\<lambda>p. pr_id p = pid) vec)
      else List.find (\<lambda>p. pr_id p = k) vec)"
  by (induction vec) auto

lemma find_append_last:
  "List.find P (xs @ [y]) = (case List.find P xs of Some x \<Rightarrow> Some x | None \<Rightarrow> if P y then Some y else None)"
  by (induction xs) auto

lemma ids_upd_first:
  "(\<And>p. pr_id (g p) = pr_id p) \<Longrightarrow> map pr_id (upd_first P g vec) = map pr_id vec"
  by (rule map_upd_first) simp

lemma upsert_peer_refines:
  assumes "table_ok t"
  shows "table_ok (upsert_peer ih pid ip port left now t)"
    and "find_peer (upsert_peer ih pid ip port left now t) =
           (find_peer t)((ih, pid) \<mapsto> \<lparr> pr_id = pid, pr_ipv4 = ip, pr_port = port, pr_left = left,
                                      pr_last_seen_ms = now \<rparr>)"
proof -
  let ?vec = "peers_of t ih" and ?P = "\<lambda>p. pr_id p = pid"
  let ?new = "\<lparr> pr_id = pid, pr_ipv4 = ip, pr_port = port, pr_left = left, pr_last_seen_ms = now \<rparr>"
  let ?g = "\<lambda>p :: peer. p\<lparr> pr_ipv4 := ip, pr_port := port, pr_left := left, pr_last_seen_ms := now \<rparr>"
  let ?vec' = "if list_ex ?P ?vec then upd_first ?P ?g ?vec else ?vec @ [?new]"
  have u: "upsert_peer ih pid ip port left now t = AList.update ih ?vec' t"
    by (simp add: upsert_peer_def Let_def)
  have d: "distinct (map pr_id ?vec)" by (rule peers_of_ok [OF assms])
  have "?vec' \<noteq> []"
    using arg_cong [of "upd_first ?P ?g ?vec" "[]" length] by (cases ?vec) auto
  moreover have "distinct (map pr_id ?vec')"
    using d by (auto simp: ids_upd_first list_ex_iff)
  ultimately show "table_ok (upsert_peer ih pid ip port left now t)"
    unfolding u by (rule table_ok_update [OF assms])
  have f: "List.find (\<lambda>p. pr_id p = k) ?vec' = (if k = pid then Some ?new else List.find (\<lambda>p. pr_id p = k) ?vec)" for k
  proof (cases "list_ex ?P ?vec")
    case True
    then obtain p where "List.find ?P ?vec = Some p"
      by (cases "List.find ?P ?vec") (auto simp: find_None list_ex_iff)
    moreover from this have "pr_id p = pid" by (auto dest: find_Some_mem)
    ultimately show ?thesis
      using True find_upd_first [OF d True, of ?g k] by (cases p) simp
  next
    case False
    then have "List.find ?P ?vec = None" by (simp add: find_None list_ex_iff)
    with False show ?thesis
      by (auto simp: find_append_last split: option.splits)
  qed
  show "find_peer (upsert_peer ih pid ip port left now t) = (find_peer t)((ih, pid) \<mapsto> ?new)"
    unfolding u using f by (auto simp: find_peer_def peers_of_update fun_eq_iff)
qed

lemma find_filter_other:
  "List.find (\<lambda>p. pr_id p = k) (filter (\<lambda>p. pr_id p \<noteq> pid) vec) =
     (if k = pid then None else List.find (\<lambda>p. pr_id p = k) vec)"
  by (induction vec) auto

lemma table_ok_delete: "table_ok t \<Longrightarrow> table_ok (AList.delete ih t)"
  by (auto simp: table_ok_def AList.delete_eq intro: distinct_map_filter)

lemma peers_of_delete: "peers_of (AList.delete ih t) ih' = (if ih' = ih then [] else peers_of t ih')"
  by (simp add: peers_of_def delete_conv')

lemma remove_peer_refines:
  assumes "table_ok t"
  shows "table_ok (remove_peer ih pid t)"
    and "find_peer (remove_peer ih pid t) = (find_peer t)((ih, pid) := None)"
proof -
  have "table_ok (remove_peer ih pid t) \<and>
        find_peer (remove_peer ih pid t) = (find_peer t)((ih, pid) := None)"
  proof (cases "map_of t ih")
    case None
    then show ?thesis
      using assms by (auto simp: remove_peer_def find_peer_def peers_of_def fun_eq_iff)
  next
    case (Some vec)
    let ?vec' = "filter (\<lambda>p. pr_id p \<noteq> pid) vec"
    have v: "peers_of t ih = vec" using Some by (simp add: peers_of_def)
    have d: "distinct (map pr_id ?vec')"
      using peers_of_ok [OF assms, of ih] v by (simp add: distinct_map_filter)
    have p: "peers_of (remove_peer ih pid t) ih' = (if ih' = ih then ?vec' else peers_of t ih')" for ih'
      using Some by (auto simp: remove_peer_def Let_def peers_of_delete peers_of_update)
    have "table_ok (remove_peer ih pid t)"
      using Some assms d by (auto simp: remove_peer_def Let_def table_ok_delete table_ok_update)
    moreover have "find_peer (remove_peer ih pid t) = (find_peer t)((ih, pid) := None)"
      by (auto simp: find_peer_def p fun_eq_iff find_filter_other v)
    ultimately show ?thesis ..
  qed
  then show "table_ok (remove_peer ih pid t)"
    "find_peer (remove_peer ih pid t) = (find_peer t)((ih, pid) := None)" by blast+
qed

definition fresh :: "int \<Rightarrow> peer \<Rightarrow> bool" where
  "fresh now p \<longleftrightarrow> now - pr_last_seen_ms p \<le> kPeerTtlMs"

lemma prune_keys: "set (map fst (prune_peers now t)) \<subseteq> set (map fst t)"
proof (induction t rule: list.induct)
  case (Cons iv t)
  then show ?case by (cases iv) (auto simp only: prune_peers.simps Let_def set_map list.set list.map fst_conv split: if_splits)
qed simp

lemma prune_fresh: "(\<lambda>p. \<not> now - pr_last_seen_ms p > kPeerTtlMs) = fresh now"
  by (auto simp: fresh_def)

lemma prune_ok: "table_ok t \<Longrightarrow> table_ok (prune_peers now t)"
proof (induction now t rule: prune_peers.induct)
  case (2 now ih vec t)
  then have "table_ok t" by (simp add: table_ok_def)
  with 2 prune_keys [of now t] show ?case
    by (auto simp: table_ok_def Let_def distinct_map_filter)
qed simp

lemma peers_of_prune:
  "distinct (map fst t) \<Longrightarrow> peers_of (prune_peers now t) ih = filter (fresh now) (peers_of t ih)"
proof (induction now t rule: prune_peers.induct)
  case (2 now i vec t)
  have "i \<notin> fst ` set (prune_peers now t)" using "2.prems" prune_keys [of now t] by auto
  then have "map_of (prune_peers now t) i = None" by (simp add: map_of_eq_None_iff)
  with 2 show ?case
    by (auto simp: Let_def prune_fresh peers_of_def)
qed (simp add: peers_of_def)

lemma find_filter:
  "distinct (map pr_id vec) \<Longrightarrow>
   List.find (\<lambda>p. pr_id p = k) (filter Q vec) =
     (case List.find (\<lambda>p. pr_id p = k) vec of None \<Rightarrow> None | Some p \<Rightarrow> if Q p then Some p else None)"
proof (induction vec)
  case (Cons p vec)
  show ?case
  proof (cases "pr_id p = k")
    case True
    with Cons.prems have "k \<notin> set (map pr_id vec)" by auto
    then have "\<forall>x \<in> set (filter Q vec). pr_id x \<noteq> k" using image_eqI [of k pr_id _ "set vec"] by auto
    then have "List.find (\<lambda>p. pr_id p = k) (filter Q vec) = None" by (simp add: find_None)
    with True show ?thesis by simp
  qed (use Cons in simp)
qed simp

lemma prune_refines:
  assumes "table_ok t"
  shows "find_peer (prune_peers now t) =
           (\<lambda>k. case find_peer t k of None \<Rightarrow> None | Some p \<Rightarrow> if fresh now p then Some p else None)"
proof -
  have "distinct (map fst t)" using assms by (simp add: table_ok_def)
  from peers_of_prune [OF this] find_filter [OF peers_of_ok [OF assms]] show ?thesis
    by (auto simp: find_peer_def fun_eq_iff)
qed

subsection \<open>Every table the operations build\<close>

datatype table_op =
    Upsert bytes bytes "32 word" "16 word" int int
  | Remove bytes bytes
  | Prune int

fun table_step :: "table_op \<Rightarrow> peer_table \<Rightarrow> peer_table" where
  "table_step (Upsert ih pid ip port left now) t = upsert_peer ih pid ip port left now t"
| "table_step (Remove ih pid) t = remove_peer ih pid t"
| "table_step (Prune now) t = prune_peers now t"

fun spec_step :: "table_op \<Rightarrow> (bytes \<times> bytes \<Rightarrow> peer option) \<Rightarrow> (bytes \<times> bytes \<Rightarrow> peer option)" where
  "spec_step (Upsert ih pid ip port left now) m =
     m((ih, pid) \<mapsto> \<lparr> pr_id = pid, pr_ipv4 = ip, pr_port = port, pr_left = left, pr_last_seen_ms = now \<rparr>)"
| "spec_step (Remove ih pid) m = m((ih, pid) := None)"
| "spec_step (Prune now) m =
     (\<lambda>k. case m k of None \<Rightarrow> None | Some p \<Rightarrow> if fresh now p then Some p else None)"

lemma table_step_refines:
  "table_ok t \<Longrightarrow> table_ok (table_step e t) \<and> find_peer (table_step e t) = spec_step e (find_peer t)"
  by (cases e) (simp_all add: upsert_peer_refines remove_peer_refines prune_ok prune_refines)

lemma table_run_refines:
  "table_ok t \<Longrightarrow> table_ok (fold table_step es t) \<and>
                find_peer (fold table_step es t) = fold spec_step es (find_peer t)"
  by (induction es arbitrary: t) (simp_all add: table_step_refines)

lemma find_peer_empty: "find_peer [] = (\<lambda>_. None)"
  by (simp add: find_peer_def peers_of_def fun_eq_iff)

lemma table_ok_empty: "table_ok []"
  by (simp add: table_ok_def)

text \<open>C22. The peer table, a list per info hash searched by peer id, implements a map from the pair of
  info hash and peer id: after any sequence of announces, stops and clean-ups it holds no empty
  bucket and no peer twice, and a look-up gives what the same operations give on the map.\<close>
theorem peer_table_refines:
  "table_ok (fold table_step es []) \<and>
   find_peer (fold table_step es []) = fold spec_step es (\<lambda>_. None)"
  using table_run_refines [OF table_ok_empty, of es] by (simp add: find_peer_empty)

section \<open>Compact peer lists\<close>

definition unbe32 :: "byte \<Rightarrow> byte \<Rightarrow> byte \<Rightarrow> byte \<Rightarrow> 32 word" where
  "unbe32 a b c d = push_bit 24 (ucast a) OR push_bit 16 (ucast b) OR push_bit 8 (ucast c) OR ucast d"

definition unbe16 :: "byte \<Rightarrow> byte \<Rightarrow> 16 word" where
  "unbe16 a b = push_bit 8 (ucast a) OR ucast b"

fun decode_compact :: "bytes \<Rightarrow> (32 word \<times> 16 word) list" where
  "decode_compact (a # b # c # d # e # f # r) = (unbe32 a b c d, unbe16 e f) # decode_compact r"
| "decode_compact _ = []"

lemma unbe32_be32:
  "unbe32 (ucast (drop_bit 24 w)) (ucast (drop_bit 16 w)) (ucast (drop_bit 8 w)) (ucast w) = w"
  unfolding unbe32_def
proof (rule bit_word_eqI)
  fix n :: nat
  assume "n < LENGTH(32)"
  then consider "n < 8" | "8 \<le> n" "n < 16" | "16 \<le> n" "n < 24" | "24 \<le> n" "n < 32" by fastforce
  then show "bit (push_bit 24 (ucast (ucast (drop_bit 24 w) :: byte)) OR
                  push_bit 16 (ucast (ucast (drop_bit 16 w) :: byte)) OR
                  push_bit 8 (ucast (ucast (drop_bit 8 w) :: byte)) OR
                  ucast (ucast w :: byte) :: 32 word) n = bit w n"
    by cases (auto simp: bit_simps)
qed

lemma unbe16_be16: "unbe16 (ucast (drop_bit 8 w)) (ucast w) = w"
  unfolding unbe16_def by (rule bit_word_eqI) (auto simp: bit_simps)

lemma decode_compact_concat:
  "decode_compact (concat (map (\<lambda>p. be32 (pr_ipv4 p) @ be16 (pr_port p)) ps)) =
     map (\<lambda>p. (pr_ipv4 p, pr_port p)) ps"
  by (induction ps) (simp_all add: be32_def be16_def unbe32_be32 unbe16_be16)

text \<open>C23. The compact peer list of an answer decodes to the addresses and ports of distinct peers of
  that info hash, never the one that asks, and it holds as many as there are, up to the number wanted
  and 50.\<close>
theorem compact_peers_sound:
  assumes shuffle: "\<And>xs. mset (shuf xs) = mset xs" and ok: "table_ok t"
  shows "\<exists>ps. decode_compact (buildCompactPeers shuf t ih me n) = map (\<lambda>p. (pr_ipv4 p, pr_port p)) ps \<and>
              distinct (map pr_id ps) \<and>
              set ps \<subseteq> {p \<in> set (peers_of t ih). pr_id p \<noteq> me} \<and>
              int (length ps) = max 0 (min n (min 50 (int (card {p \<in> set (peers_of t ih). pr_id p \<noteq> me}))))"
proof -
  let ?cand = "filter (\<lambda>p. pr_id p \<noteq> me) (peers_of t ih)"
  let ?k = "nat (min n (min kMaxPeersReturn (int (length (shuf ?cand)))))"
  let ?ps = "take ?k (shuf ?cand)"
  have s: "set (shuf ?cand) = set ?cand" using shuffle mset_eq_setD by blast
  have l: "length (shuf ?cand) = length ?cand" using shuffle mset_eq_length by blast
  have "distinct (map pr_id ?cand)" by (rule distinct_map_filter [OF peers_of_ok [OF ok]])
  moreover have "mset (map pr_id (shuf ?cand)) = mset (map pr_id ?cand)" by (simp add: shuffle)
  ultimately have d: "distinct (map pr_id (shuf ?cand))"
    using mset_eq_imp_distinct_iff by blast
  have "distinct ?cand" using peers_of_ok [OF ok, of ih] by (simp add: distinct_map)
  then have c: "card {p \<in> set (peers_of t ih). pr_id p \<noteq> me} = length ?cand"
    using distinct_card [of ?cand] by simp
  have "decode_compact (buildCompactPeers shuf t ih me n) = map (\<lambda>p. (pr_ipv4 p, pr_port p)) ?ps"
    using l by (auto simp: buildCompactPeers_def Let_def decode_compact_concat)
  moreover have "distinct (map pr_id ?ps)" using d by (simp add: take_map [symmetric])
  moreover have "set ?ps \<subseteq> {p \<in> set (peers_of t ih). pr_id p \<noteq> me}"
    using s set_take_subset [of ?k "shuf ?cand"] by auto
  moreover have "int (length ?ps) = max 0 (min n (min 50 (int (card {p \<in> set (peers_of t ih). pr_id p \<noteq> me}))))"
    using c l by (auto simp: kMaxPeersReturn_def)
  ultimately show ?thesis by blast
qed

theorem compact_peers_sound_witness:
  "\<exists>ps :: peer list. decode_compact (buildCompactPeers rev
          [([1], [\<lparr> pr_id = [2], pr_ipv4 = 5, pr_port = 6, pr_left = 0, pr_last_seen_ms = 0 \<rparr>])] [1] [3] 50) =
            map (\<lambda>p. (pr_ipv4 p, pr_port p)) ps \<and> int (length ps) = 1"
proof -
  let ?p = "\<lparr> pr_id = [2], pr_ipv4 = 5, pr_port = 6, pr_left = 0, pr_last_seen_ms = 0 \<rparr>"
  have ok: "table_ok [([1], [?p])]" by (simp add: table_ok_def)
  have c: "{p \<in> set (peers_of [([1], [?p])] [1]). pr_id p \<noteq> [3]} = {?p}"
    by (auto simp: peers_of_def)
  obtain ps :: "peer list" where "decode_compact (buildCompactPeers rev [([1], [?p])] [1] [3] 50) =
      map (\<lambda>p. (pr_ipv4 p, pr_port p)) ps" "int (length ps) = max 0 (min 50 (min 50 (int (card {?p}))))"
    using compact_peers_sound [OF mset_rev ok, of "[1]" "[3]" 50] unfolding c
    by (elim exE conjE) (rule that)
  then show ?thesis by (intro exI [of _ ps]) simp
qed

section \<open>What a request may change\<close>

text \<open>What one announce does to the map, on the values the handler read.\<close>

definition announce_spec ::
  "int \<Rightarrow> 32 word \<Rightarrow> announce \<Rightarrow> (bytes \<times> bytes \<Rightarrow> peer option) \<Rightarrow> (bytes \<times> bytes \<Rightarrow> peer option)" where
  "announce_spec now ip a m =
     m((an_info_hash a, an_peer_id a) :=
         (if an_stopped a then None
          else Some \<lparr> pr_id = an_peer_id a, pr_ipv4 = ip, pr_port = an_port a, pr_left = an_left a,
                      pr_last_seen_ms = now \<rparr>))"

definition announce_ok :: "announce \<Rightarrow> bool" where
  "announce_ok a \<longleftrightarrow> length (an_info_hash a) = 20 \<and> length (an_peer_id a) = 20 \<and> an_port a \<noteq> 0 \<and>
     0 \<le> an_numwant a \<and> an_numwant a \<le> kMaxPeersReturn"

lemma numwant_of_bounds: "0 \<le> numwant_of nw" "numwant_of nw \<le> kMaxPeersReturn"
  by (auto simp: numwant_of_def kDefaultNumwant_def kMaxPeersReturn_def split: option.splits)

lemma port_nonzero:
  fixes p :: int
  assumes "0 < p" "p \<le> 65535"
  shows "(word_of_int p :: 16 word) \<noteq> 0"
proof
  assume "(word_of_int p :: 16 word) = 0"
  then have "uint (word_of_int p :: 16 word) = 0" by simp
  with assms show False by (simp add: uint_word_of_int take_bit_eq_mod)
qed

lemma parse_announce_ok: "parse_announce E q = Inr a \<Longrightarrow> announce_ok a"
  by (auto simp: parse_announce_def Let_def announce_ok_def numwant_of_bounds port_nonzero
      split: if_splits option.splits)

lemma do_announce_table:
  assumes "table_ok (tk_table st)"
  shows "table_ok (tk_table (snd (do_announce E now s ip a st)))"
    and "find_peer (tk_table (snd (do_announce E now s ip a st))) =
           announce_spec now ip a (find_peer (tk_table st))"
  using assms by (auto simp: do_announce_def Let_def announce_spec_def remove_peer_refines upsert_peer_refines)

definition answers :: "sock \<Rightarrow> tracker_effect list \<Rightarrow> bool" where
  "answers s fx \<longleftrightarrow> (\<exists>body. fx = [SendAndDisconnect s body])"

lemma answers_writeHttp [simp]: "answers s (writeHttp s c b)"
  by (simp add: answers_def writeHttp_def)

lemma answers_fail_http [simp]: "answers s (fail_http s c r)"
  by (simp add: fail_http_def)

lemma answers_do_announce [simp]: "answers s (fst (do_announce E now s ip a st))"
  by (simp add: do_announce_def Let_def)

lemma handle_request_line_cases:
  obtains (reject) fx where "handle_request_line E now s addr first st = (fx, st)" "answers s fx"
  | (announce) ip a where "addr = Some ip" "announce_ok a"
      "handle_request_line E now s addr first st = do_announce E now s ip a st"
proof -
  have "(\<exists>fx. handle_request_line E now s addr first st = (fx, st) \<and> answers s fx) \<or>
        (\<exists>ip a. addr = Some ip \<and> announce_ok a \<and>
           handle_request_line E now s addr first st = do_announce E now s ip a st)"
    by (auto simp: handle_request_line_def Let_def handle_query_def dest: parse_announce_ok
        split: option.splits sum.splits)
  then show thesis using reject announce by blast
qed

lemma handleRead_cases:
  obtains (reject) fx st' where "handleRead E now s addr input st = (fx, st')"
      "tk_table st' = tk_table st"
      "tk_buffers st' = AList.delete s (tk_buffers st)" "answers s fx \<or> answers s (butlast fx) \<and> last fx = CloseSocket s"
  | (wait) buf where "handleRead E now s addr input st = ([], st\<lparr> tk_buffers := AList.update s buf (tk_buffers st) \<rparr>)"
      "length buf \<le> 8192"
  | (announce) ip a where "addr = Some ip" "announce_ok a"
      "handleRead E now s addr input st =
         do_announce E now s ip a (st\<lparr> tk_buffers := AList.delete s (tk_buffers st) \<rparr>)"
proof -
  let ?forget = "st\<lparr> tk_buffers := AList.delete s (tk_buffers st) \<rparr>"
  let ?buf = "(case map_of (tk_buffers st) s of None \<Rightarrow> [] | Some b \<Rightarrow> b) @ input"
  have close: "answers s (butlast (fail_http s 400 r @ [CloseSocket s])) \<and> last (fail_http s 400 r @ [CloseSocket s]) = CloseSocket s" for r
    by simp
  have "(\<exists>fx st'. handleRead E now s addr input st = (fx, st') \<and> tk_table st' = tk_table st \<and>
           tk_buffers st' = AList.delete s (tk_buffers st) \<and>
           (answers s fx \<or> answers s (butlast fx) \<and> last fx = CloseSocket s)) \<or>
        (length ?buf \<le> 8192 \<and>
           handleRead E now s addr input st = ([], st\<lparr> tk_buffers := AList.update s ?buf (tk_buffers st) \<rparr>)) \<or>
        (\<exists>first. handleRead E now s addr input st = handle_request_line E now s addr first ?forget)"
  proof (cases "int (length ?buf) > 2 ^ 20")
    case True
    then show ?thesis using close by (simp add: handleRead_def Let_def)
  next
    case small: False
    show ?thesis
    proof (cases "header_end ?buf")
      case None
      then show ?thesis using small close by (cases "int (length ?buf) > 8192") (simp_all add: handleRead_def Let_def)
    next
      case (Some h)
      with small show ?thesis
        by (cases "request_line_end ?buf h") (auto simp: handleRead_def Let_def)
    qed
  qed
  then consider (a) fx st' where "handleRead E now s addr input st = (fx, st')" "tk_table st' = tk_table st"
      "tk_buffers st' = AList.delete s (tk_buffers st)" "answers s fx \<or> answers s (butlast fx) \<and> last fx = CloseSocket s"
    | (b) "length ?buf \<le> 8192"
      "handleRead E now s addr input st = ([], st\<lparr> tk_buffers := AList.update s ?buf (tk_buffers st) \<rparr>)"
    | (c) first where "handleRead E now s addr input st = handle_request_line E now s addr first ?forget"
    by blast
  then show thesis
  proof cases
    case a
    then show thesis by (rule reject)
  next
    case b
    then show thesis by (intro wait)
  next
    case c
    show thesis
    proof (rule handle_request_line_cases [of E now s addr first ?forget])
      fix fx
      assume "handle_request_line E now s addr first ?forget = (fx, ?forget)" "answers s fx"
      with c show thesis by (intro reject [of fx ?forget]) simp_all
    next
      fix ip a
      assume "addr = Some ip" "announce_ok a"
        "handle_request_line E now s addr first ?forget = do_announce E now s ip a ?forget"
      with c show thesis by (intro announce) simp_all
    qed
  qed
qed

definition announce_answer :: "tracker_env \<Rightarrow> announce \<Rightarrow> peer_table \<Rightarrow> bytes" where
  "announce_answer E a t =
     encodeAnnounceOk kAnnounceIntervalSec kMinAnnounceIntervalSec
       (countComplete t (an_info_hash a)) (countIncomplete t (an_info_hash a))
       (buildCompactPeers (te_shuffle E) t (an_info_hash a) (an_peer_id a)
          (if an_numwant a > 0 then an_numwant a else kDefaultNumwant))"


definition demo_query :: bytes where
  "demo_query = bs ''GET /announce?info_hash=aaaaaaaaaaaaaaaaaaaa&peer_id=bbbbbbbbbbbbbbbbbbbb HTTP/1.0'' @
                crlf @ crlf"

definition demo_env :: tracker_env where
  "demo_env = \<lparr> te_lower = ascii_lower,
                te_item = (\<lambda>q k. if k = ''port'' then qs ''6881'' else if k = ''left'' then qs ''5'' else []),
                te_shuffle = rev \<rparr>"


section \<open>Every run of the tracker\<close>

datatype tracker_event =
    Data sock "32 word option" bytes int
  | Disconnected sock
  | CleanupTimer int
  | Configure bool "16 word" qstring
  | Shutdown

fun tracker_step ::
  "tracker_env \<Rightarrow> (bind_address \<Rightarrow> 16 word \<Rightarrow> 16 word option) \<Rightarrow> tracker_event \<Rightarrow> tracker \<Rightarrow> tracker" where
  "tracker_step E listen (Data s addr input now) st = snd (handleRead E now s addr input st)"
| "tracker_step E listen (Disconnected s) st = disconnected s st"
| "tracker_step E listen (CleanupTimer now) st = cleanup_tick now st"
| "tracker_step E listen (Configure enabled port mode) st = applyConfig (te_lower E) listen enabled port mode st"
| "tracker_step E listen Shutdown st = shutdown_tracker st"

definition peers_valid :: "peer_table \<Rightarrow> bool" where
  "peers_valid t \<longleftrightarrow> (\<forall>ih pid p. find_peer t (ih, pid) = Some p \<longrightarrow>
     length ih = 20 \<and> length pid = 20 \<and> pr_port p \<noteq> 0)"

definition buffers_ok :: "(sock \<times> bytes) list \<Rightarrow> bool" where
  "buffers_ok bufs \<longleftrightarrow> distinct (map fst bufs) \<and> (\<forall>(s, b) \<in> set bufs. length b \<le> 8192)"

definition tracker_ok :: "tracker \<Rightarrow> bool" where
  "tracker_ok st \<longleftrightarrow> table_ok (tk_table st) \<and> peers_valid (tk_table st) \<and> buffers_ok (tk_buffers st)"

lemma buffers_ok_delete: "buffers_ok b \<Longrightarrow> buffers_ok (AList.delete s b)"
  by (auto simp: buffers_ok_def AList.delete_eq intro: distinct_map_filter)

lemma buffers_ok_update:
  assumes "buffers_ok b" "length x \<le> 8192"
  shows "buffers_ok (AList.update s x b)"
proof -
  have "(i, v) \<in> set (AList.update s x b) \<Longrightarrow> (i, v) \<in> set b \<or> v = x" for i v
    by (induction b) (auto split: if_splits)
  with assms show ?thesis
    by (fastforce simp: buffers_ok_def distinct_update)
qed

lemma peers_valid_announce:
  "peers_valid t \<Longrightarrow> announce_ok a \<Longrightarrow> find_peer t' = announce_spec now ip a (find_peer t) \<Longrightarrow>
   peers_valid t'"
  by (auto simp: peers_valid_def announce_ok_def announce_spec_def split: if_splits)

lemma peers_valid_prune: "table_ok t \<Longrightarrow> peers_valid t \<Longrightarrow> peers_valid (prune_peers now t)"
  by (auto simp: peers_valid_def prune_refines split: option.splits if_splits)

lemma handleRead_tracker_ok:
  assumes "tracker_ok st"
  shows "tracker_ok (snd (handleRead E now s addr input st))"
proof (rule handleRead_cases [of E now s addr input st])
  fix ip a
  let ?st = "st\<lparr> tk_buffers := AList.delete s (tk_buffers st) \<rparr>"
  assume "announce_ok a" and eq: "handleRead E now s addr input st = do_announce E now s ip a ?st"
  moreover have t: "table_ok (tk_table ?st)" using assms by (simp add: tracker_ok_def)
  moreover have "tk_buffers (snd (do_announce E now s ip a ?st)) = AList.delete s (tk_buffers st)"
    by (simp add: do_announce_def Let_def)
  ultimately show ?thesis
    using assms do_announce_table [OF t, of E now s ip a]
      peers_valid_announce [OF _ _ do_announce_table(2) [OF t, of E now s ip a]]
    by (simp add: tracker_ok_def buffers_ok_delete)
qed (use assms in \<open>simp_all add: tracker_ok_def buffers_ok_delete buffers_ok_update\<close>)

lemma tracker_step_ok: "tracker_ok st \<Longrightarrow> tracker_ok (tracker_step E listen e st)"
proof (cases e)
  case (Data s addr input now)
  moreover assume "tracker_ok st"
  ultimately show ?thesis by (simp add: handleRead_tracker_ok)
next
  case (CleanupTimer now)
  moreover assume "tracker_ok st"
  ultimately show ?thesis
    by (simp add: cleanup_tick_def tracker_ok_def prune_ok peers_valid_prune)
qed (simp_all add: disconnected_def applyConfig_def shutdown_tracker_def Let_def
       tracker_ok_def buffers_ok_delete)

lemma tracker_run_ok: "tracker_ok st \<Longrightarrow> tracker_ok (fold (tracker_step E listen) es st)"
  by (induction es arbitrary: st) (simp_all add: tracker_step_ok)

text \<open>C20. Whatever clients send, in whatever pieces, interleaved with disconnects, clean-ups,
  reconfiguration and shutdown: the tracker keeps at most 8192 bytes of a request that is not complete,
  one buffer per connection, no empty bucket and no peer twice, and every peer it stores has a 20 byte
  info hash, a 20 byte id and a port other than 0.\<close>
theorem tracker_invariant:
  "tracker_ok (fold (tracker_step E listen) es new_tracker)"
proof (rule tracker_run_ok)
  show "tracker_ok new_tracker"
    by (simp add: tracker_ok_def new_tracker_def table_ok_empty peers_valid_def find_peer_empty buffers_ok_def)
qed

end
