(* ===== verification/Sanitizer.thy ===== *)
theory Sanitizer
  imports Errors
begin

text \<open>
  Checking what the user or a feed hands in: \<open>base/input_sanitizer.{h,cc}\<close>. Every check returns an
  \<open>Error\<close>, which is \<open>kSuccess\<close> when the input is accepted.

  Arguments, in one record: lower case, the case folding of one character that
  \<open>Qt::CaseInsensitive\<close> uses, the scheme of a URL as \<open>QUrl\<close> in strict mode reads it (\<open>None\<close> when
  the URL is not valid) and \<open>QDir::cleanPath\<close>.
\<close>

record input_env =
  in_lower :: "qstring \<Rightarrow> qstring"
  in_fold :: "qchar \<Rightarrow> qchar"
  in_scheme :: "qstring \<Rightarrow> qstring option"
  in_clean :: "qstring \<Rightarrow> qstring"

definition kMaxMagnetUriLength :: nat where "kMaxMagnetUriLength = 8192"
definition kMaxTrackerUrlLength :: nat where "kMaxTrackerUrlLength = 2048"
definition kMaxPathLength :: nat where "kMaxPathLength = 4096"
definition kMaxTrackersPerTask :: nat where "kMaxTrackersPerTask = 200"
definition kMaxCategoryLength :: nat where "kMaxCategoryLength = 256"
definition kMaxTagLength :: nat where "kMaxTagLength = 128"
definition kMaxTagsCount :: nat where "kMaxTagsCount = 50"

definition containsNullByte :: "qstring \<Rightarrow> bool" where
  "containsNullByte s \<longleftrightarrow> 0 \<in> set s"

definition is_separator :: "qchar \<Rightarrow> bool" where
  "is_separator c \<longleftrightarrow> c = qc CHR ''/'' \<or> c = 0x5C"

fun segments :: "('a \<Rightarrow> bool) \<Rightarrow> 'a list \<Rightarrow> 'a list list" where
  \<comment> \<open>the pieces between separators, empty ones included\<close>
  "segments P [] = [[]]"
| "segments P (x # xs) =
     (if P x then [] # segments P xs
      else (case segments P xs of [] \<Rightarrow> [[x]] | p # ps \<Rightarrow> (x # p) # ps))"

definition containsTraversalSegment :: "qstring \<Rightarrow> bool" where
  \<comment> \<open>splitting at runs of separators and skipping empty parts gives the non-empty segments\<close>
  "containsTraversalSegment p \<longleftrightarrow>
     qs ''..'' \<in> set (filter (\<lambda>s. s \<noteq> []) (segments is_separator p))"

definition hasPathTraversal :: "input_env \<Rightarrow> qstring \<Rightarrow> bool" where
  "hasPathTraversal E path \<longleftrightarrow>
     containsTraversalSegment path \<or> containsTraversalSegment (in_clean E path)"

definition allowedTrackerSchemes :: "qstring list" where
  "allowedTrackerSchemes = [qs ''http'', qs ''https'', qs ''udp'', qs ''wss'']"

definition starts_with_ci :: "input_env \<Rightarrow> qstring \<Rightarrow> qstring \<Rightarrow> bool" where
  "starts_with_ci E s p \<longleftrightarrow> starts_with (map (in_fold E) s) (map (in_fold E) p)"

definition too_long :: "string \<Rightarrow> nat \<Rightarrow> nat \<Rightarrow> qstring" where
  "too_long text n limit = qarg (qarg (qs text) (qnum (int n))) (qnum (int limit))"

definition validateMagnetUri :: "input_env \<Rightarrow> qstring \<Rightarrow> err" where
  "validateMagnetUri E uri =
     (let t = trimmed uri in
      if t = [] then Error2 kInvalidMagnet (qs ''Magnet URI is empty'')
      else if length t > kMaxMagnetUriLength then
        Error2 kInvalidMagnet
          (too_long ''Magnet URI exceeds maximum length (%1 > %2)'' (length t) kMaxMagnetUriLength)
      else if containsNullByte t then
        Error2 kInvalidMagnet (qs ''Magnet URI contains null bytes'')
      else if \<not> starts_with_ci E t (qs ''magnet:?'') then
        Error2 kInvalidMagnet (qs ''Magnet URI must start with \"magnet:?\"'')
      else Error0)"

definition validateTrackerUrl :: "input_env \<Rightarrow> qstring \<Rightarrow> err" where
  "validateTrackerUrl E url =
     (let t = trimmed url in
      if t = [] then Error0
      else if length t > kMaxTrackerUrlLength then
        Error2 kInvalidArgument
          (too_long ''Tracker URL exceeds maximum length (%1 > %2)'' (length t) kMaxTrackerUrlLength)
      else if containsNullByte t then
        Error2 kInvalidArgument (qs ''Tracker URL contains null bytes'')
      else
        (case in_scheme E t of
           None \<Rightarrow> Error2 kInvalidArgument (qarg (qs ''Tracker URL is malformed: %1'') t)
         | Some raw \<Rightarrow>
             (let scheme = in_lower E raw in
              if scheme \<notin> set allowedTrackerSchemes then
                Error2 kInvalidArgument
                  (qarg (qs (''Tracker URL scheme \"%1\" not allowed '' @
                             ''(permitted: http, https, udp, wss)'')) scheme)
              else Error0)))"

fun first_error :: "('a \<Rightarrow> err) \<Rightarrow> 'a list \<Rightarrow> err" where
  "first_error f [] = Error0"
| "first_error f (x # xs) = (let e = f x in if hasError e then e else first_error f xs)"

definition validateTrackerList :: "input_env \<Rightarrow> qstring list \<Rightarrow> err" where
  "validateTrackerList E trackers =
     (if length trackers > kMaxTrackersPerTask then
        Error2 kInvalidArgument
          (too_long ''Too many trackers (%1 > %2)'' (length trackers) kMaxTrackersPerTask)
      else first_error (validateTrackerUrl E) trackers)"

definition validatePath :: "input_env \<Rightarrow> qstring \<Rightarrow> err" where
  "validatePath E path =
     (let t = trimmed path in
      if t = [] then Error2 kInvalidSavePath (qs ''Path is empty'')
      else if length t > kMaxPathLength then
        Error2 kInvalidSavePath
          (too_long ''Path exceeds maximum length (%1 > %2)'' (length t) kMaxPathLength)
      else if containsNullByte t then
        Error2 kInvalidSavePath (qs ''Path contains null bytes'')
      else if hasPathTraversal E t then
        Error2 kInvalidSavePath (qs ''Path contains \"..\" traversal component'')
      else Error0)"

definition validateTorrentFilePath :: "input_env \<Rightarrow> qstring \<Rightarrow> err" where
  "validateTorrentFilePath E path =
     (let e = validatePath E path in
      if hasError e then Error2 kInvalidTorrentPath (err_message e)
      else if \<not> ends_with (in_lower E (trimmed path)) (qs ''.torrent'') then
        Error2 kInvalidTorrentPath (qs ''File does not have .torrent extension'')
      else Error0)"

definition validateCategory :: "qstring \<Rightarrow> err" where
  "validateCategory category =
     (let t = trimmed category in
      if t = [] then Error0
      else if length t > kMaxCategoryLength then
        Error2 kInvalidArgument
          (too_long ''Category name too long (%1 > %2)'' (length t) kMaxCategoryLength)
      else if containsNullByte t then
        Error2 kInvalidArgument (qs ''Category contains null bytes'')
      else Error0)"

definition validateTag :: "qstring \<Rightarrow> err" where
  "validateTag t =
     (if length (trimmed t) > kMaxTagLength then
        Error2 kInvalidArgument
          (qarg (qarg (qs ''Tag \"%1\" exceeds max length (%2)'') (take 32 (trimmed t)))
             (qnum (int kMaxTagLength)))
      else Error0)"

definition validateTagsCsv :: "qstring \<Rightarrow> err" where
  "validateTagsCsv tagsCsv =
     (if trimmed tagsCsv = [] then Error0
      else
        (let tags = split_skip (qc CHR '','') tagsCsv in
         if length tags > kMaxTagsCount then
           Error2 kInvalidArgument (too_long ''Too many tags (%1 > %2)'' (length tags) kMaxTagsCount)
         else first_error validateTag tags))"

fun sanitize_loop :: "input_env \<Rightarrow> qstring list \<Rightarrow> qstring list \<Rightarrow> qstring list \<Rightarrow> qstring list" where
  "sanitize_loop E [] seen out = out"
| "sanitize_loop E (t # ts) seen out =
     (let u = trimmed t in
      if u = [] \<or> u \<in> set seen then sanitize_loop E ts seen out
      else if isOk (validateTrackerUrl E u) then
        sanitize_loop E ts (List.insert u seen) (out @ [u])
      else sanitize_loop E ts seen out)"

definition sanitizeTrackers :: "input_env \<Rightarrow> qstring list \<Rightarrow> qstring list" where
  "sanitizeTrackers E trackers = sanitize_loop E trackers [] []"

section \<open>What the checks accept\<close>

lemma Error2_rejects [simp]: "isOk (Error2 c m) \<longleftrightarrow> c = kSuccess" "hasError (Error2 c m) \<longleftrightarrow> c \<noteq> kSuccess"
  by (simp_all add: isOk_def hasError_def Error2_def mkError_def isSuccess_def)

lemma Error0_accepts [simp]: "isOk Error0" "\<not> hasError Error0"
  by (simp_all add: isOk_def hasError_def Error0_def isSuccess_def)

lemma validateMagnetUri_ok:
  "isOk (validateMagnetUri E uri) \<longleftrightarrow>
     trimmed uri \<noteq> [] \<and> length (trimmed uri) \<le> kMaxMagnetUriLength \<and> \<not> containsNullByte (trimmed uri) \<and>
     starts_with_ci E (trimmed uri) (qs ''magnet:?'')"
  by (auto simp: validateMagnetUri_def Let_def)

lemma validateTrackerUrl_ok:
  "isOk (validateTrackerUrl E url) \<longleftrightarrow>
     trimmed url = [] \<or>
     length (trimmed url) \<le> kMaxTrackerUrlLength \<and> \<not> containsNullByte (trimmed url) \<and>
     (\<exists>raw. in_scheme E (trimmed url) = Some raw \<and> in_lower E raw \<in> set allowedTrackerSchemes)"
  by (auto simp: validateTrackerUrl_def Let_def split: option.splits)

lemma validatePath_ok:
  "isOk (validatePath E path) \<longleftrightarrow>
     trimmed path \<noteq> [] \<and> length (trimmed path) \<le> kMaxPathLength \<and> \<not> containsNullByte (trimmed path) \<and>
     \<not> hasPathTraversal E (trimmed path)"
  by (auto simp: validatePath_def Let_def)

lemma first_error_ok: "isOk (first_error f xs) \<longleftrightarrow> (\<forall>x \<in> set xs. isOk (f x))"
  by (induction xs) (auto simp: Let_def hasError_def isOk_def)

lemma segments_not_Nil [simp]: "segments P xs \<noteq> []"
  by (cases xs) (auto split: list.splits)

lemma segments_append: "P s \<Longrightarrow> segments P (us @ s # zs) = segments P us @ segments P zs"
  by (induction us) (auto split: list.splits)

lemma segments_none: "\<forall>x \<in> set m. \<not> P x \<Longrightarrow> segments P m = [m]"
  by (induction m) auto

text \<open>Every stretch between two separators (or the ends) is one of the segments.\<close>

lemma segments_mem:
  assumes m: "\<forall>x \<in> set m. \<not> P x" and u: "us = [] \<or> P (last us)" and z: "zs = [] \<or> P (hd zs)"
  shows "m \<in> set (segments P (us @ m @ zs))"
proof -
  have right: "m \<in> set (segments P (m @ zs))"
    using z segments_append [of P _ m] segments_none [OF m] by (cases zs) auto
  show ?thesis
  proof (cases us rule: rev_cases)
    case Nil
    with right show ?thesis by simp
  next
    case (snoc us' s)
    with u right show ?thesis by (simp add: segments_append)
  qed
qed

lemma validated_path_has_no_parent_step:
  assumes "isOk (validatePath E path)" and "trimmed path = us @ qs ''..'' @ zs"
  shows "us \<noteq> [] \<and> \<not> is_separator (last us) \<or> zs \<noteq> [] \<and> \<not> is_separator (hd zs)"
proof (rule ccontr)
  assume "\<not> ?thesis"
  then have u: "us = [] \<or> is_separator (last us)" and z: "zs = [] \<or> is_separator (hd zs)" by auto
  have "\<forall>x \<in> set (qs ''..''). \<not> is_separator x"
    by (simp add: qs_Cons is_separator_def qc_def)
  then have "qs ''..'' \<in> set (segments is_separator (trimmed path))"
    unfolding assms(2) by (rule segments_mem) (rule u, rule z)
  then have "hasPathTraversal E (trimmed path)"
    by (auto simp: hasPathTraversal_def containsTraversalSegment_def)
  with assms(1) validatePath_ok [of E path] show False by blast
qed

section \<open>sanitizeTrackers\<close>

definition tracker_accepted :: "input_env \<Rightarrow> qstring \<Rightarrow> bool" where
  "tracker_accepted E u \<longleftrightarrow> u \<noteq> [] \<and> isOk (validateTrackerUrl E u)"

fun distinct_first :: "'a list \<Rightarrow> 'a list \<Rightarrow> 'a list" where
  \<comment> \<open>the first occurrence of every element, in order, skipping those in the second list\<close>
  "distinct_first [] seen = []"
| "distinct_first (x # xs) seen =
     (if x \<in> set seen then distinct_first xs seen else x # distinct_first xs (x # seen))"

lemma distinct_first_cong: "set s = set s' \<Longrightarrow> distinct_first xs s = distinct_first xs s'"
proof (induction xs arbitrary: s s')
  case (Cons x xs)
  have "set (x # s) = set (x # s')" using Cons.prems by simp
  from Cons.IH [OF this] Cons.IH [OF Cons.prems] Cons.prems show ?case by simp
qed simp

lemma distinct_first_set: "set (distinct_first xs s) = set xs - set s"
  by (induction xs arbitrary: s) auto

lemma distinct_first_distinct: "distinct (distinct_first xs s)"
  by (induction xs arbitrary: s) (auto simp: distinct_first_set)

lemma distinct_first_id: "distinct xs \<Longrightarrow> set xs \<inter> set s = {} \<Longrightarrow> distinct_first xs s = xs"
  by (induction xs arbitrary: s) auto

lemma sanitize_loop_spec:
  "sanitize_loop E ts seen out =
     out @ distinct_first (filter (tracker_accepted E) (map trimmed ts)) seen"
proof (induction ts arbitrary: seen out)
  case (Cons t ts)
  have "distinct_first xs (List.insert u seen) = distinct_first xs (u # seen)" for xs u
    by (rule distinct_first_cong) simp
  with Cons show ?case by (auto simp: Let_def tracker_accepted_def)
qed simp

text \<open>Cleaning a tracker list keeps exactly the acceptable URLs, trimmed, each once and in the
  order of its first occurrence; cleaning a clean list changes nothing. An accepted URL is at most
  2048 characters long, has no NUL and an allowed scheme.\<close>
theorem sanitizeTrackers_exact:
  "sanitizeTrackers E ts = distinct_first (filter (tracker_accepted E) (map trimmed ts)) [] \<and>
   distinct (sanitizeTrackers E ts) \<and>
   set (sanitizeTrackers E ts) =
     {u \<in> trimmed ` set ts. u \<noteq> [] \<and> length u \<le> kMaxTrackerUrlLength \<and> \<not> containsNullByte u \<and>
        (\<exists>raw. in_scheme E u = Some raw \<and> in_lower E raw \<in> set allowedTrackerSchemes)} \<and>
   sanitizeTrackers E (sanitizeTrackers E ts) = sanitizeTrackers E ts"
proof -
  have s: "sanitizeTrackers E us = distinct_first (filter (tracker_accepted E) (map trimmed us)) []" for us
    by (simp add: sanitizeTrackers_def sanitize_loop_spec)
  have d: "distinct (sanitizeTrackers E ts)" by (simp add: s distinct_first_distinct)
  have mem: "u \<in> set (sanitizeTrackers E ts) \<longleftrightarrow> u \<in> trimmed ` set ts \<and> tracker_accepted E u" for u
    by (auto simp: s distinct_first_set)
  have tr: "trimmed u = u" if "u \<in> trimmed ` set ts" for u using that by auto
  have "set (sanitizeTrackers E ts) =
     {u \<in> trimmed ` set ts. u \<noteq> [] \<and> length u \<le> kMaxTrackerUrlLength \<and> \<not> containsNullByte u \<and>
        (\<exists>raw. in_scheme E u = Some raw \<and> in_lower E raw \<in> set allowedTrackerSchemes)}"
  proof (rule set_eqI)
    fix u
    show "u \<in> set (sanitizeTrackers E ts) \<longleftrightarrow>
      u \<in> {u \<in> trimmed ` set ts. u \<noteq> [] \<and> length u \<le> kMaxTrackerUrlLength \<and> \<not> containsNullByte u \<and>
        (\<exists>raw. in_scheme E u = Some raw \<and> in_lower E raw \<in> set allowedTrackerSchemes)}"
      unfolding mem tracker_accepted_def validateTrackerUrl_ok mem_Collect_eq
      using tr [of u] by (cases "u \<in> trimmed ` set ts"; cases "u = []") simp_all
  qed
  moreover have "sanitizeTrackers E (sanitizeTrackers E ts) = sanitizeTrackers E ts"
  proof -
    have "map trimmed (sanitizeTrackers E ts) = sanitizeTrackers E ts"
      by (rule map_idI) (use mem tr in blast)
    moreover have "filter (tracker_accepted E) (sanitizeTrackers E ts) = sanitizeTrackers E ts"
      by (rule filter_True) (use mem in blast)
    ultimately show ?thesis
      by (subst s) (simp add: distinct_first_id [OF d])
  qed
  ultimately show ?thesis using d s by simp
qed

end
