(* ===== verification/TextFormat.thy ===== *)
theory TextFormat
  imports Errors Complex_Main
begin

text \<open>
  Text from outside and text for the user: \<open>base/text_encoding.cc\<close> (is a byte string UTF-8, control
  characters in messages of peers) and \<open>base/format.cc\<close> (sizes, rates, durations, percentages).
  What \<open>QString::fromUtf8\<close> makes of bytes and how a floating point number is printed with one
  decimal are arguments.
\<close>

section \<open>UTF-8\<close>

definition isContinuationByte :: "byte \<Rightarrow> bool" where
  "isContinuationByte c \<longleftrightarrow> c AND 0xC0 = 0x80"

definition lead_need :: "byte \<Rightarrow> nat option" where
  \<comment> \<open>the number of continuation bytes that the lead byte asks for; \<open>None\<close> for \<open>return false\<close>\<close>
  "lead_need c =
     (if c AND 0xE0 = 0xC0 then (if c < 0xC2 then None else Some 1)
      else if c AND 0xF0 = 0xE0 then Some 2
      else if c AND 0xF8 = 0xF0 then (if c > 0xF4 then None else Some 3)
      else None)"

function utf8_loop :: "bytes \<Rightarrow> nat \<Rightarrow> bool" where
  "utf8_loop data i =
     (if i < length data then
        (let c = data ! i in
         if c \<le> 0x7F then utf8_loop data (i + 1)
         else
           (case lead_need c of
              None \<Rightarrow> False
            | Some need \<Rightarrow>
                if i + need \<ge> length data then False
                else if \<not> list_all isContinuationByte (take need (drop (i + 1) data)) then False
                else if need = 2 \<and> c = 0xE0 \<and> data ! (i + 1) < 0xA0 then False
                else if need = 3 \<and> c = 0xF0 \<and> data ! (i + 1) < 0x90 then False
                else if need = 3 \<and> c = 0xF4 \<and> data ! (i + 1) > 0x8F then False
                else utf8_loop data (i + (need + 1))))
      else True)"
  by pat_completeness auto
termination
  by (relation "measure (\<lambda>(data, i). length data - i)") auto

declare utf8_loop.simps [simp del]

definition isValidUtf8 :: "bytes option \<Rightarrow> bool" where
  \<comment> \<open>\<open>None\<close> is the null pointer\<close>
  "isValidUtf8 data =
     (case data of None \<Rightarrow> True | Some bytes \<Rightarrow> if bytes = [] then True else utf8_loop bytes 0)"

definition QStringFromStdBytes :: "(bytes \<Rightarrow> qstring) \<Rightarrow> bytes \<Rightarrow> qstring" where
  \<comment> \<open>on Linux both branches decode as UTF-8\<close>
  "QStringFromStdBytes fromUtf8 b =
     (if b = [] then [] else if isValidUtf8 (Some b) then fromUtf8 b else fromUtf8 b)"

definition sanitizeHumanReadableText :: "qstring \<Rightarrow> qstring" where
  "sanitizeHumanReadableText text =
     map (\<lambda>ch. if ch \<ge> 0x20 \<or> ch = 0x0A \<or> ch = 0x0D \<or> ch = 0x09 then ch else 0xFFFD) text"

section \<open>Sizes, rates, durations\<close>

type_synonym unit_table = "(int \<times> qstring) list"

definition kSizeUnits :: unit_table where
  "kSizeUnits =
     [(1, qs '' B''), (1024, qs '' KB''), (1024 * 1024, qs '' MB''), (1024 * 1024 * 1024, qs '' GB''),
      (1024 * 1024 * 1024 * 1024, qs '' TB'')]"

definition kSizeUnitsIec :: unit_table where
  "kSizeUnitsIec =
     [(1, qs '' B''), (1024, qs '' KiB''), (1024 * 1024, qs '' MiB''), (1024 * 1024 * 1024, qs '' GiB''),
      (1024 * 1024 * 1024 * 1024, qs '' TiB'')]"

definition kBitsUnits :: unit_table where
  "kBitsUnits =
     [(1, qs '' bps''), (1000, qs '' Kbps''), (1000 * 1000, qs '' Mbps''),
      (1000 * 1000 * 1000, qs '' Gbps'')]"

fun pick_unit :: "int \<Rightarrow> unit_table \<Rightarrow> nat \<Rightarrow> nat" where
  \<comment> \<open>the loop that goes down from the largest unit\<close>
  "pick_unit value units 0 = 0"
| "pick_unit value units (Suc i) =
     (if value < fst (units ! Suc i) then pick_unit value units i else Suc i)"

definition quantity_parts :: "int \<Rightarrow> unit_table \<Rightarrow> int \<times> int \<times> int \<times> qstring" where
  \<comment> \<open>factor, whole part, first decimal and label\<close>
  "quantity_parts value0 units =
     (let value = (if value0 < 0 then 0 else value0);
          i = pick_unit value units (length units - 1);
          factor = fst (units ! i) in
      (factor, value div factor, (value mod factor) * 10 div factor, snd (units ! i)))"

definition formatQuantity :: "int \<Rightarrow> unit_table \<Rightarrow> qstring" where
  "formatQuantity value units =
     (case quantity_parts value units of
        (factor, whole, tenth, label) \<Rightarrow>
          if factor \<ge> 1024 \<and> tenth > 0 then
            qarg (qarg (qarg (qs ''%1.%2%3'') (qnum whole)) (qnum tenth)) label
          else qarg (qarg (qs ''%1%2'') (qnum whole)) label)"

definition formatBytes :: "int \<Rightarrow> qstring" where
  "formatBytes n = formatQuantity n kSizeUnits"

definition formatBytesIec :: "int \<Rightarrow> qstring" where
  "formatBytesIec n = formatQuantity n kSizeUnitsIec"

definition formatRate :: "int \<Rightarrow> qstring" where
  "formatRate n = formatBytes n @ qs ''/s''"

definition formatRateBits :: "int \<Rightarrow> qstring" where
  "formatRateBits n = formatQuantity n kBitsUnits"

definition duration_fields :: "int \<Rightarrow> int \<times> int \<times> int \<times> int" where
  "duration_fields seconds0 =
     (let seconds = (if seconds0 < 0 then 0 else seconds0) in
      (seconds div 86400, (seconds mod 86400) div 3600, (seconds mod 3600) div 60, seconds mod 60))"

definition formatDuration :: "int \<Rightarrow> qstring" where
  "formatDuration seconds =
     (case duration_fields seconds of
        (d, h, m, s) \<Rightarrow>
          (let p1 = (if d > 0 then [qarg (qs ''%1d'') (qnum d)] else []);
               p2 = p1 @ (if h > 0 then [qarg (qs ''%1h'') (qnum h)] else []);
               p3 = p2 @ (if m > 0 then [qarg (qs ''%1m'') (qnum m)] else []);
               p4 = p3 @ (if s > 0 \<or> p3 = [] then [qarg (qs ''%1s'') (qnum s)] else [])
           in join (qs '' '') p4))"

datatype float_value = Finite real | NaN | Infinity bool

definition formatPercent :: "(real \<Rightarrow> qstring) \<Rightarrow> real \<Rightarrow> qstring" where
  "formatPercent fixed1 value =
     (if value \<le> 0 then qs ''0.0%''
      else if value \<ge> 1 then qs ''100.0%''
      else qarg (qs ''%1%'') (fixed1 (value * 100)))"

definition formatRatio :: "(real \<Rightarrow> qstring) \<Rightarrow> float_value \<Rightarrow> qstring" where
  "formatRatio fixed1 ratio =
     (case ratio of
        NaN \<Rightarrow> qu [0x221E]
      | Infinity _ \<Rightarrow> qu [0x221E]
      | Finite r \<Rightarrow>
          if r < 0 \<or> r > 9223372036854775807 then qu [0x221E]
          else if r \<ge> 1000 then qu [0x221E]
          else qarg (qs ''%1'') (fixed1 r))"

section \<open>isValidUtf8 accepts exactly the encodings\<close>

lemma byte_all:
  assumes "list_all P (map word_of_int [0..255])"
  shows "P (c :: byte)"
proof -
  have "uint c < 256" using uint_lt2p [of c] by simp
  then have "uint c \<in> set [0..255]" by simp
  then have "(word_of_int (uint c) :: byte) \<in> set (map word_of_int [0..255])"
    unfolding set_map by (rule imageI)
  then have "c \<in> set (map word_of_int [0..255])" by simp
  with assms show ?thesis unfolding list_all_iff by blast
qed

lemma lead_need_unat:
  "lead_need c =
     (if 0xC2 \<le> unat c \<and> unat c < 0xE0 then Some 1
      else if 0xE0 \<le> unat c \<and> unat c < 0xF0 then Some 2
      else if 0xF0 \<le> unat c \<and> unat c \<le> 0xF4 then Some 3 else None)"
  by (rule byte_all) code_simp

lemma continuation_unat: "isContinuationByte c \<longleftrightarrow> 0x80 \<le> unat c \<and> unat c < 0xC0"
  by (rule byte_all) code_simp

lemma ascii_unat: "(c :: byte) \<le> 0x7F \<longleftrightarrow> unat c < 0x80"
  by (simp add: word_le_nat_alt) linarith

definition second_ok :: "byte \<Rightarrow> byte \<Rightarrow> bool" where
  "second_ok c b \<longleftrightarrow> (unat c = 0xE0 \<longrightarrow> 0xA0 \<le> unat b) \<and> (unat c = 0xF0 \<longrightarrow> 0x90 \<le> unat b) \<and>
     (unat c = 0xF4 \<longrightarrow> unat b \<le> 0x8F)"

function valid_list :: "bytes \<Rightarrow> bool" where
  "valid_list [] = True"
| "valid_list (c # r) =
     (if c \<le> 0x7F then valid_list r
      else (case lead_need c of
              None \<Rightarrow> False
            | Some need \<Rightarrow> need \<le> length r \<and> list_all isContinuationByte (take need r) \<and>
                second_ok c (hd r) \<and> valid_list (drop need r)))"
  by pat_completeness auto
termination
  by (relation "measure length") auto

lemma lead_need_second:
  assumes "lead_need c = Some need" "need \<le> length r"
  shows "need \<ge> 1" and "hd r = r ! 0"
    and "second_ok c (hd r) \<longleftrightarrow> \<not> (need = 2 \<and> c = 0xE0 \<and> r ! 0 < 0xA0) \<and>
           \<not> (need = 3 \<and> c = 0xF0 \<and> r ! 0 < 0x90) \<and> \<not> (need = 3 \<and> c = 0xF4 \<and> r ! 0 > 0x8F)"
proof -
  show n: "need \<ge> 1" using assms(1) by (auto simp: lead_need_unat split: if_splits)
  with assms(2) show h: "hd r = r ! 0" by (cases r) auto
  have e: "c = 0xE0 \<longleftrightarrow> unat c = 0xE0" "c = 0xF0 \<longleftrightarrow> unat c = 0xF0" "c = 0xF4 \<longleftrightarrow> unat c = 0xF4"
    by (auto simp: word_unat_eq_iff)
  show "second_ok c (hd r) \<longleftrightarrow> \<not> (need = 2 \<and> c = 0xE0 \<and> r ! 0 < 0xA0) \<and>
           \<not> (need = 3 \<and> c = 0xF0 \<and> r ! 0 < 0x90) \<and> \<not> (need = 3 \<and> c = 0xF4 \<and> r ! 0 > 0x8F)"
    using assms(1) unfolding h e second_ok_def
    by (auto simp: lead_need_unat word_less_nat_alt split: if_splits)
qed

lemma utf8_loop_list: "utf8_loop data i = valid_list (drop i data)"
proof (induction data i rule: utf8_loop.induct)
  case (1 data i)
  show ?case
  proof (cases "i < length data")
    case False
    then show ?thesis by (simp add: utf8_loop.simps)
  next
    case i: True
    let ?c = "data ! i" and ?r = "drop (Suc i) data"
    have d: "drop i data = ?c # ?r" using i by (simp add: Cons_nth_drop_Suc)
    show ?thesis
    proof (cases "?c \<le> 0x7F")
      case True
      with 1(1) [OF i refl True] i d show ?thesis by (simp add: utf8_loop.simps [of data i])
    next
      case big: False
      show ?thesis
      proof (cases "lead_need ?c")
        case None
        with i big d show ?thesis by (simp add: utf8_loop.simps [of data i] Let_def)
      next
        case (Some need)
        have len: "need \<le> length ?r \<longleftrightarrow> \<not> length data \<le> i + need" using i by auto
        show ?thesis
        proof (cases "need \<le> length ?r")
          case False
          with i big Some len d show ?thesis by (simp add: utf8_loop.simps [of data i] Let_def)
        next
          case n: True
          have nth: "data ! (i + 1) = ?r ! 0"
            using lead_need_second(1) [OF Some n] n by (simp add: nth_drop)
          have "utf8_loop data i \<longleftrightarrow> list_all isContinuationByte (take need ?r) \<and>
                  second_ok ?c (hd ?r) \<and> utf8_loop data (i + (need + 1))"
            unfolding lead_need_second(3) [OF Some n]
            using i big Some n len nth
            by (subst utf8_loop.simps) (auto simp: Let_def)
          moreover have "utf8_loop data (i + (need + 1)) = valid_list (drop need ?r)"
            if "list_all isContinuationByte (take need ?r)" "second_ok ?c (hd ?r)"
          proof -
            have "\<not> (need = 2 \<and> ?c = 0xE0 \<and> data ! (i + 1) < 0xA0)"
              "\<not> (need = 3 \<and> ?c = 0xF0 \<and> data ! (i + 1) < 0x90)"
              "\<not> (need = 3 \<and> ?c = 0xF4 \<and> data ! (i + 1) > 0x8F)"
              using that(2) unfolding lead_need_second(3) [OF Some n] nth by blast+
            with 1(2) [OF i refl big Some] that(1) n len
            show ?thesis by (simp add: add.commute add.left_commute)
          qed
          ultimately show ?thesis using d big Some n by auto
        qed
      qed
    qed
  qed
qed

lemma unat_byte: "k < 256 \<Longrightarrow> unat (of_nat k :: byte) = k"
  by (simp add: unat_of_nat take_bit_eq_mod)

lemma of_nat_unat_byte: "(of_nat (unat c) :: byte) = c"
  by simp

lemma valid_list_unat:
  "valid_list (c # r) =
     (if unat c < 0x80 then valid_list r
      else (case lead_need c of
              None \<Rightarrow> False
            | Some need \<Rightarrow> need \<le> length r \<and> list_all isContinuationByte (take need r) \<and>
                second_ok c (hd r) \<and> valid_list (drop need r)))"
  by (simp add: ascii_unat)

lemma valid_list_utf8_char:
  assumes "cp < 0x110000"
  shows "valid_list (utf8_char cp @ r) = valid_list r"
proof -
  consider (a) "cp < 0x80" | (b) "0x80 \<le> cp" "cp < 0x800" | (c) "0x800 \<le> cp" "cp < 0x10000"
    | (d) "0x10000 \<le> cp" "cp < 0x110000" using assms by linarith
  then show ?thesis
  proof cases
    case a
    then show ?thesis by (simp add: utf8_char_def valid_list_unat unat_byte del: valid_list.simps)
  next
    case b
    let ?n = "0xC0 + cp div 64" and ?m = "0x80 + cp mod 64"
    have n: "?n < 0xE0" "0xC2 \<le> ?n" "?m < 0xC0" using b by auto
    have "valid_list (of_nat ?n # of_nat ?m # r) = valid_list r"
      using n by (simp add: valid_list_unat [of "of_nat ?n"] unat_byte lead_need_unat
          continuation_unat second_ok_def del: valid_list.simps of_nat_add)
    with b show ?thesis by (simp add: utf8_char_def del: valid_list.simps of_nat_add)
  next
    case c
    let ?n = "0xE0 + cp div 4096" and ?m = "0x80 + cp div 64 mod 64" and ?k = "0x80 + cp mod 64"
    have n: "?n < 0xF0" "?m < 0xC0" "?k < 0xC0" using c by auto
    have "?n = 0xE0 \<longrightarrow> 0xA0 \<le> ?m" using c by auto
    with n have "valid_list (of_nat ?n # of_nat ?m # of_nat ?k # r) = valid_list r"
      by (simp add: valid_list_unat [of "of_nat ?n"] unat_byte lead_need_unat numeral_2_eq_2
          continuation_unat second_ok_def del: valid_list.simps of_nat_add)
    with c show ?thesis by (simp add: utf8_char_def del: valid_list.simps of_nat_add)
  next
    case d
    let ?n = "0xF0 + cp div 262144" and ?m = "0x80 + cp div 4096 mod 64"
      and ?k = "0x80 + cp div 64 mod 64" and ?l = "0x80 + cp mod 64"
    have n: "?n \<le> 0xF4" "?m < 0xC0" "?k < 0xC0" "?l < 0xC0" using d by auto
    have "?n = 0xF0 \<longrightarrow> 0x90 \<le> ?m" using d by auto
    moreover have "?n = 0xF4 \<longrightarrow> ?m \<le> 0x8F"
    proof
      assume "?n = 0xF4"
      moreover have "cp div 4096 div 64 = cp div 262144" by (simp add: div_mult2_eq [symmetric])
      moreover have "cp div 4096 < 272" using d by (simp add: less_mult_imp_div_less)
      ultimately have "cp div 4096 div 64 = 4" by simp
      then have "cp div 4096 = 64 * 4 + cp div 4096 mod 64"
        using mult_div_mod_eq [of 64 "cp div 4096"] by simp
      with \<open>cp div 4096 < 272\<close> show "?m \<le> 0x8F" by linarith
    qed
    ultimately have "valid_list (of_nat ?n # of_nat ?m # of_nat ?k # of_nat ?l # r) = valid_list r"
      using n by (simp add: valid_list_unat [of "of_nat ?n"] unat_byte lead_need_unat numeral_3_eq_3
          continuation_unat second_ok_def del: valid_list.simps of_nat_add)
    with d show ?thesis by (simp add: utf8_char_def del: valid_list.simps of_nat_add)
  qed
qed

lemma six_bit_step:
  fixes w x :: nat
  assumes "x < 64"
  shows "(w * 64 + x) div 64 = w" "(w * 64 + x) mod 64 = x"
  using assms by auto

lemma six_bit_fields3:
  fixes w x y :: nat
  assumes "x < 64" "y < 64"
  shows "(w * 4096 + x * 64 + y) div 4096 = w" "(w * 4096 + x * 64 + y) div 64 mod 64 = x"
    "(w * 4096 + x * 64 + y) mod 64 = y"
proof -
  have e: "w * 4096 + x * 64 + y = (w * 64 + x) * 64 + y" by simp
  show "(w * 4096 + x * 64 + y) div 4096 = w" using assms by auto
  show "(w * 4096 + x * 64 + y) div 64 mod 64 = x" "(w * 4096 + x * 64 + y) mod 64 = y"
    unfolding e by (simp_all only: six_bit_step assms)
qed

lemma six_bit_fields4:
  fixes w x y z :: nat
  assumes "x < 64" "y < 64" "z < 64"
  shows "(w * 262144 + x * 4096 + y * 64 + z) div 262144 = w"
    "(w * 262144 + x * 4096 + y * 64 + z) div 4096 mod 64 = x"
    "(w * 262144 + x * 4096 + y * 64 + z) div 64 mod 64 = y"
    "(w * 262144 + x * 4096 + y * 64 + z) mod 64 = z"
proof -
  have e: "w * 262144 + x * 4096 + y * 64 + z = (w * 4096 + x * 64 + y) * 64 + z" by simp
  have d: "n div 4096 = n div 64 div 64" for n :: nat by (simp add: div_mult2_eq [symmetric])
  have f: "w * 4096 + x * 64 + y = (w * 64 + x) * 64 + y" by simp
  show "(w * 262144 + x * 4096 + y * 64 + z) div 262144 = w" using assms by auto
  show "(w * 262144 + x * 4096 + y * 64 + z) div 4096 mod 64 = x"
    "(w * 262144 + x * 4096 + y * 64 + z) div 64 mod 64 = y"
    "(w * 262144 + x * 4096 + y * 64 + z) mod 64 = z"
    unfolding d e f by (simp_all only: six_bit_step assms)
qed

lemmas six_bit_fields = six_bit_step six_bit_fields3 six_bit_fields4

lemma utf8_char_cases:
  "0x80 \<le> n \<Longrightarrow> n < 0x800 \<Longrightarrow> n div 64 = w \<Longrightarrow> n mod 64 = x \<Longrightarrow>
   utf8_char n = map of_nat [0xC0 + w, 0x80 + x]"
  "0x800 \<le> n \<Longrightarrow> n < 0x10000 \<Longrightarrow> n div 4096 = w \<Longrightarrow> n div 64 mod 64 = x \<Longrightarrow> n mod 64 = y \<Longrightarrow>
   utf8_char n = map of_nat [0xE0 + w, 0x80 + x, 0x80 + y]"
  "0x10000 \<le> n \<Longrightarrow> n div 262144 = w \<Longrightarrow> n div 4096 mod 64 = x \<Longrightarrow> n div 64 mod 64 = y \<Longrightarrow> n mod 64 = z \<Longrightarrow>
   utf8_char n = map of_nat [0xF0 + w, 0x80 + x, 0x80 + y, 0x80 + z]"
  by (simp_all add: utf8_char_def del: of_nat_add)

lemma byte_offset: "k \<le> unat (c :: byte) \<Longrightarrow> of_nat (k + (unat c - k)) = c"
  by (simp del: of_nat_add)

lemma continuation_field: "0x80 \<le> k \<Longrightarrow> k < 0xC0 \<Longrightarrow> k - 0x80 < (64 :: nat)"
  by linarith

lemma utf8_char_not_Nil [simp]: "utf8_char cp \<noteq> []"
  by (simp add: utf8_char_def)

lemma byte_eqI: "unat (c :: byte) = k \<Longrightarrow> c = of_nat k"
  by (metis of_nat_unat_byte)

lemma valid_list_decode:
  assumes "valid_list (c # r)"
  shows "\<exists>cp r'. cp < 0x110000 \<and> c # r = utf8_char cp @ r' \<and> valid_list r' \<and> length r' \<le> length r"
proof (cases "unat c < 0x80")
  case True
  with assms show ?thesis
    by (intro exI [of _ "unat c"] exI [of _ r]) (simp add: utf8_char_def valid_list_unat del: valid_list.simps)
next
  case big: False
  with assms obtain need where l: "lead_need c = Some need" and n: "need \<le> length r"
    and ct: "list_all isContinuationByte (take need r)" and s: "second_ok c (hd r)"
    and v: "valid_list (drop need r)"
    by (auto simp: valid_list_unat simp del: valid_list.simps split: option.splits)
  have r: "take need r @ drop need r = r" by simp
  from l consider (b) "need = 1" "0xC2 \<le> unat c" "unat c < 0xE0"
    | (c) "need = 2" "0xE0 \<le> unat c" "unat c < 0xF0" | (d) "need = 3" "0xF0 \<le> unat c" "unat c \<le> 0xF4"
    by (auto simp: lead_need_unat split: if_splits)
  then show ?thesis
  proof cases
    case b
    with n obtain b1 r' where rr: "r = b1 # r'" by (cases r) auto
    with ct b have b1: "0x80 \<le> unat b1" "unat b1 < 0xC0" by (auto simp: continuation_unat)
    let ?cp = "(unat c - 0xC0) * 64 + (unat b1 - 0x80)"
    have cp: "?cp < 0x800" "0x80 \<le> ?cp" using b b1 by auto
    have "?cp div 64 = unat c - 0xC0" "?cp mod 64 = unat b1 - 0x80"
      using b1 by (simp_all only: six_bit_fields continuation_field)
    with cp have "utf8_char ?cp = map of_nat [0xC0 + (unat c - 0xC0), 0x80 + (unat b1 - 0x80)]"
      by (intro utf8_char_cases(1))
    then have "utf8_char ?cp = [c, b1]" using b b1 by (simp only: list.map byte_offset)
    with rr b v cp show ?thesis by (intro exI [of _ ?cp] exI [of _ r']) auto
  next
    case c
    with n obtain b1 b2 r' where rr: "r = b1 # b2 # r'"
      by (cases r; cases "tl r") auto
    with ct c have b1: "0x80 \<le> unat b1" "unat b1 < 0xC0" "0x80 \<le> unat b2" "unat b2 < 0xC0"
      by (auto simp: continuation_unat numeral_2_eq_2)
    from s rr have s': "unat c = 0xE0 \<longrightarrow> 0xA0 \<le> unat b1" by (simp add: second_ok_def)
    let ?cp = "(unat c - 0xE0) * 4096 + (unat b1 - 0x80) * 64 + (unat b2 - 0x80)"
    have cp: "?cp < 0x10000" "0x800 \<le> ?cp" using c b1 s' by auto
    have "?cp div 4096 = unat c - 0xE0" "?cp div 64 mod 64 = unat b1 - 0x80"
      "?cp mod 64 = unat b2 - 0x80" using b1 by (simp_all only: six_bit_fields continuation_field)
    with cp have "utf8_char ?cp =
        map of_nat [0xE0 + (unat c - 0xE0), 0x80 + (unat b1 - 0x80), 0x80 + (unat b2 - 0x80)]"
      by (intro utf8_char_cases(2))
    then have "utf8_char ?cp = [c, b1, b2]" using c b1 by (simp only: list.map byte_offset)
    with rr c v cp show ?thesis by (intro exI [of _ ?cp] exI [of _ r']) auto
  next
    case d
    with n obtain b1 b2 b3 r' where rr: "r = b1 # b2 # b3 # r'"
      by (cases r; cases "tl r"; cases "tl (tl r)") auto
    with ct d have b1: "0x80 \<le> unat b1" "unat b1 < 0xC0" "0x80 \<le> unat b2" "unat b2 < 0xC0"
      "0x80 \<le> unat b3" "unat b3 < 0xC0"
      by (auto simp: continuation_unat numeral_3_eq_3)
    from s rr have s': "unat c = 0xF0 \<longrightarrow> 0x90 \<le> unat b1" "unat c = 0xF4 \<longrightarrow> unat b1 \<le> 0x8F"
      by (simp_all add: second_ok_def)
    let ?cp = "(unat c - 0xF0) * 262144 + (unat b1 - 0x80) * 4096 + (unat b2 - 0x80) * 64 + (unat b3 - 0x80)"
    have cp: "?cp < 0x110000" "0x10000 \<le> ?cp" using d b1 s' by auto
    have "?cp div 262144 = unat c - 0xF0" "?cp div 4096 mod 64 = unat b1 - 0x80"
      "?cp div 64 mod 64 = unat b2 - 0x80" "?cp mod 64 = unat b3 - 0x80"
      using b1 by (simp_all only: six_bit_fields continuation_field)
    with cp have "utf8_char ?cp = map of_nat [0xF0 + (unat c - 0xF0), 0x80 + (unat b1 - 0x80),
        0x80 + (unat b2 - 0x80), 0x80 + (unat b3 - 0x80)]"
      by (intro utf8_char_cases(3))
    then have "utf8_char ?cp = [c, b1, b2, b3]" using d b1 by (simp only: list.map byte_offset)
    with rr d v cp show ?thesis by (intro exI [of _ ?cp] exI [of _ r']) auto
  qed
qed

lemma valid_list_iff:
  "valid_list b \<longleftrightarrow> (\<exists>cps. (\<forall>cp \<in> set cps. cp < 0x110000) \<and> b = concat (map utf8_char cps))"
proof
  assume "valid_list b"
  then show "\<exists>cps. (\<forall>cp \<in> set cps. cp < 0x110000) \<and> b = concat (map utf8_char cps)"
  proof (induction "length b" arbitrary: b rule: less_induct)
    case less
    show ?case
    proof (cases b)
      case Nil
      then show ?thesis by (intro exI [of _ "[]"]) simp
    next
      case (Cons c r)
      with less.prems obtain cp r' where cp: "cp < 0x110000" "b = utf8_char cp @ r'" "valid_list r'"
        "length r' \<le> length r" using valid_list_decode [of c r] by auto
      have "length r' < length b" using cp(4) Cons by simp
      from less.hyps [OF this cp(3)] obtain cps
        where "\<forall>cp \<in> set cps. cp < 0x110000" "r' = concat (map utf8_char cps)" by blast
      with cp show ?thesis by (intro exI [of _ "cp # cps"]) simp
    qed
  qed
next
  assume "\<exists>cps. (\<forall>cp \<in> set cps. cp < 0x110000) \<and> b = concat (map utf8_char cps)"
  then obtain cps where "\<forall>cp \<in> set cps. cp < 0x110000" "b = concat (map utf8_char cps)" by blast
  then show "valid_list b"
    by (induction cps arbitrary: b) (simp_all add: valid_list_utf8_char del: valid_list.simps(2))
qed

text \<open>C28. \<open>isValidUtf8\<close> accepts exactly the byte strings that are concatenations of shortest UTF-8
  encodings of numbers up to 0x10FFFF: no overlong form, no stray continuation byte, no truncated tail.
  It does accept the encodings of surrogates (0xD800 to 0xDFFF), which RFC 3629 does not allow.\<close>
theorem isValidUtf8_exact:
  "isValidUtf8 (Some b) \<longleftrightarrow>
     (\<exists>cps. set cps \<subseteq> {..< 0x110000} \<and> b = concat (map utf8_char cps))"
proof -
  have "isValidUtf8 (Some b) = valid_list b"
    by (cases b) (simp_all add: isValidUtf8_def utf8_loop_list del: valid_list.simps(2))
  then show ?thesis unfolding valid_list_iff subset_eq lessThan_iff .
qed

section \<open>What the formatted numbers say\<close>

lemma pick_unit_spec:
  assumes "\<forall>j < length units. 0 < fst (units ! j)" and "fst (units ! 0) = 1" and "0 \<le> v" and "i < length units"
  shows "pick_unit v units i \<le> i" and "0 < pick_unit v units i \<longrightarrow> fst (units ! pick_unit v units i) \<le> v"
    and "pick_unit v units i < i \<longrightarrow> v < fst (units ! Suc (pick_unit v units i))"
  using assms by (induction v units i rule: pick_unit.induct) (auto simp: less_Suc_eq)

lemma tenth_bounds:
  fixes v f :: int
  assumes "0 < f" "0 \<le> v"
  shows "0 \<le> (v mod f) * 10 div f" "(v mod f) * 10 div f \<le> 9"
    and "(10 * (v div f) + (v mod f) * 10 div f) * f \<le> 10 * v"
    and "10 * v < (10 * (v div f) + (v mod f) * 10 div f + 1) * f"
proof -
  let ?r = "(v mod f) * 10" let ?t = "?r div f"
  have m: "0 \<le> v mod f" "v mod f < f" using assms by auto
  show "0 \<le> ?t" using m assms by (simp add: pos_imp_zdiv_nonneg_iff)
  have e: "?t * f + ?r mod f = ?r" "0 \<le> ?r mod f" "?r mod f < f" using assms(1) by simp_all
  then have d1: "?t * f \<le> ?r" "?r < ?t * f + f" by linarith+
  then have d: "?t * f \<le> ?r" "?r < (?t + 1) * f" by (simp_all add: distrib_right)
  have "?t * f < 10 * f" using d(1) m by linarith
  then have "?t < 10" using assms(1) by simp
  then show "?t \<le> 9" by simp
  have v: "10 * v = 10 * (v div f) * f + ?r"
  proof -
    have "10 * v = 10 * (v div f * f + v mod f)" by simp
    also have "\<dots> = 10 * (v div f) * f + ?r" by (simp only: distrib_left mult.assoc mult.commute)
    finally show ?thesis .
  qed
  show "(10 * (v div f) + ?t) * f \<le> 10 * v" "10 * v < (10 * (v div f) + ?t + 1) * f"
    using d v by (simp_all add: distrib_right)
qed

definition unit_ratio :: "unit_table \<Rightarrow> int \<Rightarrow> bool" where
  \<comment> \<open>a table starts with 1 and every unit is the same multiple of the one before\<close>
  "unit_ratio units k \<longleftrightarrow> units \<noteq> [] \<and> 1 < k \<and> (\<forall>j < length units. fst (units ! j) = k ^ j)"

lemma size_tables: "unit_ratio kSizeUnits 1024" "unit_ratio kSizeUnitsIec 1024" "unit_ratio kBitsUnits 1000"
proof -
  have five: "(\<forall>j < Suc (Suc (Suc (Suc (Suc 0)))). P j) \<longleftrightarrow> P 0 \<and> P 1 \<and> P 2 \<and> P 3 \<and> P (4::nat)"
    and four: "(\<forall>j < Suc (Suc (Suc (Suc 0))). P j) \<longleftrightarrow> P 0 \<and> P 1 \<and> P 2 \<and> P (3::nat)" for P
    by (auto simp: less_Suc_eq numeral_nat)
  show "unit_ratio kSizeUnits 1024" "unit_ratio kSizeUnitsIec 1024" "unit_ratio kBitsUnits 1000"
    by (simp_all add: unit_ratio_def kSizeUnits_def kSizeUnitsIec_def kBitsUnits_def five four)
qed

lemma quantity_parts_spec:
  assumes u: "unit_ratio units k" and q: "quantity_parts n units = (f, w, t, l)"
  shows "0 \<le> t \<and> t \<le> 9 \<and> (10 * w + t) * f \<le> 10 * max 0 n \<and> 10 * max 0 n < (10 * w + t + 1) * f \<and>
         (1 < f \<longrightarrow> 1 \<le> w) \<and> (f < k ^ (length units - 1) \<longrightarrow> w < k)"
proof -
  define v where "v = (if n < 0 then 0 else n)"
  let ?v = v
  let ?i = "pick_unit ?v units (length units - 1)"
  from u have k: "1 < k" and un: "\<forall>j < length units. fst (units ! j) = k ^ j" and ne: "units \<noteq> []"
    by (auto simp: unit_ratio_def)
  have i: "?i \<le> length units - 1" "0 < ?i \<longrightarrow> fst (units ! ?i) \<le> ?v"
    "?i < length units - 1 \<longrightarrow> ?v < fst (units ! Suc ?i)"
    using pick_unit_spec [of units ?v "length units - 1"] un ne k by (auto simp: v_def)
  then have fi: "fst (units ! ?i) = k ^ ?i" using un ne by (simp add: le_less_trans)
  with q have f: "f = k ^ ?i" and w: "w = ?v div f" and t: "t = (?v mod f) * 10 div f"
    unfolding quantity_parts_def Let_def v_def [symmetric] prod.inject by auto
  have pos: "0 < f" using f k by simp
  have v: "max 0 n = ?v" "0 \<le> ?v" by (auto simp: v_def)
  have "1 \<le> w" if "1 < f"
  proof -
    have "0 < ?i" using that f by (cases ?i) auto
    with i fi f have "f \<le> ?v" by simp
    then have "f div f \<le> ?v div f" using pos by (intro zdiv_mono1) auto
    with pos w show ?thesis by simp
  qed
  moreover have "w < k" if "f < k ^ (length units - 1)"
  proof -
    have "?i < length units - 1" using that f i(1) k by (cases "?i = length units - 1") auto
    with i(3) un have "?v < k ^ Suc ?i" by simp
    then have "?v < k * f" using f by simp
    moreover have "?v div f * f + ?v mod f = ?v" "0 \<le> ?v mod f" using pos by simp_all
    ultimately have "?v div f * f < k * f" by linarith
    then show ?thesis unfolding w using pos by simp
  qed
  ultimately show ?thesis
    using tenth_bounds [OF pos v(2)] unfolding v(1) w [symmetric] t [symmetric] by blast
qed


end
