(* ===== verification/IpFilter.thy ===== *)
theory IpFilter
  imports Prelude
begin

text \<open>
  Loading an IP filter file: \<open>lt/ip_filter_loader.cc\<close>. A libtorrent address is a 32-bit number or the
  16 bytes of an IPv6 address; a filter is the list of the blocked ranges added to it.

  Arguments: how \<open>QHostAddress::setAddress\<close> reads a text and how \<open>libtorrent::make_address\<close> reads
  an IPv6 address (\<open>None\<close> for an error or an IPv4 address), and the lines of the file
  (\<open>None\<close> when it cannot be opened).
\<close>

datatype host = HostV4 "32 word" | HostV6 | HostOther

record ip_env =
  ip_host :: "qstring \<Rightarrow> host option"
  ip_make_v6 :: "qstring \<Rightarrow> bytes option"

datatype address = V4 "32 word" | V6 bytes

type_synonym ip_filter = "(address \<times> address) list"

definition add_rule :: "address \<Rightarrow> address \<Rightarrow> ip_filter \<Rightarrow> ip_filter" where
  "add_rule a b f = f @ [(a, b)]"

definition clear_bit_step :: "nat \<Rightarrow> bytes \<times> bytes \<Rightarrow> bytes \<times> bytes" where
  \<comment> \<open>one round of the loop over the host bits\<close>
  "clear_bit_step k fl =
     (let bi = k div 8; bo = k mod 8; m = (push_bit (7 - bo) 1 :: byte) in
      ((fst fl)[bi := (fst fl ! bi) AND NOT m], (snd fl)[bi := (snd fl ! bi) OR m]))"

definition ipv6ApplyPrefixRange :: "bytes \<Rightarrow> int \<Rightarrow> bytes \<times> bytes" where
  "ipv6ApplyPrefixRange ip plen =
     (if plen \<le> 0 then (replicate 16 0, replicate 16 0xFF)
      else if plen \<ge> 128 then (ip, ip)
      else fold clear_bit_step [nat plen ..< 128] (ip, ip))"

definition cidr4_range :: "32 word \<Rightarrow> int \<Rightarrow> 32 word \<times> 32 word" where
  "cidr4_range ip plen =
     (if plen = 0 then (0, 0xFFFFFFFF)
      else (let m = (push_bit (nat (32 - plen)) 0xFFFFFFFF :: 32 word); first = ip AND m in
            (first, first OR NOT m)))"

definition parseDottedIPv4 :: "ip_env \<Rightarrow> qstring \<Rightarrow> 32 word option" where
  "parseDottedIPv4 E s =
     (case ip_host E (trimmed s) of Some (HostV4 h) \<Rightarrow> Some h | _ \<Rightarrow> None)"

definition stripOptionalBrackets :: "qstring \<Rightarrow> qstring" where
  "stripOptionalBrackets s =
     (let t = trimmed s in
      if length t \<ge> 2 \<and> hd t = qc CHR ''['' \<and> last t = qc CHR '']'' then take (length t - 2) (drop 1 t)
      else t)"

definition parseAnySingleIp :: "ip_env \<Rightarrow> qstring \<Rightarrow> address option" where
  "parseAnySingleIp E s =
     (let token = stripOptionalBrackets s in
      case ip_host E token of
        None \<Rightarrow> None
      | Some (HostV4 h) \<Rightarrow> Some (V4 h)
      | Some HostV6 \<Rightarrow> map_option V6 (ip_make_v6 E token)
      | Some HostOther \<Rightarrow> None)"

definition slash :: qchar where "slash = qc CHR ''/''"

definition cidr_parts :: "qstring \<Rightarrow> int \<Rightarrow> (qstring \<times> int) option" where
  \<comment> \<open>the text before the slash and the prefix length, up to a limit\<close>
  "cidr_parts line limit =
     (case index_of line [slash] of
        None \<Rightarrow> None
      | Some i \<Rightarrow>
          if i = 0 then None
          else (case to_int 32 (trimmed (drop (i + 1) line)) of
                  None \<Rightarrow> None
                | Some p \<Rightarrow> if p < 0 \<or> p > limit then None else Some (trimmed (take i line), p)))"

definition appendCidrIpv4 :: "ip_env \<Rightarrow> qstring \<Rightarrow> ip_filter \<Rightarrow> bool \<times> ip_filter" where
  "appendCidrIpv4 E line f =
     (case cidr_parts line 32 of
        None \<Rightarrow> (False, f)
      | Some (ip_text, plen) \<Rightarrow>
          (case ip_host E ip_text of
             Some (HostV4 ip) \<Rightarrow>
               (let (a, b) = cidr4_range ip plen in (True, add_rule (V4 a) (V4 b) f))
           | _ \<Rightarrow> (False, f)))"

definition appendCidrIpv6 :: "ip_env \<Rightarrow> qstring \<Rightarrow> ip_filter \<Rightarrow> bool \<times> ip_filter" where
  "appendCidrIpv6 E line f =
     (case cidr_parts line 128 of
        None \<Rightarrow> (False, f)
      | Some (ip_text, plen) \<Rightarrow>
          (case ip_make_v6 E (stripOptionalBrackets ip_text) of
             None \<Rightarrow> (False, f)
           | Some raw \<Rightarrow>
               (let (a, b) = ipv6ApplyPrefixRange raw plen in (True, add_rule (V6 a) (V6 b) f))))"

definition range_sep :: qstring where "range_sep = qs '' - ''"

definition appendRangeIpv4 :: "ip_env \<Rightarrow> qstring \<Rightarrow> ip_filter \<Rightarrow> bool \<times> ip_filter" where
  \<comment> \<open>\<open>memcmp\<close> on the bytes in network order is the order of the numbers\<close>
  "appendRangeIpv4 E line f =
     (let s = trimmed line in
      case index_of s range_sep of
        None \<Rightarrow> (False, f)
      | Some pos \<Rightarrow>
          (case parseDottedIPv4 E (take pos s) of
             None \<Rightarrow> (False, f)
           | Some a \<Rightarrow>
               (case parseDottedIPv4 E (drop (pos + length range_sep) s) of
                  None \<Rightarrow> (False, f)
                | Some b \<Rightarrow>
                    (True, if a > b then add_rule (V4 b) (V4 a) f else add_rule (V4 a) (V4 b) f))))"

fun memcmp_greater :: "bytes \<Rightarrow> bytes \<Rightarrow> bool" where
  "memcmp_greater (x # xs) (y # ys) = (if x = y then memcmp_greater xs ys else x > y)"
| "memcmp_greater _ _ = False"

definition appendRangeIpv6 :: "ip_env \<Rightarrow> qstring \<Rightarrow> ip_filter \<Rightarrow> bool \<times> ip_filter" where
  "appendRangeIpv6 E line f =
     (let s = trimmed line in
      case index_of s range_sep of
        None \<Rightarrow> (False, f)
      | Some pos \<Rightarrow>
          (case parseAnySingleIp E (take pos s) of
             Some (V6 a) \<Rightarrow>
               (case parseAnySingleIp E (drop (pos + length range_sep) s) of
                  Some (V6 b) \<Rightarrow>
                    (True, if memcmp_greater a b then add_rule (V6 b) (V6 a) f
                           else add_rule (V6 a) (V6 b) f)
                | _ \<Rightarrow> (False, f))
           | _ \<Rightarrow> (False, f)))"

definition lineLooksLikeIpv6 :: "qstring \<Rightarrow> bool" where
  "lineLooksLikeIpv6 t \<longleftrightarrow> qc CHR '':'' \<in> set t \<or> (t \<noteq> [] \<and> hd t = qc CHR ''['')"

definition is_comment :: "qstring \<Rightarrow> bool" where
  "is_comment t \<longleftrightarrow> t = [] \<or> hd t = qc CHR ''#''"

definition appendIpFilterLine :: "ip_env \<Rightarrow> qstring \<Rightarrow> ip_filter \<Rightarrow> bool \<times> ip_filter" where
  "appendIpFilterLine E line f =
     (let t = trimmed line in
      if is_comment t then (True, f)
      else if slash \<in> set t then
        (case index_of t [slash] of
           None \<Rightarrow> (False, f)
         | Some i \<Rightarrow>
             if lineLooksLikeIpv6 (take i t) then appendCidrIpv6 E t f
             else
               (case appendCidrIpv4 E t f of
                  (True, g) \<Rightarrow> (True, g)
                | (False, g) \<Rightarrow> appendCidrIpv6 E t g))
      else
        (case index_of t range_sep of
           Some pos \<Rightarrow>
             (let left6 = lineLooksLikeIpv6 (trimmed (take pos t));
                  right6 = lineLooksLikeIpv6 (trimmed (drop (pos + 3) t)) in
              if left6 \<or> right6 then
                (if \<not> left6 \<or> \<not> right6 then (False, f) else appendRangeIpv6 E t f)
              else appendRangeIpv4 E t f)
         | None \<Rightarrow>
             (case parseAnySingleIp E t of
                None \<Rightarrow> (False, f)
              | Some a \<Rightarrow> (True, add_rule a a f))))"

fun load_lines :: "ip_env \<Rightarrow> qstring list \<Rightarrow> nat \<Rightarrow> ip_filter \<Rightarrow> nat \<times> ip_filter" where
  "load_lines E [] applied f = (applied, f)"
| "load_lines E (raw # rest) applied f =
     (let t = trimmed raw in
      if is_comment t then load_lines E rest applied f
      else
        (case appendIpFilterLine E t f of
           (ok, g) \<Rightarrow> load_lines E rest (if ok then applied + 1 else applied) g))"

definition loadIpFilterFile ::
  "ip_env \<Rightarrow> qstring list option \<Rightarrow> qstring + (nat \<times> ip_filter)" where
  \<comment> \<open>the filter is cleared first; \<open>Inl\<close> is the error text\<close>
  "loadIpFilterFile E file =
     (case file of
        None \<Rightarrow> Inl (qs ''cannot open file'')
      | Some lines \<Rightarrow> Inr (load_lines E lines 0 []))"

section \<open>What a CIDR line blocks\<close>

fun val :: "bytes \<Rightarrow> nat" where
  \<comment> \<open>the number that the bytes write in network order\<close>
  "val [] = 0"
| "val (x # xs) = unat x * 256 ^ length xs + val xs"

fun num :: "address \<Rightarrow> nat" where
  "num (V4 w) = unat w"
| "num (V6 b) = val b"

fun width :: "address \<Rightarrow> nat" where
  "width (V4 _) = 32"
| "width (V6 _) = 128"

fun addr_ok :: "address \<Rightarrow> bool" where
  "addr_ok (V4 _) \<longleftrightarrow> True"
| "addr_ok (V6 b) \<longleftrightarrow> length b = 16"

definition in_rule :: "address \<Rightarrow> address \<times> address \<Rightarrow> bool" where
  "in_rule x r \<longleftrightarrow> width x = width (fst r) \<and> num (fst r) \<le> num x \<and> num x \<le> num (snd r)"

definition blocked :: "ip_filter \<Rightarrow> address \<Rightarrow> bool" where
  "blocked f x \<longleftrightarrow> (\<exists>r \<in> set f. in_rule x r)"

definition same_prefix :: "nat \<Rightarrow> address \<Rightarrow> address \<Rightarrow> bool" where
  \<comment> \<open>the same family and the same first \<open>p\<close> bits\<close>
  "same_prefix p a b \<longleftrightarrow> width a = width b \<and> num a div 2 ^ (width a - p) = num b div 2 ^ (width b - p)"

lemma range_of_prefix:
  fixes x ip q :: nat
  shows "ip div 2 ^ q * 2 ^ q \<le> x \<and> x \<le> ip div 2 ^ q * 2 ^ q + mask q \<longleftrightarrow>
         x div 2 ^ q = ip div 2 ^ q"
proof -
  define m :: nat where "m = 2 ^ q"
  have m: "0 < m" by (simp add: m_def)
  have "ip div m * m \<le> x \<and> x \<le> ip div m * m + (m - 1) \<longleftrightarrow> ip div m * m \<le> x \<and> x < Suc (ip div m) * m"
    using m by auto
  also have "\<dots> \<longleftrightarrow> x div m = ip div m"
  proof
    assume "ip div m * m \<le> x \<and> x < Suc (ip div m) * m"
    then have "ip div m \<le> x div m" "x div m < Suc (ip div m)"
      using m by (simp_all add: less_eq_div_iff_mult_less_eq less_mult_imp_div_less)
    then show "x div m = ip div m" by simp
  next
    assume "x div m = ip div m"
    then have "ip div m * m + x mod m = x" using div_mult_mod_eq [of x m] by simp
    moreover have "x mod m < m" using m by simp
    ultimately show "ip div m * m \<le> x \<and> x < Suc (ip div m) * m" by simp
  qed
  finally show ?thesis by (simp add: m_def mask_eq_exp_minus_1)
qed

text \<open>The bits of an address, and the ends of the range that a prefix gives, as numbers.\<close>

definition bit_at :: "bytes \<Rightarrow> nat \<Rightarrow> bool" where
  \<comment> \<open>bit \<open>k\<close> of the address, counted from the most significant one\<close>
  "bit_at xs k \<longleftrightarrow> bit (xs ! (k div 8)) (7 - k mod 8)"

lemma val_less: "val xs < 256 ^ length xs"
proof (induction xs)
  case (Cons x xs)
  have "unat x < 256" using unsigned_less [of x] by simp
  then have "unat x + 1 \<le> 256" by simp
  then have "(unat x + 1) * 256 ^ length xs \<le> 256 * 256 ^ length xs" by (rule mult_right_mono) simp
  then have "unat x * 256 ^ length xs + 256 ^ length xs \<le> 256 * 256 ^ length xs" by simp
  with Cons have "unat x * 256 ^ length xs + val xs < 256 * 256 ^ length xs" by linarith
  then show ?case by simp
qed simp

lemma bit_low_add:
  assumes "b < 2 ^ q"
  shows "bit (a * 2 ^ q + b :: nat) n \<longleftrightarrow> (if n < q then bit b n else bit a (n - q))"
proof -
  have small: "n < q" if "bit b n" for n
    using assms that by (metis bit_take_bit_iff take_bit_nat_eq_self)
  have "a * 2 ^ q + b = push_bit q a OR b"
    unfolding push_bit_eq_mult [symmetric]
    by (rule disjunctive_add_eq_or) (auto simp: bit_eq_iff bit_simps dest!: small)
  then show ?thesis by (auto simp: bit_simps dest!: small)
qed

lemma bit_val:
  "bit (val xs) n \<longleftrightarrow> n < 8 * length xs \<and> bit (xs ! (length xs - 1 - n div 8)) (n mod 8)"
proof (induction xs)
  case (Cons x xs)
  have p: "256 ^ length xs = (2 :: nat) ^ (8 * length xs)" by (simp add: power_mult)
  have "val xs < 2 ^ (8 * length xs)" using val_less [of xs] by (simp add: p)
  then have b: "bit (val (x # xs)) n \<longleftrightarrow>
      (if n < 8 * length xs then bit (val xs) n else bit (unat x) (n - 8 * length xs))"
    by (simp add: p bit_low_add)
  show ?case
  proof (cases "n < 8 * length xs")
    case True
    then have "n div 8 < length xs" by auto
    then have "length xs - n div 8 = Suc (length xs - 1 - n div 8)" by linarith
    then have "(x # xs) ! (length xs - n div 8) = xs ! (length xs - 1 - n div 8)" by simp
    with True b Cons show ?thesis by simp
  next
    case False
    then obtain k where k: "n = 8 * length xs + k" using le_iff_add [of "8 * length xs" n] by auto
    have "bit (unat x) k \<longleftrightarrow> k < 8 \<and> bit x k" by (simp add: bit_unsigned_iff bit_word.rep_eq) 
    with False b k show ?thesis by (cases "k < 8") (auto simp: nth_Cons')
  qed
qed simp

lemma bit_val_at:
  assumes "length xs = 16" "n < 128"
  shows "bit (val xs) n \<longleftrightarrow> bit_at xs (127 - n)"
proof -
  have "n div 8 < 16" using assms(2) by auto
  moreover have "n div 8 * 8 + n mod 8 = n" "n mod 8 < 8" by simp_all
  ultimately have e: "127 - n = (15 - n div 8) * 8 + (7 - n mod 8)" by linarith
  have six: "(c * 8 + y) div 8 = c" "(c * 8 + y) mod 8 = y" if "y < 8" for c y :: nat
    using that by auto
  have y: "7 - n mod 8 < 8" "7 - (7 - n mod 8) = n mod 8" using \<open>n mod 8 < 8\<close> by auto
  have "15 - n div 8 = (127 - n) div 8" "n mod 8 = 7 - (127 - n) mod 8"
    unfolding e six [OF y(1)] y(2) by simp_all
  then show ?thesis using assms by (simp add: bit_val bit_at_def)
qed

lemma clear_bit_step_at:
  assumes "length (fst fl) = 16" "length (snd fl) = 16" "k < 128" "j < 128"
  shows "bit_at (fst (clear_bit_step k fl)) j \<longleftrightarrow> bit_at (fst fl) j \<and> j \<noteq> k"
    and "bit_at (snd (clear_bit_step k fl)) j \<longleftrightarrow> bit_at (snd fl) j \<or> j = k"
proof -
  have s: "k div 8 < 16" "j div 8 < 16" using assms by auto
  have e: "j = k \<longleftrightarrow> j div 8 = k div 8 \<and> 7 - j mod 8 = 7 - k mod 8"
  proof
    assume h: "j div 8 = k div 8 \<and> 7 - j mod 8 = 7 - k mod 8"
    moreover have "j mod 8 < 8" "k mod 8 < 8" by simp_all
    ultimately have "j mod 8 = k mod 8" by linarith
    with h show "j = k" by (metis div_mult_mod_eq)
  qed simp
  have m: "bit (push_bit i 1 :: byte) b \<longleftrightarrow> i = b" if "i < 8" "b < 8" for i b
    using that by (auto simp: bit_simps)
  have l: "7 - k mod 8 < 8" "7 - j mod 8 < 8" by auto
  show "bit_at (fst (clear_bit_step k fl)) j \<longleftrightarrow> bit_at (fst fl) j \<and> j \<noteq> k"
    "bit_at (snd (clear_bit_step k fl)) j \<longleftrightarrow> bit_at (snd fl) j \<or> j = k"
    using assms s l m [OF l(1) l(2)] unfolding e
    by (auto simp: clear_bit_step_def Let_def bit_at_def nth_list_update bit_and_iff bit_or_iff bit_not_iff)
qed

lemma length_clear_bit_step [simp]:
  "length (fst (clear_bit_step k fl)) = length (fst fl)" "length (snd (clear_bit_step k fl)) = length (snd fl)"
  by (simp_all add: clear_bit_step_def Let_def)

lemma clear_bits:
  assumes "length ip = 16" "p \<le> q" "q \<le> 128"
  shows "length (fst (fold clear_bit_step [p..<q] (ip, ip))) = 16 \<and>
         length (snd (fold clear_bit_step [p..<q] (ip, ip))) = 16 \<and>
         (\<forall>j < 128. bit_at (fst (fold clear_bit_step [p..<q] (ip, ip))) j \<longleftrightarrow> bit_at ip j \<and> \<not> (p \<le> j \<and> j < q)) \<and>
         (\<forall>j < 128. bit_at (snd (fold clear_bit_step [p..<q] (ip, ip))) j \<longleftrightarrow> bit_at ip j \<or> (p \<le> j \<and> j < q))"
  using assms(2,3)
proof (induction q rule: dec_induct)
  case base
  then show ?case using assms(1) by auto
next
  case (step q)
  then show ?case by (auto simp: clear_bit_step_at less_Suc_eq)
qed

lemma prefix_numbers:
  fixes a n :: nat
  shows "bit (a div 2 ^ q * 2 ^ q) n \<longleftrightarrow> q \<le> n \<and> bit a n"
    and "bit (a div 2 ^ q * 2 ^ q + mask q) n \<longleftrightarrow> n < q \<or> bit a n"
proof -
  have d: "bit (a div 2 ^ q) k \<longleftrightarrow> bit a (k + q)" for k
    by (simp add: drop_bit_eq_div [symmetric] bit_simps add.commute)
  have "mask q < (2 :: nat) ^ q" by (simp add: mask_eq_exp_minus_1)
  then show "bit (a div 2 ^ q * 2 ^ q + mask q) n \<longleftrightarrow> n < q \<or> bit a n"
    using bit_low_add [of "mask q" q "a div 2 ^ q" n] d by (simp add: bit_mask_iff)
  show "bit (a div 2 ^ q * 2 ^ q) n \<longleftrightarrow> q \<le> n \<and> bit a n"
    using bit_low_add [of 0 q "a div 2 ^ q" n] d by auto
qed

lemma ipv6_range_numbers:
  assumes ip: "length ip = 16" and p: "0 \<le> plen" "plen \<le> 128"
  defines "q \<equiv> nat (128 - plen)"
  shows "val (fst (ipv6ApplyPrefixRange ip plen)) = val ip div 2 ^ q * 2 ^ q"
    and "val (snd (ipv6ApplyPrefixRange ip plen)) = val ip div 2 ^ q * 2 ^ q + mask q"
    and "length (fst (ipv6ApplyPrefixRange ip plen)) = 16" "length (snd (ipv6ApplyPrefixRange ip plen)) = 16"
proof -
  let ?r = "ipv6ApplyPrefixRange ip plen"
  have q: "q \<le> 128" "q = 128 - nat plen" "nat plen \<le> 128" using p by (auto simp: q_def)
  have at: "length (fst ?r) = 16 \<and> length (snd ?r) = 16 \<and>
      (\<forall>j < 128. bit_at (fst ?r) j \<longleftrightarrow> bit_at ip j \<and> j < nat plen) \<and>
      (\<forall>j < 128. bit_at (snd ?r) j \<longleftrightarrow> bit_at ip j \<or> nat plen \<le> j)"
  proof -
    consider "plen = 0" | "plen = 128" | "0 < plen" "plen < 128" using p by linarith
    then show ?thesis
    proof cases
      case 1
      have "bit (0xFF :: byte) i" if "i < 8" for i
        using that by (simp add: less_Suc_eq numeral_nat) auto
      moreover have "7 - j mod 8 < (8 :: nat)" for j by simp
      ultimately show ?thesis using 1 by (simp add: ipv6ApplyPrefixRange_def bit_at_def less_mult_imp_div_less)
    next
      case 2
      with ip show ?thesis by (simp add: ipv6ApplyPrefixRange_def)
    next
      case 3
      then have "nat plen \<le> 128" by simp
      from clear_bits [OF ip this order_refl] 3 show ?thesis
        by (auto simp: ipv6ApplyPrefixRange_def not_le)
    qed
  qed
  then show "length (fst ?r) = 16" "length (snd ?r) = 16" by blast+
  have big: "\<not> bit (val xs) n" if "length xs = 16" "128 \<le> n" for xs n
    using that by (simp add: bit_val)
  show "val (fst ?r) = val ip div 2 ^ q * 2 ^ q"
  proof (rule bit_eqI)
    fix n
    show "bit (val (fst ?r)) n \<longleftrightarrow> bit (val ip div 2 ^ q * 2 ^ q) n"
      using at ip q big [of _ n] by (cases "n < 128") (auto simp: prefix_numbers bit_val_at)
  qed
  show "val (snd ?r) = val ip div 2 ^ q * 2 ^ q + mask q"
  proof (rule bit_eqI)
    fix n
    show "bit (val (snd ?r)) n \<longleftrightarrow> bit (val ip div 2 ^ q * 2 ^ q + mask q) n"
      using at ip q big [of _ n] by (cases "n < 128") (auto simp: prefix_numbers bit_val_at)
  qed
qed

lemma cidr4_range_numbers:
  assumes p: "0 \<le> plen" "plen \<le> 32"
  defines "q \<equiv> nat (32 - plen)"
  shows "unat (fst (cidr4_range ip plen)) = unat ip div 2 ^ q * 2 ^ q"
    and "unat (snd (cidr4_range ip plen)) = unat ip div 2 ^ q * 2 ^ q + mask q"
proof -
  have ones: "(0xFFFFFFFF :: 32 word) = - 1" by simp
  have q: "q \<le> 32" "plen = 0 \<longleftrightarrow> q = 32" using p by (auto simp: q_def)
  show "unat (fst (cidr4_range ip plen)) = unat ip div 2 ^ q * 2 ^ q"
    using q by (intro bit_eqI) (auto simp: cidr4_range_def Let_def ones prefix_numbers q_def [symmetric] bit_simps
        dest: bit_imp_le_length)
  show "unat (snd (cidr4_range ip plen)) = unat ip div 2 ^ q * 2 ^ q + mask q"
    using q by (intro bit_eqI) (auto simp: cidr4_range_def Let_def ones prefix_numbers q_def [symmetric] bit_simps
        dest: bit_imp_le_length)
qed

definition line_address :: "ip_env \<Rightarrow> qstring \<Rightarrow> address \<Rightarrow> bool" where
  \<comment> \<open>the text before the slash names the address\<close>
  "line_address E s a \<longleftrightarrow>
     (case a of V4 h \<Rightarrow> ip_host E s = Some (HostV4 h)
              | V6 raw \<Rightarrow> ip_make_v6 E (stripOptionalBrackets s) = Some raw)"

lemma cidr_parts_Some:
  "cidr_parts line limit = Some (s, p) \<Longrightarrow> \<exists>i. index_of line [slash] = Some i \<and> s = trimmed (take i line) \<and>
     to_int 32 (trimmed (drop (i + 1) line)) = Some p \<and> 0 \<le> p \<and> p \<le> limit"
  by (auto simp: cidr_parts_def split: option.splits if_splits)

lemma blocked_add_rule: "blocked (add_rule a b f) x \<longleftrightarrow> blocked f x \<or> in_rule x (a, b)"
  by (auto simp: blocked_def add_rule_def)

lemma cidr4_blocks:
  assumes "0 \<le> p" "p \<le> 32"
  shows "in_rule x (V4 (fst (cidr4_range ip p)), V4 (snd (cidr4_range ip p))) \<longleftrightarrow> same_prefix (nat p) (V4 ip) x"
proof -
  have q: "nat (32 - p) = 32 - nat p" using assms by simp
  have r: "unat (fst (cidr4_range ip p)) \<le> num x \<and> num x \<le> unat (snd (cidr4_range ip p)) \<longleftrightarrow>
        num x div 2 ^ (32 - nat p) = unat ip div 2 ^ (32 - nat p)"
    unfolding cidr4_range_numbers [OF assms] q by (rule range_of_prefix)
  show ?thesis
    unfolding in_rule_def same_prefix_def fst_conv snd_conv num.simps width.simps r
    by (cases "width x = 32") auto
qed

lemma cidr6_blocks:
  assumes "length ip = 16" "0 \<le> p" "p \<le> 128"
  shows "in_rule x (V6 (fst (ipv6ApplyPrefixRange ip p)), V6 (snd (ipv6ApplyPrefixRange ip p))) \<longleftrightarrow>
         same_prefix (nat p) (V6 ip) x"
proof -
  have q: "nat (128 - p) = 128 - nat p" using assms by simp
  have r: "val (fst (ipv6ApplyPrefixRange ip p)) \<le> num x \<and> num x \<le> val (snd (ipv6ApplyPrefixRange ip p)) \<longleftrightarrow>
        num x div 2 ^ (128 - nat p) = val ip div 2 ^ (128 - nat p)"
    unfolding ipv6_range_numbers(1,2) [OF assms] q by (rule range_of_prefix)
  show ?thesis
    unfolding in_rule_def same_prefix_def fst_conv snd_conv num.simps width.simps r
    by (cases "width x = 128") auto
qed

definition cidr_effect :: "ip_env \<Rightarrow> qstring \<Rightarrow> ip_filter \<Rightarrow> bool \<times> ip_filter \<Rightarrow> address \<Rightarrow> bool" where
  \<comment> \<open>what a CIDR line \<open>t\<close> does: nothing, or it blocks the addresses that share the prefix it names\<close>
  "cidr_effect E t f r x \<longleftrightarrow>
     (if fst r then
        (\<exists>i ip p. index_of t [slash] = Some i \<and> line_address E (trimmed (take i t)) ip \<and>
           to_int 32 (trimmed (drop (i + 1) t)) = Some (int p) \<and> p \<le> width ip \<and>
           (blocked (snd r) x \<longleftrightarrow> blocked f x \<or> same_prefix p ip x))
      else snd r = f)"

lemma appendCidrIpv4_effect: "cidr_effect E t f (appendCidrIpv4 E t f) x"
proof (cases "cidr_parts t 32")
  case None
  then show ?thesis by (simp add: appendCidrIpv4_def cidr_effect_def)
next
  case (Some sp)
  obtain s p where sp: "sp = (s, p)" by (cases sp)
  obtain i where i: "index_of t [slash] = Some i" "s = trimmed (take i t)"
    "to_int 32 (trimmed (drop (i + 1) t)) = Some p" "0 \<le> p" "p \<le> 32"
    using cidr_parts_Some [OF Some [unfolded sp]] by blast
  show ?thesis
  proof (cases "\<exists>ip. ip_host E s = Some (HostV4 ip)")
    case True
    then obtain ip where ip: "ip_host E s = Some (HostV4 ip)" by blast
    let ?r = "cidr4_range ip p"
    have "appendCidrIpv4 E t f = (True, add_rule (V4 (fst ?r)) (V4 (snd ?r)) f)"
      using Some sp ip by (simp add: appendCidrIpv4_def case_prod_beta)
    moreover have "blocked (add_rule (V4 (fst ?r)) (V4 (snd ?r)) f) x \<longleftrightarrow> blocked f x \<or> same_prefix (nat p) (V4 ip) x"
      using cidr4_blocks [OF i(4,5)] by (simp add: blocked_add_rule)
    ultimately show ?thesis
      using i ip unfolding cidr_effect_def
      by (simp only: fst_conv snd_conv if_True) (rule exI [of _ i], rule exI [of _ "V4 ip"], rule exI [of _ "nat p"],
        simp add: line_address_def)
  next
    case False
    with Some sp show ?thesis
      by (auto simp: appendCidrIpv4_def cidr_effect_def split: option.splits host.splits)
  qed
qed

lemma appendCidrIpv6_effect:
  assumes v6: "\<And>s b. ip_make_v6 E s = Some b \<Longrightarrow> length b = 16"
  shows "cidr_effect E t f (appendCidrIpv6 E t f) x"
proof (cases "cidr_parts t 128")
  case None
  then show ?thesis by (simp add: appendCidrIpv6_def cidr_effect_def)
next
  case (Some sp)
  obtain s p where sp: "sp = (s, p)" by (cases sp)
  obtain i where i: "index_of t [slash] = Some i" "s = trimmed (take i t)"
    "to_int 32 (trimmed (drop (i + 1) t)) = Some p" "0 \<le> p" "p \<le> 128"
    using cidr_parts_Some [OF Some [unfolded sp]] by blast
  show ?thesis
  proof (cases "ip_make_v6 E (stripOptionalBrackets s)")
    case None
    with Some sp show ?thesis by (simp add: appendCidrIpv6_def cidr_effect_def)
  next
    case raw: (Some raw)
    let ?r = "ipv6ApplyPrefixRange raw p"
    have "appendCidrIpv6 E t f = (True, add_rule (V6 (fst ?r)) (V6 (snd ?r)) f)"
      using Some sp raw by (simp add: appendCidrIpv6_def case_prod_beta)
    moreover have "blocked (add_rule (V6 (fst ?r)) (V6 (snd ?r)) f) x \<longleftrightarrow> blocked f x \<or> same_prefix (nat p) (V6 raw) x"
      using cidr6_blocks [OF v6 [OF raw] i(4,5)] by (simp add: blocked_add_rule)
    ultimately show ?thesis
      using i raw unfolding cidr_effect_def
      by (simp only: fst_conv snd_conv if_True) (rule exI [of _ i], rule exI [of _ "V6 raw"], rule exI [of _ "nat p"],
        simp add: line_address_def)
  qed
qed

text \<open>C27. A line of the filter file with a slash in it either is not understood and changes nothing, or
  blocks exactly the addresses that agree with the address it names in as many leading bits as it says,
  for IPv4 and IPv6 and every prefix length from 0 on, beside what was blocked before.\<close>
theorem cidr_line_blocks_its_prefix:
  assumes v6: "\<And>s b. ip_make_v6 E s = Some b \<Longrightarrow> length b = 16"
    and "slash \<in> set (trimmed line)" and "\<not> is_comment (trimmed line)"
  shows "cidr_effect E (trimmed line) f (appendIpFilterLine E line f) x"
proof (cases "index_of (trimmed line) [slash]")
  case None
  then show ?thesis using assms(2,3) by (simp add: appendIpFilterLine_def Let_def cidr_effect_def)
next
  case (Some i)
  let ?t = "trimmed line"
  show ?thesis
  proof (cases "lineLooksLikeIpv6 (take i ?t)")
    case True
    with Some assms(2,3) appendCidrIpv6_effect [OF v6] show ?thesis
      by (simp add: appendIpFilterLine_def Let_def)
  next
    case False
    show ?thesis
    proof (cases "fst (appendCidrIpv4 E ?t f)")
      case True
      with False Some assms(2,3) have "appendIpFilterLine E line f = appendCidrIpv4 E ?t f"
        by (cases "appendCidrIpv4 E ?t f") (simp add: appendIpFilterLine_def Let_def)
      with appendCidrIpv4_effect show ?thesis by simp
    next
      case no4: False
      with appendCidrIpv4_effect [of E ?t f x] have "appendCidrIpv4 E ?t f = (False, f)"
        by (cases "appendCidrIpv4 E ?t f") (simp add: cidr_effect_def)
      with False Some assms(2,3) appendCidrIpv6_effect [OF v6] show ?thesis
        by (simp add: appendIpFilterLine_def Let_def)
    qed
  qed
qed

definition example_ip_env :: ip_env where
  "example_ip_env =
     \<lparr> ip_host = (\<lambda>s. if s = qs ''10.0.0.0'' then Some (HostV4 0x0A000000) else None),
       ip_make_v6 = (\<lambda>s. if s = qs ''::'' then Some (replicate 16 0) else None) \<rparr>"

theorem cidr_line_blocks_its_prefix_witness:
  "fst (appendIpFilterLine example_ip_env (qs ''10.0.0.0/8'') []) \<and>
   cidr_effect example_ip_env (qs ''10.0.0.0/8'') [] (appendIpFilterLine example_ip_env (qs ''10.0.0.0/8'') [])
     (V4 0x0A010203)"
proof
  show "fst (appendIpFilterLine example_ip_env (qs ''10.0.0.0/8'') [])" by code_simp
  have t: "trimmed (qs ''10.0.0.0/8'') = qs ''10.0.0.0/8''" by code_simp
  have "slash \<in> set (qs ''10.0.0.0/8'')" "\<not> is_comment (qs ''10.0.0.0/8'')" by code_simp+
  moreover have "\<And>s b. ip_make_v6 example_ip_env s = Some b \<Longrightarrow> length b = 16"
    by (simp add: example_ip_env_def split: if_splits) auto
  ultimately show "cidr_effect example_ip_env (qs ''10.0.0.0/8'') []
      (appendIpFilterLine example_ip_env (qs ''10.0.0.0/8'') []) (V4 0x0A010203)"
    using cidr_line_blocks_its_prefix [of example_ip_env "qs ''10.0.0.0/8''" "[]" "V4 0x0A010203"]
    unfolding t by blast
qed

section \<open>Whole files\<close>

lemma add_rule_append: "add_rule a b f = f @ add_rule a b []"
  by (simp add: add_rule_def)

lemma appendIpFilterLine_append:
  "appendIpFilterLine E line f =
     (fst (appendIpFilterLine E line []), f @ snd (appendIpFilterLine E line []))"
proof -
  have c4: "appendCidrIpv4 E t f = (fst (appendCidrIpv4 E t []), f @ snd (appendCidrIpv4 E t []))" for t f
    by (auto simp: appendCidrIpv4_def add_rule_def case_prod_beta split: option.splits host.splits)
  have c6: "appendCidrIpv6 E t f = (fst (appendCidrIpv6 E t []), f @ snd (appendCidrIpv6 E t []))" for t f
    by (auto simp: appendCidrIpv6_def add_rule_def case_prod_beta split: option.splits)
  have r4: "appendRangeIpv4 E t f = (fst (appendRangeIpv4 E t []), f @ snd (appendRangeIpv4 E t []))" for t f
    by (auto simp: appendRangeIpv4_def add_rule_def Let_def split: option.splits)
  have r6: "appendRangeIpv6 E t f = (fst (appendRangeIpv6 E t []), f @ snd (appendRangeIpv6 E t []))" for t f
    by (auto simp: appendRangeIpv6_def add_rule_def Let_def split: option.splits address.splits)
  have no4: "appendCidrIpv4 E t f = (False, g) \<Longrightarrow> g = f" for t f g
    by (auto simp: appendCidrIpv4_def case_prod_beta split: option.splits host.splits)
  show ?thesis
  proof (cases "appendCidrIpv4 E (trimmed line) f")
    case (Pair ok4 g4)
    with c4 [of "trimmed line" f] no4 [of "trimmed line" f]
    show ?thesis
      unfolding appendIpFilterLine_def Let_def
      using c6 [of "trimmed line" f] r4 [of "trimmed line" f] r6 [of "trimmed line" f]
      by (cases "appendCidrIpv4 E (trimmed line) []"; cases ok4)
        (simp_all add: add_rule_def split: option.split)
  qed
qed

lemma load_lines_union:
  "load_lines E lines n f =
     (n + length (filter (\<lambda>l. \<not> is_comment (trimmed l) \<and> fst (appendIpFilterLine E (trimmed l) [])) lines),
      f @ concat (map (\<lambda>l. if is_comment (trimmed l) then [] else snd (appendIpFilterLine E (trimmed l) [])) lines))"
proof (induction lines arbitrary: n f)
  case (Cons l lines)
  obtain ok g where e: "appendIpFilterLine E (trimmed l) [] = (ok, g)"
    by (cases "appendIpFilterLine E (trimmed l) []")
  then have "appendIpFilterLine E (trimmed l) f = (ok, f @ g)"
    using appendIpFilterLine_append [of E "trimmed l" f] by simp
  with e Cons show ?case by (simp add: Let_def)
qed simp

text \<open>A file blocks what its lines block, each by itself; the count is the number of lines understood.\<close>

lemma loaded_filter_is_union:
  "loadIpFilterFile E (Some lines) = Inr (n, g) \<Longrightarrow>
   blocked g x \<longleftrightarrow> (\<exists>l \<in> set lines. \<not> is_comment (trimmed l) \<and> blocked (snd (appendIpFilterLine E (trimmed l) [])) x)"
  unfolding loadIpFilterFile_def load_lines_union option.case sum.inject prod.inject blocked_def
  by (auto split: if_splits) blast+

end
