(* ===== verification/SessionTypes.thy ===== *)
theory SessionTypes
  imports EventMapper Sanitizer TextFormat IpFilter "HOL-Library.List_Lexorder"
begin

text \<open>
  The data of the session layer: what it reads from libtorrent, what it asks libtorrent to do, the
  structures of \<open>lt/session_worker.h\<close>, the commands of \<open>lt/session_cmds.h\<close> and the state that
  \<open>SessionWorker::Impl\<close> and \<open>session_ops::Context\<close> share.

  libtorrent is not part of the sources. What the code reads from it at one moment is the record
  \<open>lt_env\<close> (a function of the handle for everything that \<open>torrent_handle\<close> reports), and every call
  that changes it is an element of the list of effects that each operation returns, in order. A
  \<open>std::promise\<close> is a number; \<open>Fulfil\<close> is \<open>set_value\<close>. A handle is a number. A \<open>std::map\<close> is an
  association list kept in the order of its keys, as iteration sees it.
\<close>

section \<open>Ordered maps\<close>

fun omap_put :: "'k :: linorder \<Rightarrow> 'v \<Rightarrow> ('k \<times> 'v) list \<Rightarrow> ('k \<times> 'v) list" where
  "omap_put k v [] = [(k, v)]"
| "omap_put k v ((k', v') # m) =
     (if k < k' then (k, v) # (k', v') # m
      else if k = k' then (k, v) # m
      else (k', v') # omap_put k v m)"

definition omap_erase :: "'k \<Rightarrow> ('k \<times> 'v) list \<Rightarrow> ('k \<times> 'v) list" where
  "omap_erase k m = filter (\<lambda>e. fst e \<noteq> k) m"

definition omap_ok :: "('k :: linorder \<times> 'v) list \<Rightarrow> bool" where
  "omap_ok m \<longleftrightarrow> sorted_wrt (<) (map fst m)"

lemma set_omap_put: "set (omap_put k v m) \<subseteq> insert (k, v) (set m)"
  by (induction k v m rule: omap_put.induct) auto

lemma omap_put_ok: "omap_ok m \<Longrightarrow> omap_ok (omap_put k v m)"
proof (induction m)
  case (Cons e m)
  obtain k' v' where e: "e = (k', v')" by (cases e)
  have "k' < x" if "x \<in> fst ` set (omap_put k v m)" "k' < k" for x
    using that Cons.prems e set_omap_put [of k v m] by (fastforce simp: omap_ok_def)
  with Cons e show ?case by (auto simp: omap_ok_def dest: order_less_trans)
qed (simp add: omap_ok_def)

lemma map_of_omap_put: "omap_ok m \<Longrightarrow> map_of (omap_put k v m) = (map_of m)(k \<mapsto> v)"
proof (induction m)
  case (Cons e m)
  obtain k' v' where e: "e = (k', v')" by (cases e)
  have "map_of m k = None" if "k < k'"
    using that Cons.prems e by (force simp: omap_ok_def map_of_eq_None_iff)
  with Cons e show ?case by (auto simp: omap_ok_def fun_upd_twist)
qed simp

lemma omap_erase_ok: "omap_ok m \<Longrightarrow> omap_ok (omap_erase k m)"
  by (induction m) (auto simp: omap_ok_def omap_erase_def)

lemma map_of_omap_erase: "map_of (omap_erase k m) = (map_of m)(k := None)"
  by (induction m) (auto simp: omap_erase_def)

lemma keys_omap_erase: "fst ` set (omap_erase k m) = fst ` set m - {k}"
  by (auto simp: omap_erase_def)

lemma keys_omap_put: "fst ` set (omap_put k v m) = insert k (fst ` set m)"
  by (induction k v m rule: omap_put.induct) auto

section \<open>What libtorrent reports\<close>

type_synonym handle = nat
type_synonym promise = nat

datatype torrent_flag =
    fAutoManaged | fPaused | fUploadMode | fSequential | fStopWhenReady | fNoVerify
  | fDisableDht | fDisablePex | fDisableLsd | fOtherFlag nat

record announce_infohash =
  ai_updating :: bool
  ai_fails :: int
  ai_last_error :: "bytes option"       \<comment> \<open>the message of \<open>last_error\<close> when it is set\<close>
  ai_message :: bytes
  ai_start_sent :: bool
  ai_complete_sent :: bool
  ai_scrape_incomplete :: int
  ai_scrape_complete :: int
  ai_scrape_downloaded :: int
  ai_next_announce :: "int option"      \<comment> \<open>seconds; \<open>None\<close> is \<open>time_point32::min\<close>\<close>
  ai_min_announce :: "int option"

record announce_endpoint =
  ae_ip :: qstring
  ae_port :: int
  ae_info_hashes :: "announce_infohash list"

record announce_entry =
  ae_url :: qstring
  ae_tier :: int
  ae_source :: int
  ae_fail_limit :: int
  ae_endpoints :: "announce_endpoint list"

datatype connection_kind = standard_bittorrent | web_seed | http_seed | other_connection

record peer_info =
  pi_ip :: qstring
  pi_port :: int
  pi_client :: qstring
  pi_progress :: real
  pi_down_speed :: int
  pi_up_speed :: int
  pi_total_download :: int
  pi_total_upload :: int
  pi_seed :: bool
  pi_interesting :: bool
  pi_choked :: bool
  pi_remote_interested :: bool
  pi_remote_choked :: bool
  pi_rc4_encrypted :: bool
  pi_connection_type :: connection_kind

record torrent_meta =           \<comment> \<open>\<open>libtorrent::torrent_info\<close>\<close>
  tm_name :: qstring
  tm_comment :: qstring
  tm_creation_date :: int
  tm_files :: "(qstring \<times> int) list"      \<comment> \<open>path and size\<close>
  tm_num_pieces :: int
  tm_piece_of :: "nat \<Rightarrow> int \<Rightarrow> int"     \<comment> \<open>\<open>map_file(file, offset, 1).piece\<close>\<close>
  tm_info_hashes :: info_hash

record add_torrent_params =
  at_info_hashes :: info_hash
  at_ti :: "torrent_meta option"
  at_name :: qstring
  at_save_path :: qstring
  at_trackers :: "qstring list"
  at_flags :: "torrent_flag set"
  at_file_priorities :: "nat list"

record lt_env =
  lt_sha1 :: "bytes \<Rightarrow> bytes"
  lt_input :: input_env
  lt_now_ms :: int
  lt_now_sec :: int
  lt_default_params :: add_torrent_params        \<comment> \<open>a default constructed \<open>add_torrent_params\<close>\<close>
  lt_parse_magnet :: "qstring \<Rightarrow> qstring + add_torrent_params"
  lt_load_torrent :: "qstring \<Rightarrow> torrent_meta option"
  lt_read_resume :: "bytes \<Rightarrow> qstring + add_torrent_params"
  lt_valid :: "handle \<Rightarrow> bool"
  lt_status_flags :: "handle \<Rightarrow> torrent_flag set"
  lt_has_metadata :: "handle \<Rightarrow> bool"
  lt_torrent_file :: "handle \<Rightarrow> torrent_meta option"
  lt_torrent_file_with_hashes :: "handle \<Rightarrow> torrent_meta option"
  lt_info_hashes :: "handle \<Rightarrow> info_hash"
  lt_trackers :: "handle \<Rightarrow> announce_entry list"
  lt_file_priorities :: "handle \<Rightarrow> nat list"
  lt_file_progress :: "handle \<Rightarrow> int list"
  lt_distributed_copies :: "handle \<Rightarrow> real"
  lt_download_rate :: "handle \<Rightarrow> int"
  lt_upload_rate :: "handle \<Rightarrow> int"
  lt_peers :: "handle \<Rightarrow> peer_info list"
  lt_url_seeds :: "handle \<Rightarrow> qstring list"
  lt_http_seeds :: "handle \<Rightarrow> qstring list"
  lt_magnet_uri :: "handle \<Rightarrow> qstring"
  lt_torrents :: "handle list"
  lt_encode_torrent :: "torrent_meta \<Rightarrow> bytes"
  lt_file_path :: "qstring \<Rightarrow> qstring \<Rightarrow> qstring"  \<comment> \<open>\<open>QDir(dir).filePath(name)\<close>\<close>
  lt_can_open :: "qstring \<Rightarrow> bool"              \<comment> \<open>\<open>QFile::open\<close> for writing succeeds\<close>
  lt_write_complete :: "qstring \<Rightarrow> bool"        \<comment> \<open>\<open>QFile::write\<close> takes all bytes\<close>
  lt_url_host_port :: "qstring \<Rightarrow> (qstring \<times> int) option"   \<comment> \<open>host and port of a valid URL\<close>
  lt_from_utf8 :: "bytes \<Rightarrow> qstring"
  lt_ip_env :: ip_env
  lt_read_lines :: "qstring \<Rightarrow> qstring list option"
  lt_new_entry :: "qstring \<Rightarrow> announce_entry"    \<comment> \<open>\<open>announce_entry(url)\<close>\<close>
  lt_dht_metric :: int                            \<comment> \<open>\<open>find_metric_idx("dht.dht_nodes")\<close>\<close>

section \<open>Snapshots and options\<close>

datatype file_priority_level =
  kNotDownloaded | kDoNotDownload | kNormal | kHigh | kHighest | kFileOrder

datatype tracker_status = kCannotConnect | kNotWorking | kWorking | kUpdating

record file_entry_snapshot =
  fe_fileIndex :: int
  fe_logicalPath :: qstring
  fe_sizeBytes :: int
  fe_downloadedBytes :: int
  fe_progress01 :: real
  fe_availability :: real
  fe_priority :: file_priority_level

record tracker_endpoint_snapshot =
  te_ip :: qstring
  te_port :: int
  te_btProtocol :: qstring
  te_status :: tracker_status
  te_users :: int
  te_seeds :: int
  te_downloads :: int
  te_nextAnnounceSec :: int
  te_minAnnounceSec :: int
  te_message :: qstring

record tracker_row_snapshot =
  tr_url :: qstring
  tr_tier :: int
  tr_btProtocol :: qstring
  tr_status :: tracker_status
  tr_users :: int
  tr_seeds :: int
  tr_downloads :: int
  tr_nextAnnounceSec :: int
  tr_minAnnounceSec :: int
  tr_message :: qstring
  tr_readOnly :: bool
  tr_endpoints :: "tracker_endpoint_snapshot list"

record task_tracker_snapshot =
  tt_fixedRows :: "tracker_row_snapshot list"
  tt_trackers :: "tracker_row_snapshot list"

record copy_payload =
  cp_infoHashV1 :: qstring
  cp_infoHashV2 :: qstring
  cp_magnet :: qstring
  cp_torrentId :: qstring
  cp_comment :: qstring

record add_torrent_options =
  ao_file_priorities :: "nat list"
  ao_start_torrent :: bool
  ao_stop_when_ready :: bool
  ao_sequential_download :: bool
  ao_skip_hash_check :: bool
  ao_add_to_top_queue :: bool
  ao_category :: qstring
  ao_tags_csv :: qstring

record magnet_metadata =
  mm_taskId :: task_id
  mm_name :: qstring
  mm_totalBytes :: int
  mm_creationDate :: int
  mm_infoHashV1 :: qstring
  mm_infoHashV2 :: qstring
  mm_comment :: qstring
  mm_filePaths :: "qstring list"
  mm_fileSizes :: "int list"
  mm_exportedTorrentPath :: qstring

record peer_snapshot =
  ps_ip :: qstring
  ps_port :: int
  ps_client :: qstring
  ps_progress :: real
  ps_downloadRate :: int
  ps_uploadRate :: int
  ps_totalDownloaded :: int
  ps_totalUploaded :: int
  ps_flags :: qstring
  ps_connection :: qstring

record web_seed_snapshot =
  ws_url :: qstring
  ws_type :: qstring

record session_stats =
  ss_dht_nodes :: int
  ss_download_rate :: int
  ss_upload_rate :: int

definition default_stats :: session_stats where
  "default_stats = \<lparr> ss_dht_nodes = - 1, ss_download_rate = 0, ss_upload_rate = 0 \<rparr>"

section \<open>Calls to libtorrent and other effects\<close>

datatype setting_value = SetInt int | SetStr qstring | SetBool bool | SetEnum string

type_synonym settings_pack = "(string \<times> setting_value) list"

datatype promise_value =
    MetaResult "magnet_metadata option"
  | CopyResult copy_payload
  | StatsResult session_stats
  | FilesResult "file_entry_snapshot list"
  | TrackersResult task_tracker_snapshot
  | PeersResult "peer_snapshot list"
  | WebSeedsResult "web_seed_snapshot list"
  | CountResult int

datatype lt_call =
    SetFlag handle torrent_flag
  | UnsetFlag handle torrent_flag
  | PauseTorrent handle
  | ResumeTorrent handle
  | RemoveTorrent handle bool                  \<comment> \<open>with its files\<close>
  | MoveStorage handle qstring
  | ReplaceTrackers handle "announce_entry list"
  | ForceRecheck handle
  | ForceReannounce handle
  | ForceReannounceIdx handle int nat
  | PiecePriority handle int nat
  | QueueUp handle
  | QueueDown handle
  | QueueTop handle
  | QueueBottom handle
  | SaveResumeData handle
  | PrioritizeFiles handle "nat list"
  | RenameFile handle nat qstring
  | SetMaxConnections handle int
  | SetMaxUploads handle int
  | AsyncAddTorrent add_torrent_params
  | ApplySettings settings_pack
  | SetIpFilter ip_filter
  | PostSessionStats
  | PostTorrentUpdates
  | WriteFile qstring bytes
  | Fulfil promise promise_value
  | AlertsCallback "lt_view list"

section \<open>Commands\<close>

record runtime_settings =
  rs_download_rate_limit_kib :: int
  rs_upload_rate_limit_kib :: int
  rs_connections_limit :: int
  rs_upload_slots_limit :: int
  rs_per_torrent_upload_slots_limit :: int
  rs_listen_port :: int
  rs_listen_port_forwarding :: bool
  rs_active_downloads :: int
  rs_active_seeds :: int
  rs_active_limit :: int
  rs_max_active_checking :: int
  rs_auto_manage_prefer_seeds :: bool
  rs_dont_count_slow_torrents :: bool
  rs_slow_torrent_dl_rate_threshold :: int
  rs_slow_torrent_ul_rate_threshold :: int
  rs_slow_torrent_inactive_timer :: int
  rs_enable_dht :: bool
  rs_enable_upnp :: bool
  rs_enable_natpmp :: bool
  rs_enable_lsd :: bool
  rs_proxy_enabled :: bool
  rs_proxy_type :: qstring
  rs_proxy_host :: qstring
  rs_proxy_port :: int
  rs_proxy_username :: qstring
  rs_proxy_password :: qstring
  rs_encryption_mode :: qstring
  rs_ip_filter_enabled :: bool
  rs_ip_filter_path :: qstring
  rs_monitor_port :: int

datatype cmd =
    AddMagnetCmd qstring qstring "qstring list"
  | AddTorrentFileCmd qstring qstring "qstring list" add_torrent_options bool
  | AddFromResumeDataCmd bytes bool
  | PauseCmd task_id
  | ResumeCmd task_id
  | RemoveCmd task_id bool
  | MoveStorageCmd task_id qstring
  | EditTrackersCmd task_id "qstring list"
  | ForceRecheckCmd task_id
  | ForceReannounceCmd task_id
  | SetSequentialDownloadCmd task_id bool
  | SetAutoManagedCmd task_id bool
  | ForceStartCmd task_id
  | SetFirstLastPiecePriorityCmd task_id bool
  | QueuePositionUpCmd task_id
  | QueuePositionDownCmd task_id
  | QueuePositionTopCmd task_id
  | QueuePositionBottomCmd task_id
  | ApplyRuntimeSettingsCmd runtime_settings
  | SetDefaultPerTorrentConnectionsLimitCmd int
  | SetTaskConnectionsLimitCmd task_id int
  | QueryTaskCopyPayloadCmd task_id "promise option"
  | QuerySessionStatsCmd "promise option"
  | QueryTaskFilesCmd task_id "promise option"
  | QueryTaskTrackersCmd task_id "promise option"
  | QueryTaskPeersCmd task_id "promise option"
  | QueryTaskWebSeedsCmd task_id "promise option"
  | SetTaskFilePriorityCmd task_id "int list" file_priority_level
  | RenameTaskFileOrFolderCmd task_id qstring qstring
  | AddTaskTrackerCmd task_id qstring
  | EditTaskTrackerCmd task_id qstring qstring
  | RemoveTaskTrackerCmd task_id qstring
  | ForceReannounceTrackerCmd task_id qstring
  | ForceReannounceAllTrackersCmd task_id
  | SaveAllResumeDataCmd qstring "promise option"
  | PrepareMagnetMetadataCmd qstring qstring "qstring list" int "promise option"
  | CancelPreparedMagnetCmd task_id
  | FinalizePreparedMagnetCmd task_id qstring "qstring list" add_torrent_options
  | ShutdownCmd

section \<open>The shared state\<close>

record pending_meta =
  pm_done :: "promise option"
  pm_tempSavePath :: qstring
  pm_magnetUri :: qstring

text \<open>
  \<open>sw_calls\<close> is the trace of the effects so far, oldest first; \<open>syntheticAlertViews\<close> collects the
  views of one batch of commands. The worker passes both pointers of the context, so neither is null.
\<close>

record session =
  cmds :: "cmd list"
  running :: bool
  alertsCb :: bool
  handlesByTaskId :: "(qstring \<times> handle) list"
  defaultPerTorrentConnectionsLimit :: int
  defaultPerTorrentUploadSlotsLimit :: int
  perTaskConnectionsLimit :: "(qstring \<times> int) list"
  pendingAddOpts :: "(qstring \<times> add_torrent_options) list"
  preparedTorrentInfo :: "(qstring \<times> torrent_meta) list"
  pendingMagnetMeta :: "(qstring \<times> pending_meta) list"
  pendingResumeDataSaves :: int
  completedResumeDataSaves :: int
  resumeDataDir :: qstring
  resumeDataDone :: "promise option"
  pendingSessionStats :: "promise option"
  syntheticAlertViews :: "lt_view list"
  sw_calls :: "lt_call list"

definition initial_session :: session where
  "initial_session =
     \<lparr>cmds = [], running = True, alertsCb = False, handlesByTaskId = [],
      defaultPerTorrentConnectionsLimit = 0, defaultPerTorrentUploadSlotsLimit = 0,
      perTaskConnectionsLimit = [], pendingAddOpts = [], preparedTorrentInfo = [],
      pendingMagnetMeta = [], pendingResumeDataSaves = 0, completedResumeDataSaves = 0,
      resumeDataDir = [], resumeDataDone = None, pendingSessionStats = None,
      syntheticAlertViews = [], sw_calls = []\<rparr>"

definition emit :: "lt_call list \<Rightarrow> session \<Rightarrow> session" where
  "emit cs s = s\<lparr>sw_calls := sw_calls s @ cs\<rparr>"

definition find_handle :: "session \<Rightarrow> task_id \<Rightarrow> handle option" where
  \<comment> \<open>\<open>handlesByTaskId.find(taskIdKey(taskId))\<close>\<close>
  "find_handle s t = map_of (handlesByTaskId s) (taskIdKey t)"

definition find_valid :: "lt_env \<Rightarrow> session \<Rightarrow> task_id \<Rightarrow> handle option" where
  \<comment> \<open>found and \<open>is_valid()\<close>\<close>
  "find_valid E s t = (case find_handle s t of None \<Rightarrow> None | Some h \<Rightarrow>
     if lt_valid E h then Some h else None)"

definition fulfil :: "promise option \<Rightarrow> promise_value \<Rightarrow> session \<Rightarrow> session" where
  \<comment> \<open>\<open>if (done != nullptr) done->set_value(v)\<close>\<close>
  "fulfil p v s = (case p of None \<Rightarrow> s | Some q \<Rightarrow> emit [Fulfil q v] s)"

lemma emit_simps [simp]:
  "emit [] s = s"
  "emit cs (emit ds s) = emit (ds @ cs) s"
  "sw_calls (emit cs s) = sw_calls s @ cs"
  "cmds (emit cs s) = cmds s" "running (emit cs s) = running s" "alertsCb (emit cs s) = alertsCb s"
  "handlesByTaskId (emit cs s) = handlesByTaskId s"
  "defaultPerTorrentConnectionsLimit (emit cs s) = defaultPerTorrentConnectionsLimit s"
  "defaultPerTorrentUploadSlotsLimit (emit cs s) = defaultPerTorrentUploadSlotsLimit s"
  "perTaskConnectionsLimit (emit cs s) = perTaskConnectionsLimit s"
  "pendingAddOpts (emit cs s) = pendingAddOpts s"
  "preparedTorrentInfo (emit cs s) = preparedTorrentInfo s"
  "pendingMagnetMeta (emit cs s) = pendingMagnetMeta s"
  "pendingResumeDataSaves (emit cs s) = pendingResumeDataSaves s"
  "completedResumeDataSaves (emit cs s) = completedResumeDataSaves s"
  "resumeDataDir (emit cs s) = resumeDataDir s" "resumeDataDone (emit cs s) = resumeDataDone s"
  "pendingSessionStats (emit cs s) = pendingSessionStats s"
  "syntheticAlertViews (emit cs s) = syntheticAlertViews s"
  by (simp_all add: emit_def)

lemma fulfil_simps [simp]:
  "fulfil None v s = s"
  "fulfil (Some p) v s = emit [Fulfil p v] s"
  by (simp_all add: fulfil_def)

end
