(* ===== verification/SessionAdd.thy ===== *)
theory SessionAdd
  imports SessionTypes
begin

text \<open>
  Adding torrents: \<open>lt/session_ops_add.cc\<close>. Each \<open>handleOne\<close> overload is one definition under the
  name of its command. What libtorrent makes of a magnet link, a torrent file or resume data is read
  from \<open>lt_env\<close>.
\<close>

section \<open>Operations\<close>

definition task_of_hashes :: "lt_env \<Rightarrow> info_hash \<Rightarrow> task_id" where
  "task_of_hashes E ih = taskIdFromInfoHashes (lt_sha1 E) ih"

definition key_of_hashes :: "lt_env \<Rightarrow> info_hash \<Rightarrow> qstring" where
  "key_of_hashes E ih = taskIdKey (task_of_hashes E ih)"

definition hasActiveTaskForInfoHashes :: "lt_env \<Rightarrow> session \<Rightarrow> info_hash \<Rightarrow> bool" where
  "hasActiveTaskForInfoHashes E s ih =
     (case map_of (handlesByTaskId s) (key_of_hashes E ih) of None \<Rightarrow> False | Some h \<Rightarrow> lt_valid E h)"

definition duplicate_message :: qstring where
  "duplicate_message =
     qu [20219, 21153, 24050, 23384, 22312, 65288, 30456, 21516] @ qs '' info-hash'' @
     qu [65289, 65292, 24050, 24573, 30053, 37325, 22797, 28155, 21152]"

definition emitDuplicateRejected :: "lt_env \<Rightarrow> info_hash \<Rightarrow> session \<Rightarrow> session" where
  "emitDuplicateRejected E ih s =
     (let v = default_view\<lparr>v_type := vtDuplicateRejected, v_taskId := task_of_hashes E ih,
                v_message := duplicate_message, v_eventMs := lt_now_ms E\<rparr>
      in s\<lparr>syntheticAlertViews := syntheticAlertViews s @ [v]\<rparr>)"

definition append_trackers ::
  "lt_env \<Rightarrow> qstring list \<Rightarrow> add_torrent_params \<Rightarrow> add_torrent_params" where
  \<comment> \<open>the loop over \<open>sanitizeTrackers(c.trackers)\<close>\<close>
  "append_trackers E trackers atp =
     atp\<lparr>at_trackers := at_trackers atp @ sanitizeTrackers (lt_input E) trackers\<rparr>"

definition set_flags_if :: "bool \<Rightarrow> torrent_flag \<Rightarrow> add_torrent_params \<Rightarrow> add_torrent_params" where
  "set_flags_if b f atp = (if b then atp\<lparr>at_flags := insert f (at_flags atp)\<rparr> else atp)"

definition apply_options :: "add_torrent_options \<Rightarrow> add_torrent_params \<Rightarrow> add_torrent_params" where
  \<comment> \<open>the flags and file priorities that \<open>AddTorrentOptions\<close> asks for\<close>
  "apply_options opts atp =
     (let a1 = set_flags_if (\<not> ao_start_torrent opts) fPaused atp;
          a2 = set_flags_if (ao_stop_when_ready opts) fStopWhenReady a1;
          a3 = set_flags_if (ao_sequential_download opts) fSequential a2;
          a4 = set_flags_if (ao_skip_hash_check opts) fNoVerify a3
      in if ao_file_priorities opts \<noteq> []
         then a4\<lparr>at_file_priorities := ao_file_priorities opts\<rparr> else a4)"

definition addMagnetCmd :: "lt_env \<Rightarrow> qstring \<Rightarrow> qstring \<Rightarrow> qstring list \<Rightarrow> session \<Rightarrow> session" where
  "addMagnetCmd E uri savePath trackers s =
     (if hasError (validateMagnetUri (lt_input E) (trimmed uri)) then s
      else case lt_parse_magnet E (trimmed uri) of
        Inl _ \<Rightarrow> s
      | Inr atp \<Rightarrow>
          if hasActiveTaskForInfoHashes E s (at_info_hashes atp)
          then emitDuplicateRejected E (at_info_hashes atp) s
          else
            (let a1 = append_trackers E trackers (atp\<lparr>at_save_path := savePath\<rparr>);
                 a2 = a1\<lparr>at_flags := insert fAutoManaged (at_flags a1)\<rparr>
             in emit [AsyncAddTorrent a2] s))"

definition prepareMagnetMetadataCmd ::
  "lt_env \<Rightarrow> qstring \<Rightarrow> qstring \<Rightarrow> qstring list \<Rightarrow> promise option \<Rightarrow> session \<Rightarrow> session" where
  "prepareMagnetMetadataCmd E uri tempSavePath trackers done s =
     (case done of
        None \<Rightarrow> s
      | Some p \<Rightarrow>
          if hasError (validateMagnetUri (lt_input E) (trimmed uri))
          then emit [Fulfil p (MetaResult None)] s
          else case lt_parse_magnet E (trimmed uri) of
            Inl _ \<Rightarrow> emit [Fulfil p (MetaResult None)] s
          | Inr atp \<Rightarrow>
              if hasActiveTaskForInfoHashes E s (at_info_hashes atp)
              then emit [Fulfil p (MetaResult None)]
                     (emitDuplicateRejected E (at_info_hashes atp) s)
              else
                (let key = key_of_hashes E (at_info_hashes atp);
                     s1 = s\<lparr>pendingMagnetMeta := omap_put key
                              \<lparr>pm_done = Some p, pm_tempSavePath = tempSavePath,
                               pm_magnetUri = trimmed uri\<rparr> (pendingMagnetMeta s)\<rparr>;
                     a1 = append_trackers E trackers (atp\<lparr>at_save_path := tempSavePath\<rparr>);
                     a2 = a1\<lparr>at_flags := {fUploadMode} - {fAutoManaged} - {fPaused}\<rparr>
                 in emit [AsyncAddTorrent a2] s1))"

definition remove_handle_of :: "qstring \<Rightarrow> session \<Rightarrow> session" where
  \<comment> \<open>\<open>if found, ses.remove_torrent(handle)\<close>, then \<open>handlesByTaskId.erase(key)\<close>\<close>
  "remove_handle_of key s =
     (let s1 = (case map_of (handlesByTaskId s) key of
                  None \<Rightarrow> s | Some h \<Rightarrow> emit [RemoveTorrent h False] s)
      in s1\<lparr>handlesByTaskId := omap_erase key (handlesByTaskId s1)\<rparr>)"

definition cancelPreparedMagnetCmd :: "task_id \<Rightarrow> session \<Rightarrow> session" where
  "cancelPreparedMagnetCmd taskId s =
     (let key = taskIdKey taskId;
          s1 = remove_handle_of key s
      in s1\<lparr>preparedTorrentInfo := omap_erase key (preparedTorrentInfo s1),
            pendingMagnetMeta := omap_erase key (pendingMagnetMeta s1)\<rparr>)"

definition finalizePreparedMagnetCmd ::
  "lt_env \<Rightarrow> task_id \<Rightarrow> qstring \<Rightarrow> qstring list \<Rightarrow> add_torrent_options \<Rightarrow> session \<Rightarrow> session" where
  "finalizePreparedMagnetCmd E taskId savePath trackers opts s =
     (let key = taskIdKey taskId in
      case map_of (preparedTorrentInfo s) key of
        None \<Rightarrow> s
      | Some ti \<Rightarrow>
          (let s1 = remove_handle_of key s;
               a0 = (lt_default_params E)\<lparr>at_ti := Some ti, at_save_path := savePath\<rparr>;
               a1 = append_trackers E trackers a0;
               a2 = apply_options opts (a1\<lparr>at_flags := insert fAutoManaged (at_flags a1)\<rparr>);
               s2 = s1\<lparr>pendingAddOpts := omap_put key opts (pendingAddOpts s1),
                       preparedTorrentInfo := omap_erase key (preparedTorrentInfo s1)\<rparr>
           in emit [AsyncAddTorrent a2] s2))"

definition addTorrentFileCmd ::
  "lt_env \<Rightarrow> qstring \<Rightarrow> qstring \<Rightarrow> qstring list \<Rightarrow> add_torrent_options \<Rightarrow> bool \<Rightarrow> session \<Rightarrow> session"
where
  "addTorrentFileCmd E filePath savePath trackers opts has_opts s =
     (if hasError (validateTorrentFilePath (lt_input E) filePath) then s
      else case lt_load_torrent E filePath of
        None \<Rightarrow> s
      | Some ti \<Rightarrow>
          if hasActiveTaskForInfoHashes E s (tm_info_hashes ti)
          then emitDuplicateRejected E (tm_info_hashes ti) s
          else
            (let a0 = (lt_default_params E)\<lparr>at_ti := Some ti, at_save_path := savePath\<rparr>;
                 a1 = append_trackers E trackers a0;
                 a2 = a1\<lparr>at_flags := insert fAutoManaged (at_flags a1)\<rparr>;
                 a3 = (if has_opts then apply_options opts a2 else a2);
                 s1 = (if has_opts
                       then s\<lparr>pendingAddOpts :=
                              omap_put (key_of_hashes E (tm_info_hashes ti)) opts (pendingAddOpts s)\<rparr>
                       else s)
             in emit [AsyncAddTorrent a3] s1))"

definition addFromResumeDataCmd :: "lt_env \<Rightarrow> bytes \<Rightarrow> bool \<Rightarrow> session \<Rightarrow> session" where
  "addFromResumeDataCmd E resumeData startPaused s =
     (if resumeData = [] then s
      else case lt_read_resume E resumeData of
        Inl _ \<Rightarrow> s
      | Inr atp \<Rightarrow>
          if hasActiveTaskForInfoHashes E s (at_info_hashes atp)
          then emitDuplicateRejected E (at_info_hashes atp) s
          else
            (let a1 = (if startPaused
                       then atp\<lparr>at_flags := insert fPaused (at_flags atp) - {fAutoManaged}\<rparr>
                       else atp\<lparr>at_flags := insert fAutoManaged (at_flags atp - {fPaused})\<rparr>)
             in emit [AsyncAddTorrent a1] s))"

end
