(* ===== verification/SessionControl.thy ===== *)
theory SessionControl
  imports SessionAdd
begin

text \<open>
  Commands on existing torrents: \<open>lt/session_ops_control.cc\<close> and \<open>lt/session_ops_settings.cc\<close>.
  \<open>on_found\<close> and \<open>on_valid\<close> are the two guards the handlers share: the handle is filed under the key
  of the task, and (for most of them) it is still valid.
\<close>

section \<open>Guards\<close>

definition on_found :: "session \<Rightarrow> task_id \<Rightarrow> (handle \<Rightarrow> session) \<Rightarrow> session" where
  "on_found s t f = (case find_handle s t of None \<Rightarrow> s | Some h \<Rightarrow> f h)"

definition on_valid :: "lt_env \<Rightarrow> session \<Rightarrow> task_id \<Rightarrow> (handle \<Rightarrow> session) \<Rightarrow> session" where
  "on_valid E s t f = (case find_valid E s t of None \<Rightarrow> s | Some h \<Rightarrow> f h)"

section \<open>Helpers\<close>

definition toLtPriority :: "file_priority_level \<Rightarrow> nat" where
  "toLtPriority level =
     (case level of kDoNotDownload \<Rightarrow> 0 | kNotDownloaded \<Rightarrow> 1 | kHigh \<Rightarrow> 6 | kHighest \<Rightarrow> 7
      | kFileOrder \<Rightarrow> 4 | kNormal \<Rightarrow> 4)"

fun merged_loop ::
  "(qstring \<Rightarrow> announce_entry) \<Rightarrow> announce_entry list \<Rightarrow> qstring list \<Rightarrow> int \<Rightarrow> announce_entry list"
where
  "merged_loop new old [] tier = []"
| "merged_loop new old (u # us) tier =
     (let t = trimmed u in
      if t = [] then merged_loop new old us tier
      else
        (let ae = (new t)\<lparr>ae_tier := tier\<rparr>;
             ae' = (case List.find (\<lambda>o1. trimmed (ae_url o1) = t) old of
                      None \<Rightarrow> ae
                    | Some o1 \<Rightarrow> ae\<lparr>ae_source := ae_source o1, ae_fail_limit := ae_fail_limit o1\<rparr>)
         in ae' # merged_loop new old us (tier + 1)))"

definition mergedTrackers ::
  "lt_env \<Rightarrow> announce_entry list \<Rightarrow> qstring list \<Rightarrow> announce_entry list" where
  "mergedTrackers E oldList urls = merged_loop (lt_new_entry E) oldList urls 0"

section \<open>Pause, resume, remove, move, trackers, recheck\<close>

definition pauseCmd :: "task_id \<Rightarrow> session \<Rightarrow> session" where
  "pauseCmd t s = on_found s t (\<lambda>h. emit [UnsetFlag h fAutoManaged, PauseTorrent h] s)"

definition resumeCmd :: "lt_env \<Rightarrow> task_id \<Rightarrow> session \<Rightarrow> session" where
  "resumeCmd E t s =
     on_valid E s t (\<lambda>h. emit [SetFlag h fAutoManaged, ResumeTorrent h, QueueTop h] s)"

definition removeCmd :: "task_id \<Rightarrow> bool \<Rightarrow> session \<Rightarrow> session" where
  "removeCmd t removeFiles s = on_found s t (\<lambda>h. emit [RemoveTorrent h removeFiles] s)"

definition moveStorageCmd :: "task_id \<Rightarrow> qstring \<Rightarrow> session \<Rightarrow> session" where
  "moveStorageCmd t targetPath s = on_found s t (\<lambda>h. emit [MoveStorage h targetPath] s)"

definition editTrackersCmd :: "lt_env \<Rightarrow> task_id \<Rightarrow> qstring list \<Rightarrow> session \<Rightarrow> session" where
  "editTrackersCmd E t trackers s =
     on_found s t (\<lambda>h. emit [ReplaceTrackers h
       (map (lt_new_entry E) (filter (\<lambda>x. x \<noteq> []) (map trimmed trackers)))] s)"

definition forceRecheckCmd :: "lt_env \<Rightarrow> task_id \<Rightarrow> session \<Rightarrow> session" where
  "forceRecheckCmd E t s = on_valid E s t (\<lambda>h. emit [ForceRecheck h] s)"

definition forceReannounceCmd :: "lt_env \<Rightarrow> task_id \<Rightarrow> session \<Rightarrow> session" where
  "forceReannounceCmd E t s = on_valid E s t (\<lambda>h. emit [ForceReannounce h] s)"

definition setSequentialDownloadCmd :: "lt_env \<Rightarrow> task_id \<Rightarrow> bool \<Rightarrow> session \<Rightarrow> session" where
  "setSequentialDownloadCmd E t enabled s =
     on_valid E s t (\<lambda>h. emit [if enabled then SetFlag h fSequential else UnsetFlag h fSequential] s)"

definition setAutoManagedCmd :: "lt_env \<Rightarrow> task_id \<Rightarrow> bool \<Rightarrow> session \<Rightarrow> session" where
  "setAutoManagedCmd E t enabled s =
     on_valid E s t (\<lambda>h. emit [if enabled then SetFlag h fAutoManaged else UnsetFlag h fAutoManaged] s)"

definition forceStartCmd :: "lt_env \<Rightarrow> task_id \<Rightarrow> session \<Rightarrow> session" where
  "forceStartCmd E t s = on_valid E s t (\<lambda>h. emit [UnsetFlag h fAutoManaged, ResumeTorrent h] s)"

definition first_last_pieces :: "torrent_meta \<Rightarrow> nat \<Rightarrow> int list" where
  \<comment> \<open>the pieces of the first and the last byte of file \<open>fi\<close>, one when they are the same\<close>
  "first_last_pieces ti fi =
     (let firstPiece = tm_piece_of ti fi 0;
          lastPiece = tm_piece_of ti fi (max (snd (tm_files ti ! fi) - 1) 0)
      in if lastPiece \<noteq> firstPiece then [firstPiece, lastPiece] else [firstPiece])"

definition setFirstLastPiecePriorityCmd :: "lt_env \<Rightarrow> task_id \<Rightarrow> bool \<Rightarrow> session \<Rightarrow> session" where
  "setFirstLastPiecePriorityCmd E t enabled s =
     on_valid E s t (\<lambda>h.
       case lt_torrent_file E h of
         None \<Rightarrow> s
       | Some ti \<Rightarrow>
           if tm_num_pieces ti = 0 then s
           else
             (let prio = (if enabled then 7 else 4) in
              emit (concat (map (\<lambda>fi. map (\<lambda>p. PiecePriority h p prio) (first_last_pieces ti fi))
                      [0 ..< length (tm_files ti)])) s))"

definition queuePositionUpCmd :: "lt_env \<Rightarrow> task_id \<Rightarrow> session \<Rightarrow> session" where
  "queuePositionUpCmd E t s = on_valid E s t (\<lambda>h. emit [QueueUp h] s)"

definition queuePositionDownCmd :: "lt_env \<Rightarrow> task_id \<Rightarrow> session \<Rightarrow> session" where
  "queuePositionDownCmd E t s = on_valid E s t (\<lambda>h. emit [QueueDown h] s)"

definition queuePositionTopCmd :: "lt_env \<Rightarrow> task_id \<Rightarrow> session \<Rightarrow> session" where
  "queuePositionTopCmd E t s = on_valid E s t (\<lambda>h. emit [QueueTop h] s)"

definition queuePositionBottomCmd :: "lt_env \<Rightarrow> task_id \<Rightarrow> session \<Rightarrow> session" where
  "queuePositionBottomCmd E t s = on_valid E s t (\<lambda>h. emit [QueueBottom h] s)"

definition valid_handles :: "lt_env \<Rightarrow> session \<Rightarrow> handle list" where
  \<comment> \<open>the valid handles of the map, in the order of its keys\<close>
  "valid_handles E s = filter (lt_valid E) (map snd (handlesByTaskId s))"

definition saveAllResumeDataCmd :: "lt_env \<Rightarrow> qstring \<Rightarrow> promise option \<Rightarrow> session \<Rightarrow> session" where
  "saveAllResumeDataCmd E resumeDir pr s =
     (let hs = valid_handles E s;
          s1 = emit (map SaveResumeData hs)
                 (s\<lparr>resumeDataDir := resumeDir, resumeDataDone := pr,
                    pendingResumeDataSaves := int (length hs), completedResumeDataSaves := 0\<rparr>)
      in if pendingResumeDataSaves s1 = 0
         then (fulfil (resumeDataDone s1) (CountResult 0) s1)\<lparr>resumeDataDone := None\<rparr>
         else s1)"

section \<open>File priorities\<close>

fun set_priorities :: "nat list \<Rightarrow> int list \<Rightarrow> nat \<Rightarrow> nat list" where
  "set_priorities ps [] target = ps"
| "set_priorities ps (raw # is) target =
     (if raw < 0 \<or> raw \<ge> int (length ps) then set_priorities ps is target
      else set_priorities (ps[nat raw := target]) is target)"

definition setTaskFilePriorityCmd ::
  "lt_env \<Rightarrow> task_id \<Rightarrow> int list \<Rightarrow> file_priority_level \<Rightarrow> session \<Rightarrow> session" where
  "setTaskFilePriorityCmd E t fileIndices level s =
     on_valid E s t (\<lambda>h.
       let priorities = lt_file_priorities E h in
       if priorities = [] then s
       else
         (let s1 = (if level = kFileOrder then emit [SetFlag h fSequential] s else s)
          in emit [PrioritizeFiles h (set_priorities priorities fileIndices (toLtPriority level))] s1))"

section \<open>Tracker edits\<close>

definition addTaskTrackerCmd :: "lt_env \<Rightarrow> task_id \<Rightarrow> qstring \<Rightarrow> session \<Rightarrow> session" where
  "addTaskTrackerCmd E t url s =
     on_valid E s t (\<lambda>h.
       let old = lt_trackers E h in
       emit [ReplaceTrackers h (mergedTrackers E old (map ae_url old @ [url]))] s)"

definition editTaskTrackerCmd :: "lt_env \<Rightarrow> task_id \<Rightarrow> qstring \<Rightarrow> qstring \<Rightarrow> session \<Rightarrow> session" where
  "editTaskTrackerCmd E t oldUrl newUrl s =
     on_valid E s t (\<lambda>h.
       let old = lt_trackers E h;
           urls = map (\<lambda>ae. if trimmed (ae_url ae) = trimmed oldUrl then trimmed newUrl else ae_url ae) old
       in emit [ReplaceTrackers h (mergedTrackers E old urls)] s)"

definition removeTaskTrackerCmd :: "lt_env \<Rightarrow> task_id \<Rightarrow> qstring \<Rightarrow> session \<Rightarrow> session" where
  "removeTaskTrackerCmd E t url s =
     on_valid E s t (\<lambda>h.
       let old = lt_trackers E h;
           urls = filter (\<lambda>u. trimmed u \<noteq> trimmed url) (map ae_url old)
       in emit [ReplaceTrackers h (mergedTrackers E old urls)] s)"

fun tracker_index :: "qstring \<Rightarrow> announce_entry list \<Rightarrow> nat \<Rightarrow> nat option" where
  "tracker_index url [] i = None"
| "tracker_index url (ae # aes) i =
     (if trimmed (ae_url ae) = trimmed url then Some i else tracker_index url aes (Suc i))"

definition forceReannounceTrackerCmd :: "lt_env \<Rightarrow> task_id \<Rightarrow> qstring \<Rightarrow> session \<Rightarrow> session" where
  "forceReannounceTrackerCmd E t url s =
     on_valid E s t (\<lambda>h.
       case tracker_index url (lt_trackers E h) 0 of
         Some i \<Rightarrow> emit [ForceReannounceIdx h 0 i] s
       | None \<Rightarrow> emit [ForceReannounce h] s)"

definition forceReannounceAllTrackersCmd :: "lt_env \<Rightarrow> task_id \<Rightarrow> session \<Rightarrow> session" where
  "forceReannounceAllTrackersCmd E t s = on_valid E s t (\<lambda>h. emit [ForceReannounce h] s)"

section \<open>Renaming\<close>

definition slash_char :: qchar where "slash_char = qc CHR ''/''"

definition parent_of :: "qstring \<Rightarrow> qstring" where
  \<comment> \<open>what is left of the last slash, empty when there is none\<close>
  "parent_of src = (if slash_char \<in> set src
                    then rev (tl (dropWhile (\<lambda>c. c \<noteq> slash_char) (rev src))) else [])"

definition rename_target :: "qstring \<Rightarrow> qstring \<Rightarrow> qstring" where
  "rename_target src targetName =
     (if parent_of src = [] then targetName else parent_of src @ [slash_char] @ targetName)"

definition rename_of :: "qstring \<Rightarrow> qstring \<Rightarrow> qstring \<Rightarrow> qstring option" where
  \<comment> \<open>the new path of a file with path \<open>p\<close>, if it is renamed\<close>
  "rename_of src renamedRoot p =
     (if p = src then Some renamedRoot
      else if starts_with p (src @ [slash_char])
      then Some (renamedRoot @ [slash_char] @ drop (length (src @ [slash_char])) p)
      else None)"

definition rename_calls :: "handle \<Rightarrow> qstring \<Rightarrow> qstring \<Rightarrow> qstring list \<Rightarrow> lt_call list" where
  "rename_calls h src renamedRoot paths =
     List.map_filter (\<lambda>i. case rename_of src renamedRoot (paths ! i) of
         None \<Rightarrow> None | Some p \<Rightarrow> Some (RenameFile h i p)) [0 ..< length paths]"

definition renameTaskFileOrFolderCmd ::
  "lt_env \<Rightarrow> task_id \<Rightarrow> qstring \<Rightarrow> qstring \<Rightarrow> session \<Rightarrow> session" where
  "renameTaskFileOrFolderCmd E t logicalPath newName s =
     on_valid E s t (\<lambda>h.
       case lt_torrent_file E h of
         None \<Rightarrow> s
       | Some ti \<Rightarrow>
           (let src = trimmed logicalPath; targetName = trimmed newName in
            if src = [] \<or> targetName = [] then s
            else emit (rename_calls h src (rename_target src targetName) (map fst (tm_files ti))) s))"

end
