(* ===== verification/SessionSettings.thy ===== *)
theory SessionSettings
  imports SessionControl
begin

text \<open>
  Settings commands: \<open>lt/session_ops_settings.cc\<close>. A settings pack is the list of its assignments in
  order, under the names of \<open>libtorrent::settings_pack\<close>; libtorrent's own enumerators are \<open>SetEnum\<close>.
\<close>

section \<open>Listen interfaces\<close>

definition pushUnique :: "int list \<Rightarrow> int \<Rightarrow> int list" where
  "pushUnique ports p =
     (if p < 0 \<or> p > 65535 then ports else if p \<in> set ports then ports else ports @ [p])"

definition listen_ports :: "int \<Rightarrow> int \<Rightarrow> int list" where
  "listen_ports listen_port monitor_port =
     (let a = pushUnique [] listen_port;
          b = (if monitor_port > 0 then pushUnique a monitor_port else a)
      in if b = [] then pushUnique b 0 else b)"

definition buildListenInterfacesString :: "int \<Rightarrow> int \<Rightarrow> qstring" where
  "buildListenInterfacesString listen_port monitor_port =
     join (qs '','') (map (\<lambda>p. qarg (qs ''0.0.0.0:%1,[::]:%1'') (qnum p))
       (listen_ports listen_port monitor_port))"

section \<open>The settings pack\<close>

definition rate_setting :: "string \<Rightarrow> int \<Rightarrow> settings_pack" where
  "rate_setting name kib =
     (if kib > 0 then [(name, SetInt (kib * 1024))]
      else if kib = 0 then [(name, SetInt 0)] else [])"

definition limit_setting :: "string \<Rightarrow> int \<Rightarrow> int \<Rightarrow> settings_pack" where
  \<comment> \<open>a positive limit as it is, zero as \<open>unset\<close>, nothing for a negative one\<close>
  "limit_setting name v unset =
     (if v > 0 then [(name, SetInt v)] else if v = 0 then [(name, SetInt unset)] else [])"

definition active_setting :: "string \<Rightarrow> int \<Rightarrow> settings_pack" where
  "active_setting name v = [(name, SetInt (if v > 0 then v else - 1))]"

definition positive_setting :: "string \<Rightarrow> int \<Rightarrow> int \<Rightarrow> settings_pack" where
  "positive_setting name v factor = (if v > 0 then [(name, SetInt (v * factor))] else [])"

definition proxyType :: "lt_env \<Rightarrow> runtime_settings \<Rightarrow> string" where
  "proxyType E c =
     (let anonymous = trimmed (rs_proxy_username c) = [] \<and> rs_proxy_password c = [] in
      if in_lower (lt_input E) (trimmed (rs_proxy_type c)) = qs ''http''
      then (if anonymous then ''http'' else ''http_pw'')
      else (if anonymous then ''socks5'' else ''socks5_pw''))"

definition proxy_settings :: "lt_env \<Rightarrow> runtime_settings \<Rightarrow> settings_pack" where
  "proxy_settings E c =
     (if rs_proxy_enabled c \<and> trimmed (rs_proxy_host c) \<noteq> [] then
        [(''proxy_type'', SetEnum (proxyType E c)),
         (''proxy_hostname'', SetStr (trimmed (rs_proxy_host c))),
         (''proxy_port'', SetInt (clamp (rs_proxy_port c) 1 65535)),
         (''proxy_username'', SetStr (trimmed (rs_proxy_username c))),
         (''proxy_password'', SetStr (rs_proxy_password c)),
         (''proxy_peer_connections'', SetBool True),
         (''proxy_hostnames'', SetBool True)]
      else [(''proxy_type'', SetEnum ''none'')])"

definition encryption_settings :: "lt_env \<Rightarrow> qstring \<Rightarrow> settings_pack" where
  "encryption_settings E encryption_mode =
     (let mode = in_lower (lt_input E) (trimmed encryption_mode) in
      if mode = qs ''forced'' then
        [(''in_enc_policy'', SetEnum ''pe_forced''), (''out_enc_policy'', SetEnum ''pe_forced''),
         (''allowed_enc_level'', SetEnum ''pe_both'')]
      else if mode = qs ''disabled'' then
        [(''in_enc_policy'', SetEnum ''pe_disabled''), (''out_enc_policy'', SetEnum ''pe_disabled''),
         (''allowed_enc_level'', SetEnum ''pe_plaintext'')]
      else
        [(''in_enc_policy'', SetEnum ''pe_enabled''), (''out_enc_policy'', SetEnum ''pe_enabled''),
         (''allowed_enc_level'', SetEnum ''pe_both'')])"

definition settings_of :: "lt_env \<Rightarrow> runtime_settings \<Rightarrow> settings_pack" where
  "settings_of E c =
     rate_setting ''download_rate_limit'' (rs_download_rate_limit_kib c) @
     rate_setting ''upload_rate_limit'' (rs_upload_rate_limit_kib c) @
     limit_setting ''connections_limit'' (rs_connections_limit c) 0 @
     limit_setting ''unchoke_slots_limit'' (rs_upload_slots_limit c) (- 1) @
     [(''listen_interfaces'', SetStr (buildListenInterfacesString (clamp (rs_listen_port c) 0 65535)
         (clamp (rs_monitor_port c) 0 65535)))] @
     active_setting ''active_downloads'' (rs_active_downloads c) @
     active_setting ''active_seeds'' (rs_active_seeds c) @
     active_setting ''active_limit'' (rs_active_limit c) @
     positive_setting ''active_checking'' (rs_max_active_checking c) 1 @
     [(''auto_manage_prefer_seeds'', SetBool (rs_auto_manage_prefer_seeds c)),
      (''dont_count_slow_torrents'', SetBool (rs_dont_count_slow_torrents c))] @
     positive_setting ''inactive_down_rate'' (rs_slow_torrent_dl_rate_threshold c) 1024 @
     positive_setting ''inactive_up_rate'' (rs_slow_torrent_ul_rate_threshold c) 1024 @
     positive_setting ''auto_manage_startup'' (rs_slow_torrent_inactive_timer c) 1 @
     [(''enable_dht'', SetBool (rs_enable_dht c)),
      (''enable_upnp'', SetBool (rs_enable_upnp c \<and> rs_listen_port_forwarding c)),
      (''enable_natpmp'', SetBool (rs_enable_natpmp c \<and> rs_listen_port_forwarding c)),
      (''enable_lsd'', SetBool (rs_enable_lsd c))] @
     proxy_settings E c @
     encryption_settings E (rs_encryption_mode c)"

definition ip_filter_of :: "lt_env \<Rightarrow> runtime_settings \<Rightarrow> ip_filter" where
  \<comment> \<open>the filter of the file; empty when it is off, has no path or cannot be loaded\<close>
  "ip_filter_of E c =
     (let path = trimmed (rs_ip_filter_path c) in
      if \<not> rs_ip_filter_enabled c \<or> path = [] then []
      else case loadIpFilterFile (lt_ip_env E) (lt_read_lines E path) of
        Inl _ \<Rightarrow> [] | Inr (rules, f) \<Rightarrow> f)"

section \<open>Commands\<close>

definition applyRuntimeSettingsCmd :: "lt_env \<Rightarrow> runtime_settings \<Rightarrow> session \<Rightarrow> session" where
  "applyRuntimeSettingsCmd E c s =
     (let s1 = emit [ApplySettings (settings_of E c), SetIpFilter (ip_filter_of E c)] s
      in if rs_per_torrent_upload_slots_limit c \<ge> 0
         then emit (map (\<lambda>h. SetMaxUploads h (rs_per_torrent_upload_slots_limit c)) (valid_handles E s1)) s1
         else s1)"

definition setDefaultPerTorrentConnectionsLimitCmd :: "lt_env \<Rightarrow> int \<Rightarrow> session \<Rightarrow> session" where
  "setDefaultPerTorrentConnectionsLimitCmd E limit s =
     (let v = clamp limit 0 20000; s1 = s\<lparr>defaultPerTorrentConnectionsLimit := v\<rparr>
      in emit (map (\<lambda>h. SetMaxConnections h v) (valid_handles E s1)) s1)"

definition setTaskConnectionsLimitCmd :: "lt_env \<Rightarrow> task_id \<Rightarrow> int \<Rightarrow> session \<Rightarrow> session" where
  "setTaskConnectionsLimitCmd E t limit s =
     (let v = clamp limit 0 20000;
          s1 = s\<lparr>perTaskConnectionsLimit := omap_put (taskIdKey t) v (perTaskConnectionsLimit s)\<rparr>
      in on_valid E s1 t (\<lambda>h. emit [SetMaxConnections h v] s1))"

end
