(* ===== verification/SessionQuery.thy ===== *)
theory SessionQuery
  imports SessionSettings
begin

text \<open>
  Queries: \<open>lt/session_ops_query.cc\<close>. Each builds a snapshot from what libtorrent reports for the
  handle of the task and fulfils the promise of the command with it, or with an empty snapshot.
\<close>

section \<open>Helpers\<close>

definition toLevel :: "nat \<Rightarrow> bool \<Rightarrow> file_priority_level" where
  "toLevel v sequential =
     (if v = 0 then kDoNotDownload
      else if sequential then kFileOrder
      else if v \<ge> 7 then kHighest
      else if v \<ge> 6 then kHigh
      else if v \<ge> 4 then kNormal
      else kNotDownloaded)"

definition secondsUntilTimePoint32 :: "int \<Rightarrow> int option \<Rightarrow> int" where
  "secondsUntilTimePoint32 now tp =
     (case tp of None \<Rightarrow> - 1 | Some t \<Rightarrow> if t \<le> now then 0 else t - now)"

definition infohashHasSuccessfulContact :: "announce_infohash \<Rightarrow> bool" where
  "infohashHasSuccessfulContact ih \<longleftrightarrow>
     ai_start_sent ih \<or> ai_complete_sent ih \<or> ai_scrape_incomplete ih \<ge> 0 \<or>
     ai_scrape_complete ih \<ge> 0 \<or> ai_scrape_downloaded ih \<ge> 0"

definition mapInfohashStatus :: "announce_infohash \<Rightarrow> tracker_status" where
  "mapInfohashStatus ih =
     (if ai_updating ih then kUpdating
      else if ai_fails ih > 0 \<or> ai_last_error ih \<noteq> None then kCannotConnect
      else if infohashHasSuccessfulContact ih then kWorking
      else kNotWorking)"

fun status_flags :: "announce_infohash list \<Rightarrow> bool \<times> bool \<times> bool \<Rightarrow> bool \<times> bool \<times> bool" where
  \<comment> \<open>\<open>anyUpdating\<close>, \<open>anyWorking\<close>, \<open>anyCannot\<close> after the loop\<close>
  "status_flags [] f = f"
| "status_flags (ih # ihs) (u, w, c) =
     status_flags ihs (case mapInfohashStatus ih of
         kUpdating \<Rightarrow> (True, w, c) | kWorking \<Rightarrow> (u, True, c) | kCannotConnect \<Rightarrow> (u, w, True)
       | kNotWorking \<Rightarrow> (u, w, c))"

definition pick_status :: "bool \<times> bool \<times> bool \<Rightarrow> tracker_status" where
  "pick_status f = (case f of (u, w, c) \<Rightarrow>
     if u then kUpdating else if w then kWorking else if c then kCannotConnect else kNotWorking)"

definition aggregateInfohashStatuses :: "announce_endpoint \<Rightarrow> tracker_status" where
  "aggregateInfohashStatuses ep = pick_status (status_flags (ae_info_hashes ep) (False, False, False))"

fun endpoint_flags :: "announce_endpoint list \<Rightarrow> bool \<times> bool \<times> bool \<Rightarrow> bool \<times> bool \<times> bool" where
  "endpoint_flags [] f = f"
| "endpoint_flags (ep # eps) f = endpoint_flags eps (status_flags (ae_info_hashes ep) f)"

definition mapTrackerStatus :: "announce_entry \<Rightarrow> tracker_status" where
  "mapTrackerStatus ae = pick_status (endpoint_flags (ae_endpoints ae) (False, False, False))"

definition readable :: "lt_env \<Rightarrow> bytes \<Rightarrow> qstring" where
  "readable E b = sanitizeHumanReadableText (QStringFromStdBytes (lt_from_utf8 E) b)"

definition messageFromAnnounceEndpoint :: "lt_env \<Rightarrow> announce_endpoint \<Rightarrow> qstring" where
  "messageFromAnnounceEndpoint E ep =
     join (qs ''; '') (List.map_filter (\<lambda>ih.
       if ai_message ih \<noteq> [] then Some (readable E (ai_message ih))
       else case ai_last_error ih of None \<Rightarrow> None | Some m \<Rightarrow> Some (readable E m)) (ae_info_hashes ep))"

section \<open>Copy payload and session statistics\<close>

definition copy_payload_of :: "lt_env \<Rightarrow> session \<Rightarrow> task_id \<Rightarrow> copy_payload" where
  "copy_payload_of E s t =
     (let p0 = \<lparr>cp_infoHashV1 = [], cp_infoHashV2 = [], cp_magnet = [], cp_torrentId = taskIdKey t,
                cp_comment = []\<rparr>
      in case find_valid E s t of
           None \<Rightarrow> p0
         | Some h \<Rightarrow>
             p0\<lparr>cp_infoHashV1 := (case ih_v1 (lt_info_hashes E h) of None \<Rightarrow> [] | Some x \<Rightarrow> x),
                cp_infoHashV2 := (case ih_v2 (lt_info_hashes E h) of None \<Rightarrow> [] | Some x \<Rightarrow> x),
                cp_magnet := lt_magnet_uri E h,
                cp_comment := (case lt_torrent_file E h of None \<Rightarrow> [] | Some ti \<Rightarrow> tm_comment ti)\<rparr>)"

definition queryTaskCopyPayloadCmd :: "lt_env \<Rightarrow> task_id \<Rightarrow> promise option \<Rightarrow> session \<Rightarrow> session" where
  "queryTaskCopyPayloadCmd E t pr s = fulfil pr (CopyResult (copy_payload_of E s t)) s"

definition querySessionStatsCmd :: "promise option \<Rightarrow> session \<Rightarrow> session" where
  \<comment> \<open>the worker answers when the statistics alert comes\<close>
  "querySessionStatsCmd pr s = (case pr of None \<Rightarrow> s | Some p \<Rightarrow> s\<lparr>pendingSessionStats := Some p\<rparr>)"

section \<open>Files\<close>

definition file_snapshot ::
  "real \<Rightarrow> bool \<Rightarrow> int list \<Rightarrow> nat list \<Rightarrow> torrent_meta \<Rightarrow> nat \<Rightarrow> file_entry_snapshot" where
  "file_snapshot availability sequential fileProgress priorities ti i =
     (let size = snd (tm_files ti ! i);
          downloaded = (if i < length fileProgress then fileProgress ! i else 0)
      in \<lparr>fe_fileIndex = int i,
          fe_logicalPath = fst (tm_files ti ! i),
          fe_sizeBytes = size,
          fe_downloadedBytes = downloaded,
          fe_progress01 = (if size > 0 then min 1 (max 0 (real_of_int downloaded / real_of_int size)) else 0),
          fe_availability = availability,
          fe_priority = (if i < length priorities then toLevel (priorities ! i) sequential else kNormal)\<rparr>)"

definition task_files :: "lt_env \<Rightarrow> session \<Rightarrow> task_id \<Rightarrow> file_entry_snapshot list" where
  "task_files E s t =
     (case find_valid E s t of
        None \<Rightarrow> []
      | Some h \<Rightarrow>
          (case lt_torrent_file E h of
             None \<Rightarrow> []
           | Some ti \<Rightarrow>
               map (file_snapshot (lt_distributed_copies E h) (fSequential \<in> lt_status_flags E h)
                      (lt_file_progress E h) (lt_file_priorities E h) ti)
                 [0 ..< length (tm_files ti)]))"

definition queryTaskFilesCmd :: "lt_env \<Rightarrow> task_id \<Rightarrow> promise option \<Rightarrow> session \<Rightarrow> session" where
  "queryTaskFilesCmd E t pr s = fulfil pr (FilesResult (task_files E s t)) s"

section \<open>Trackers\<close>

definition default_row :: tracker_row_snapshot where
  "default_row =
     \<lparr>tr_url = [], tr_tier = 0, tr_btProtocol = [], tr_status = kNotWorking, tr_users = - 1,
      tr_seeds = - 1, tr_downloads = - 1, tr_nextAnnounceSec = - 1, tr_minAnnounceSec = - 1,
      tr_message = [], tr_readOnly = False, tr_endpoints = []\<rparr>"

definition makeFixed :: "qstring \<Rightarrow> bool \<Rightarrow> tracker_row_snapshot" where
  "makeFixed name enabled =
     default_row\<lparr>tr_url := name, tr_readOnly := True, tr_btProtocol := qs ''N/A'',
       tr_status := (if enabled then kWorking else kNotWorking)\<rparr>"

definition protocol_of_url :: "lt_env \<Rightarrow> qstring \<Rightarrow> qstring" where
  "protocol_of_url E url =
     (let low = in_lower (lt_input E) url in
      if starts_with low (qs ''udp://'') then qs ''UDP''
      else if starts_with low (qs ''http://'') \<or> starts_with low (qs ''https://'') then qs ''HTTP''
      else if starts_with low (qs ''wss://'') then qs ''WSS''
      else qs ''N/A'')"

definition bt_version :: "info_hash \<Rightarrow> qstring" where
  "bt_version ih =
     (if ih_v1 ih \<noteq> None \<and> ih_v2 ih \<noteq> None then qs ''hybrid''
      else if ih_v2 ih \<noteq> None then qs ''v2'' else qs ''v1'')"

fun first_known :: "int \<Rightarrow> int list \<Rightarrow> int" where
  \<comment> \<open>the loop that takes the first non-negative value while the current one is unknown\<close>
  "first_known cur [] = cur"
| "first_known cur (v # vs) = first_known (if cur < 0 \<and> v \<ge> 0 then v else cur) vs"

definition min_known :: "int \<Rightarrow> int \<Rightarrow> int" where
  \<comment> \<open>the smaller one of the known values\<close>
  "min_known cur v = (if v \<ge> 0 then (if cur < 0 then v else min cur v) else cur)"

definition endpoint_snapshot :: "lt_env \<Rightarrow> handle \<Rightarrow> announce_endpoint \<Rightarrow> tracker_endpoint_snapshot" where
  "endpoint_snapshot E h ep =
     (let ihs = ae_info_hashes ep; now = lt_now_sec E in
      \<lparr>te_ip = ae_ip ep,
       te_port = ae_port ep,
       te_btProtocol = bt_version (lt_info_hashes E h),
       te_status = aggregateInfohashStatuses ep,
       te_users = first_known (- 1) (map ai_scrape_incomplete ihs),
       te_seeds = first_known (- 1) (map ai_scrape_complete ihs),
       te_downloads = first_known (- 1) (map ai_scrape_downloaded ihs),
       te_nextAnnounceSec =
         fold (\<lambda>ih cur. min_known cur (secondsUntilTimePoint32 now (ai_next_announce ih))) ihs (- 1),
       te_minAnnounceSec =
         fold (\<lambda>ih cur. min_known cur (secondsUntilTimePoint32 now (ai_min_announce ih))) ihs (- 1),
       te_message = messageFromAnnounceEndpoint E ep\<rparr>)"

definition add_endpoint ::
  "tracker_endpoint_snapshot \<Rightarrow> tracker_row_snapshot \<times> qstring list \<Rightarrow> tracker_row_snapshot \<times> qstring list"
where
  \<comment> \<open>one round of the loop over the endpoints: the row and the parts of its message\<close>
  "add_endpoint o1 rm =
     (let r = fst rm;
          r1 = r\<lparr>tr_users := first_known (tr_users r) [te_users o1],
                 tr_seeds := first_known (tr_seeds r) [te_seeds o1],
                 tr_downloads := first_known (tr_downloads r) [te_downloads o1],
                 tr_nextAnnounceSec := min_known (tr_nextAnnounceSec r) (te_nextAnnounceSec o1),
                 tr_minAnnounceSec := min_known (tr_minAnnounceSec r) (te_minAnnounceSec o1)\<rparr>;
          ms = (if te_message o1 \<noteq> [] then snd rm @ [te_message o1] else snd rm);
          r2 = (if te_ip o1 \<noteq> [] \<and> te_port o1 > 0
                then r1\<lparr>tr_endpoints := tr_endpoints r1 @ [o1]\<rparr> else r1)
      in (r2, ms))"

definition fallback_endpoint :: "lt_env \<Rightarrow> handle \<Rightarrow> tracker_row_snapshot \<Rightarrow> tracker_row_snapshot" where
  \<comment> \<open>without endpoints: the host and port of the URL\<close>
  "fallback_endpoint E h row =
     (if tr_endpoints row \<noteq> [] then row
      else case lt_url_host_port E (tr_url row) of
        None \<Rightarrow> row
      | Some (host, port) \<Rightarrow>
          if trimmed host \<noteq> [] \<and> port > 0 then
            row\<lparr>tr_endpoints :=
              [\<lparr>te_ip = trimmed host, te_port = port, te_btProtocol = bt_version (lt_info_hashes E h),
                te_status = tr_status row, te_users = tr_users row, te_seeds = tr_seeds row,
                te_downloads = tr_downloads row, te_nextAnnounceSec = tr_nextAnnounceSec row,
                te_minAnnounceSec = tr_minAnnounceSec row, te_message = tr_message row\<rparr>]\<rparr>
          else row)"

definition tracker_row :: "lt_env \<Rightarrow> handle \<Rightarrow> announce_entry \<Rightarrow> tracker_row_snapshot" where
  "tracker_row E h ae =
     (let r0 = default_row\<lparr>tr_url := ae_url ae, tr_tier := ae_tier ae,
                 tr_btProtocol := protocol_of_url E (ae_url ae), tr_status := mapTrackerStatus ae\<rparr>;
          rm = fold add_endpoint (map (endpoint_snapshot E h) (ae_endpoints ae)) (r0, [])
      in fallback_endpoint E h ((fst rm)\<lparr>tr_message := join (qs '' | '') (snd rm)\<rparr>))"

definition task_trackers :: "lt_env \<Rightarrow> session \<Rightarrow> task_id \<Rightarrow> task_tracker_snapshot" where
  "task_trackers E s t =
     (case find_valid E s t of
        None \<Rightarrow> \<lparr>tt_fixedRows = [], tt_trackers = []\<rparr>
      | Some h \<Rightarrow>
          (let fl = lt_status_flags E h in
           \<lparr>tt_fixedRows = [makeFixed (qs ''[DHT]'') (fDisableDht \<notin> fl),
                            makeFixed (qs ''[PeX]'') (fDisablePex \<notin> fl),
                            makeFixed (qs ''[LSD]'') (fDisableLsd \<notin> fl)],
            tt_trackers = map (tracker_row E h) (lt_trackers E h)\<rparr>))"

definition queryTaskTrackersCmd :: "lt_env \<Rightarrow> task_id \<Rightarrow> promise option \<Rightarrow> session \<Rightarrow> session" where
  "queryTaskTrackersCmd E t pr s = fulfil pr (TrackersResult (task_trackers E s t)) s"

section \<open>Peers and web seeds\<close>

definition peer_flags :: "peer_info \<Rightarrow> qstring" where
  "peer_flags p =
     (if pi_seed p then qs ''S'' else []) @
     (if pi_interesting p then qs ''I'' else []) @
     (if pi_choked p then qs ''C'' else []) @
     (if pi_remote_interested p then qs ''i'' else []) @
     (if pi_remote_choked p then qs ''c'' else []) @
     (if pi_rc4_encrypted p then qs ''E'' else [])"

definition connection_name :: "connection_kind \<Rightarrow> qstring" where
  "connection_name c =
     (case c of standard_bittorrent \<Rightarrow> qs ''BT'' | web_seed \<Rightarrow> qs ''Web'' | http_seed \<Rightarrow> qs ''HTTP''
      | other_connection \<Rightarrow> qs ''?'')"

definition snapshot_of_peer :: "peer_info \<Rightarrow> peer_snapshot" where
  "snapshot_of_peer p =
     \<lparr>ps_ip = pi_ip p, ps_port = pi_port p, ps_client = pi_client p, ps_progress = pi_progress p,
      ps_downloadRate = pi_down_speed p, ps_uploadRate = pi_up_speed p,
      ps_totalDownloaded = pi_total_download p, ps_totalUploaded = pi_total_upload p,
      ps_flags = peer_flags p, ps_connection = connection_name (pi_connection_type p)\<rparr>"

definition queryTaskPeersCmd :: "lt_env \<Rightarrow> task_id \<Rightarrow> promise option \<Rightarrow> session \<Rightarrow> session" where
  "queryTaskPeersCmd E t pr s =
     fulfil pr (PeersResult (case find_valid E s t of None \<Rightarrow> []
                             | Some h \<Rightarrow> map snapshot_of_peer (lt_peers E h))) s"

definition queryTaskWebSeedsCmd :: "lt_env \<Rightarrow> task_id \<Rightarrow> promise option \<Rightarrow> session \<Rightarrow> session" where
  "queryTaskWebSeedsCmd E t pr s =
     fulfil pr (WebSeedsResult (case find_valid E s t of None \<Rightarrow> []
       | Some h \<Rightarrow> map (\<lambda>u. \<lparr>ws_url = u, ws_type = qs ''BEP19''\<rparr>) (lt_url_seeds E h) @
                   map (\<lambda>u. \<lparr>ws_url = u, ws_type = qs ''BEP17''\<rparr>) (lt_http_seeds E h))) s"

end
