(* ===== verification/SessionWorker.thy ===== *)
theory SessionWorker
  imports SessionQuery
begin

text \<open>
  The worker thread: \<open>lt/session_ops_dispatch.cc\<close> and \<open>lt/session_worker.cc\<close>. One turn of the loop
  of \<open>run()\<close> takes the queue, executes its commands up to a shutdown, asks libtorrent for updates,
  handles the alerts, polls the pending metadata requests and calls the alerts callback. Each command
  and each alert comes with the \<open>lt_env\<close> that it reads.
\<close>

section \<open>Dispatch\<close>

fun handleCmd :: "lt_env \<Rightarrow> cmd \<Rightarrow> session \<Rightarrow> bool \<times> session" where
  "handleCmd E (AddMagnetCmd uri path trackers) s = (True, addMagnetCmd E uri path trackers s)"
| "handleCmd E (AddTorrentFileCmd file path trackers opts has) s =
     (True, addTorrentFileCmd E file path trackers opts has s)"
| "handleCmd E (AddFromResumeDataCmd d paused) s = (True, addFromResumeDataCmd E d paused s)"
| "handleCmd E (PauseCmd t) s = (True, pauseCmd t s)"
| "handleCmd E (ResumeCmd t) s = (True, resumeCmd E t s)"
| "handleCmd E (RemoveCmd t files) s = (True, removeCmd t files s)"
| "handleCmd E (MoveStorageCmd t path) s = (True, moveStorageCmd t path s)"
| "handleCmd E (EditTrackersCmd t trackers) s = (True, editTrackersCmd E t trackers s)"
| "handleCmd E (ForceRecheckCmd t) s = (True, forceRecheckCmd E t s)"
| "handleCmd E (ForceReannounceCmd t) s = (True, forceReannounceCmd E t s)"
| "handleCmd E (SetSequentialDownloadCmd t b) s = (True, setSequentialDownloadCmd E t b s)"
| "handleCmd E (SetAutoManagedCmd t b) s = (True, setAutoManagedCmd E t b s)"
| "handleCmd E (ForceStartCmd t) s = (True, forceStartCmd E t s)"
| "handleCmd E (SetFirstLastPiecePriorityCmd t b) s = (True, setFirstLastPiecePriorityCmd E t b s)"
| "handleCmd E (QueuePositionUpCmd t) s = (True, queuePositionUpCmd E t s)"
| "handleCmd E (QueuePositionDownCmd t) s = (True, queuePositionDownCmd E t s)"
| "handleCmd E (QueuePositionTopCmd t) s = (True, queuePositionTopCmd E t s)"
| "handleCmd E (QueuePositionBottomCmd t) s = (True, queuePositionBottomCmd E t s)"
| "handleCmd E (ApplyRuntimeSettingsCmd c) s = (True, applyRuntimeSettingsCmd E c s)"
| "handleCmd E (SetDefaultPerTorrentConnectionsLimitCmd l) s =
     (True, setDefaultPerTorrentConnectionsLimitCmd E l s)"
| "handleCmd E (SetTaskConnectionsLimitCmd t l) s = (True, setTaskConnectionsLimitCmd E t l s)"
| "handleCmd E (QueryTaskCopyPayloadCmd t p) s = (True, queryTaskCopyPayloadCmd E t p s)"
| "handleCmd E (QuerySessionStatsCmd p) s = (True, querySessionStatsCmd p s)"
| "handleCmd E (QueryTaskFilesCmd t p) s = (True, queryTaskFilesCmd E t p s)"
| "handleCmd E (QueryTaskTrackersCmd t p) s = (True, queryTaskTrackersCmd E t p s)"
| "handleCmd E (QueryTaskPeersCmd t p) s = (True, queryTaskPeersCmd E t p s)"
| "handleCmd E (QueryTaskWebSeedsCmd t p) s = (True, queryTaskWebSeedsCmd E t p s)"
| "handleCmd E (SetTaskFilePriorityCmd t is level) s = (True, setTaskFilePriorityCmd E t is level s)"
| "handleCmd E (RenameTaskFileOrFolderCmd t path name) s =
     (True, renameTaskFileOrFolderCmd E t path name s)"
| "handleCmd E (AddTaskTrackerCmd t url) s = (True, addTaskTrackerCmd E t url s)"
| "handleCmd E (EditTaskTrackerCmd t u v) s = (True, editTaskTrackerCmd E t u v s)"
| "handleCmd E (RemoveTaskTrackerCmd t url) s = (True, removeTaskTrackerCmd E t url s)"
| "handleCmd E (ForceReannounceTrackerCmd t url) s = (True, forceReannounceTrackerCmd E t url s)"
| "handleCmd E (ForceReannounceAllTrackersCmd t) s = (True, forceReannounceAllTrackersCmd E t s)"
| "handleCmd E (SaveAllResumeDataCmd dir p) s = (True, saveAllResumeDataCmd E dir p s)"
| "handleCmd E (PrepareMagnetMetadataCmd uri path trackers tmo p) s =
     (True, prepareMagnetMetadataCmd E uri path trackers p s)"
| "handleCmd E (CancelPreparedMagnetCmd t) s = (True, cancelPreparedMagnetCmd t s)"
| "handleCmd E (FinalizePreparedMagnetCmd t path trackers opts) s =
     (True, finalizePreparedMagnetCmd E t path trackers opts s)"
| "handleCmd E ShutdownCmd s = (False, s)"

fun run_cmds :: "(lt_env \<times> cmd) list \<Rightarrow> session \<Rightarrow> session" where
  "run_cmds [] s = s"
| "run_cmds ((E, c) # cs) s =
     (case handleCmd E c s of
        (True, s') \<Rightarrow> run_cmds cs s'
      | (False, s') \<Rightarrow> if c = ShutdownCmd then s'\<lparr>running := False\<rparr> else run_cmds cs s')"

section \<open>Metadata of magnet links\<close>

definition exportTorrentInfoToFile ::
  "lt_env \<Rightarrow> torrent_meta \<Rightarrow> qstring \<Rightarrow> qstring \<Rightarrow> lt_call list \<times> qstring" where
  \<comment> \<open>the file is written when it can be opened; the path is empty when it cannot be opened or the
     write is short\<close>
  "exportTorrentInfoToFile E ti dir key =
     (let path = lt_file_path E dir (key @ qs ''.torrent'') in
      if \<not> lt_can_open E path then ([], [])
      else ([WriteFile path (lt_encode_torrent E ti)], if lt_write_complete E path then path else []))"

definition magnetDisplayNameFallback :: "lt_env \<Rightarrow> qstring \<Rightarrow> qstring \<Rightarrow> qstring" where
  "magnetDisplayNameFallback E magnetUri infoHashKey =
     (let dn = (case lt_parse_magnet E magnetUri of Inl _ \<Rightarrow> [] | Inr atp \<Rightarrow> trimmed (at_name atp)) in
      if dn \<noteq> [] then dn
      else if infoHashKey \<noteq> [] then take 16 infoHashKey
      else qu [26410, 21629, 21517, 20219, 21153])"

definition empty_metadata :: magnet_metadata where
  "empty_metadata =
     \<lparr>mm_taskId = null_id, mm_name = [], mm_totalBytes = 0, mm_creationDate = 0, mm_infoHashV1 = [],
      mm_infoHashV2 = [], mm_comment = [], mm_filePaths = [], mm_fileSizes = [],
      mm_exportedTorrentPath = []\<rparr>"

definition fillMagnetMetadataFromTorrentInfo ::
  "torrent_meta \<Rightarrow> magnet_metadata \<Rightarrow> magnet_metadata" where
  "fillMagnetMetadataFromTorrentInfo ti m =
     m\<lparr>mm_name := trimmed (tm_name ti),
       mm_comment := tm_comment ti,
       mm_creationDate := tm_creation_date ti,
       mm_totalBytes := sum_list (map snd (tm_files ti)),
       mm_filePaths := map fst (tm_files ti),
       mm_fileSizes := map snd (tm_files ti),
       mm_infoHashV1 := (case ih_v1 (tm_info_hashes ti) of None \<Rightarrow> mm_infoHashV1 m | Some x \<Rightarrow> x),
       mm_infoHashV2 := (case ih_v2 (tm_info_hashes ti) of None \<Rightarrow> mm_infoHashV2 m | Some x \<Rightarrow> x)\<rparr>"

definition isValidMagnetMetadata :: "magnet_metadata \<Rightarrow> bool" where
  "isValidMagnetMetadata m \<longleftrightarrow>
     mm_filePaths m \<noteq> [] \<and> length (mm_filePaths m) = length (mm_fileSizes m)"

definition configureHandleForMagnetMetadataFetch :: "lt_env \<Rightarrow> handle \<Rightarrow> session \<Rightarrow> session" where
  "configureHandleForMagnetMetadataFetch E h s =
     (if \<not> lt_valid E h then s
      else emit ([UnsetFlag h fAutoManaged, UnsetFlag h fPaused, SetFlag h fUploadMode] @
                 (if fPaused \<in> lt_status_flags E h then [ResumeTorrent h] else [])) s)"

definition tryFulfillPendingMagnetMeta :: "lt_env \<Rightarrow> qstring \<Rightarrow> handle \<Rightarrow> session \<Rightarrow> bool \<times> session"
where
  "tryFulfillPendingMagnetMeta E key h s =
     (case map_of (pendingMagnetMeta s) key of
        None \<Rightarrow> (False, s)
      | Some entry \<Rightarrow>
      (case pm_done entry of
        None \<Rightarrow> (False, s)
      | Some p \<Rightarrow>
          if \<not> lt_valid E h \<or> \<not> lt_has_metadata E h then (False, s)
          else
            (let answer = (\<lambda>v s. emit [Fulfil p (MetaResult v)] s
                             \<lparr>pendingMagnetMeta := omap_erase key (pendingMagnetMeta s)\<rparr>) in
             case (case lt_torrent_file E h of None \<Rightarrow> lt_torrent_file_with_hashes E h | t \<Rightarrow> t) of
               None \<Rightarrow> (True, answer None s)
             | Some ti \<Rightarrow>
                 (let s1 = s\<lparr>preparedTorrentInfo := omap_put key ti (preparedTorrentInfo s)\<rparr>;
                      m0 = fillMagnetMetadataFromTorrentInfo ti
                             (empty_metadata\<lparr>mm_taskId := task_of_hashes E (lt_info_hashes E h)\<rparr>);
                      m1 = (if trimmed (mm_name m0) = []
                            then m0\<lparr>mm_name := magnetDisplayNameFallback E (pm_magnetUri entry) key\<rparr>
                            else m0)
                  in if \<not> isValidMagnetMetadata m1 then (True, answer None s1)
                     else
                       (case exportTorrentInfoToFile E ti (pm_tempSavePath entry) key of
                          (ws, path) \<Rightarrow>
                            (True, answer (Some (m1\<lparr>mm_exportedTorrentPath := path\<rparr>))
                                     (emit ws s1)))))))"

definition poll_key :: "lt_env \<Rightarrow> qstring \<Rightarrow> session \<Rightarrow> session" where
  "poll_key E key s =
     (if map_of (pendingMagnetMeta s) key = None then s
      else case map_of (handlesByTaskId s) key of
        None \<Rightarrow> s
      | Some h \<Rightarrow>
          if \<not> lt_valid E h then s
          else snd (tryFulfillPendingMagnetMeta E key h (configureHandleForMagnetMetadataFetch E h s)))"

definition pollPendingMagnetMetadata :: "lt_env \<Rightarrow> session \<Rightarrow> session" where
  "pollPendingMagnetMetadata E s = fold (poll_key E) (map fst (pendingMagnetMeta s)) s"

section \<open>Alerts\<close>

datatype session_alert =
    SessionStatsAlert "int list"
  | MetadataReceivedAlert handle
  | MetadataFailedAlert handle
  | SaveResumeDataAlert info_hash bytes       \<comment> \<open>the parameters as \<open>write_resume_data_buf\<close> writes them\<close>
  | SaveResumeDataFailedAlert
  | TaskAlert handle lt_alert                 \<comment> \<open>the handle is that of an added torrent\<close>

definition session_stats_of :: "lt_env \<Rightarrow> int list \<Rightarrow> session_stats" where
  "session_stats_of E vals =
     (let hs = filter (lt_valid E) (lt_torrents E) in
      default_stats
       \<lparr>ss_dht_nodes := (if lt_dht_metric E \<ge> 0 \<and> nat (lt_dht_metric E) < length vals
                         then vals ! nat (lt_dht_metric E) else ss_dht_nodes default_stats),
        ss_download_rate := sum_list (map (lt_download_rate E) hs),
        ss_upload_rate := sum_list (map (lt_upload_rate E) hs)\<rparr>)"

definition metadata_failed :: "qstring \<Rightarrow> session \<Rightarrow> session" where
  "metadata_failed key s =
     (case map_of (pendingMagnetMeta s) key of
        None \<Rightarrow> s
      | Some entry \<Rightarrow>
          (case pm_done entry of
             None \<Rightarrow> s
           | Some p \<Rightarrow> emit [Fulfil p (MetaResult None)] s
               \<lparr>pendingMagnetMeta := omap_erase key (pendingMagnetMeta s)\<rparr>))"

definition resume_saved :: "session \<Rightarrow> session" where
  \<comment> \<open>one request less; the last one answers \<open>saveAllResumeData\<close>\<close>
  "resume_saved s =
     (let s1 = s\<lparr>pendingResumeDataSaves := pendingResumeDataSaves s - 1\<rparr>
      in if pendingResumeDataSaves s1 \<le> 0 \<and> resumeDataDone s1 \<noteq> None
         then (fulfil (resumeDataDone s1) (CountResult (completedResumeDataSaves s1)) s1)\<lparr>resumeDataDone := None\<rparr>
         else s1)"

definition write_resume :: "lt_env \<Rightarrow> info_hash \<Rightarrow> bytes \<Rightarrow> session \<Rightarrow> session" where
  "write_resume E ih buf s =
     (if resumeDataDir s = [] then s
      else
        (let path = lt_file_path E (resumeDataDir s) (key_of_hashes E ih @ qs ''.rd'') in
         if lt_can_open E path
         then (emit [WriteFile path buf] s)\<lparr>completedResumeDataSaves := completedResumeDataSaves s + 1\<rparr>
         else s))"

definition torrent_added :: "lt_env \<Rightarrow> handle \<Rightarrow> qstring \<Rightarrow> session \<Rightarrow> session" where
  "torrent_added E h key s =
     (let s1 = s\<lparr>handlesByTaskId := omap_put key h (handlesByTaskId s)\<rparr>;
          s2 = (if map_of (pendingMagnetMeta s1) key \<noteq> None
                then configureHandleForMagnetMetadataFetch E h s1
                else emit [ResumeTorrent h] s1);
          s3 = (case map_of (pendingAddOpts s2) key of
                  None \<Rightarrow> s2
                | Some opts \<Rightarrow>
                    (if ao_add_to_top_queue opts then emit [QueueTop h] s2 else s2)
                      \<lparr>pendingAddOpts := omap_erase key (pendingAddOpts s2)\<rparr>);
          s4 = (case map_of (perTaskConnectionsLimit s3) key of
                  Some v \<Rightarrow> emit [SetMaxConnections h v] s3
                | None \<Rightarrow> if defaultPerTorrentConnectionsLimit s3 > 0
                          then emit [SetMaxConnections h (defaultPerTorrentConnectionsLimit s3)] s3
                          else s3)
      in if defaultPerTorrentUploadSlotsLimit s4 > 0
         then emit [SetMaxUploads h (defaultPerTorrentUploadSlotsLimit s4)] s4 else s4)"

definition torrent_removed :: "qstring \<Rightarrow> session \<Rightarrow> session" where
  "torrent_removed key s =
     s\<lparr>handlesByTaskId := omap_erase key (handlesByTaskId s),
       perTaskConnectionsLimit := omap_erase key (perTaskConnectionsLimit s),
       pendingAddOpts := omap_erase key (pendingAddOpts s)\<rparr>"

definition task_alert :: "lt_env \<Rightarrow> handle \<Rightarrow> lt_alert \<Rightarrow> session \<Rightarrow> session" where
  "task_alert E h a s =
     (case a of
        AddTorrentAlert None ps \<Rightarrow> torrent_added E h (key_of_hashes E (ap_info_hashes ps)) s
      | TorrentRemovedAlert ih \<Rightarrow> torrent_removed (key_of_hashes E ih) s
      | _ \<Rightarrow> s)"

definition with_magnet :: "lt_env \<Rightarrow> session \<Rightarrow> lt_view \<Rightarrow> lt_view" where
  "with_magnet E s v =
     (if v_type v = vtTaskAdded
      then (case find_valid E s (v_taskId v) of
              None \<Rightarrow> v | Some h \<Rightarrow> v\<lparr>v_magnet := lt_magnet_uri E h\<rparr>)
      else v)"

definition adapted_views :: "lt_env \<Rightarrow> session \<Rightarrow> lt_alert \<Rightarrow> lt_view list" where
  "adapted_views E s a = map (with_magnet E s) (adaptAlertToViews (lt_sha1 E) (Some a))"

fun handle_alert :: "lt_env \<Rightarrow> session_alert \<Rightarrow> session \<Rightarrow> session \<times> lt_view list" where
  \<comment> \<open>a statistics alert that nobody waits for goes to the adapter, which ignores it\<close>
  "handle_alert E (SessionStatsAlert vals) s =
     (case pendingSessionStats s of
        None \<Rightarrow> (s, adapted_views E s OtherAlert)
      | Some p \<Rightarrow> (emit [Fulfil p (StatsResult (session_stats_of E vals))] s\<lparr>pendingSessionStats := None\<rparr>, []))"
| "handle_alert E (MetadataReceivedAlert h) s =
     (snd (tryFulfillPendingMagnetMeta E (key_of_hashes E (lt_info_hashes E h)) h s), [])"
| "handle_alert E (MetadataFailedAlert h) s =
     (metadata_failed (key_of_hashes E (lt_info_hashes E h)) s, [])"
| "handle_alert E (SaveResumeDataAlert ih buf) s = (resume_saved (write_resume E ih buf s), [])"
| "handle_alert E SaveResumeDataFailedAlert s = (resume_saved s, [])"
| "handle_alert E (TaskAlert h a) s =
     (let s1 = task_alert E h a s in (s1, adapted_views E s1 a))"

fun run_alerts :: "(lt_env \<times> session_alert) list \<Rightarrow> session \<times> lt_view list \<Rightarrow> session \<times> lt_view list" where
  "run_alerts [] sv = sv"
| "run_alerts ((E, a) # as) (s, views) =
     (case handle_alert E a s of (s', v) \<Rightarrow> run_alerts as (s', views @ v))"

section \<open>The loop\<close>

definition call_back :: "lt_view list \<Rightarrow> session \<Rightarrow> session" where
  "call_back views s = (if alertsCb s \<and> views \<noteq> [] then emit [AlertsCallback views] s else s)"

definition turn ::
  "(nat \<Rightarrow> lt_env) \<Rightarrow> (lt_env \<times> session_alert) list \<Rightarrow> lt_env \<Rightarrow> session \<Rightarrow> session" where
  \<comment> \<open>\<open>envs\<close> is what the commands read, \<open>alerts\<close> what \<open>pop_alerts\<close> returns\<close>
  "turn envs alerts E s =
     (let local = cmds s;
          s1 = run_cmds (map (\<lambda>i. (envs i, local ! i)) [0 ..< length local])
                 (s\<lparr>cmds := [], syntheticAlertViews := []\<rparr>);
          s2 = (if pendingSessionStats s1 \<noteq> None then emit [PostSessionStats] s1 else s1);
          s3 = emit [PostTorrentUpdates] s2;
          sv = run_alerts alerts (s3\<lparr>syntheticAlertViews := []\<rparr>, syntheticAlertViews s3);
          s4 = pollPendingMagnetMetadata E (fst sv)
      in call_back (snd sv) s4)"

section \<open>Calls from other threads\<close>

definition enqueue_cmd :: "cmd \<Rightarrow> session \<Rightarrow> session" where
  "enqueue_cmd c s = s\<lparr>cmds := cmds s @ [c]\<rparr>"

definition setAlertsCallback :: "bool \<Rightarrow> session \<Rightarrow> session" where
  "setAlertsCallback b s = s\<lparr>alertsCb := b\<rparr>"

definition applyRuntimeSettings :: "runtime_settings \<Rightarrow> session \<Rightarrow> session" where
  "applyRuntimeSettings c s =
     enqueue_cmd (ApplyRuntimeSettingsCmd c)
       (s\<lparr>defaultPerTorrentUploadSlotsLimit := clamp (rs_per_torrent_upload_slots_limit c) 0 20000\<rparr>)"

definition prepareMagnetMetadata ::
  "lt_env \<Rightarrow> qstring \<Rightarrow> qstring \<Rightarrow> int \<Rightarrow> qstring list \<Rightarrow> promise \<Rightarrow> session \<Rightarrow> task_id option \<times> session"
where
  \<comment> \<open>up to the wait; \<open>p\<close> is the new promise, \<open>None\<close> that the call returned at once\<close>
  "prepareMagnetMetadata E uri tempSavePath timeout_ms trackers p s =
     (case lt_parse_magnet E (trimmed uri) of
        Inl _ \<Rightarrow> (None, s)
      | Inr atp \<Rightarrow>
          (Some (task_of_hashes E (at_info_hashes atp)),
           enqueue_cmd (PrepareMagnetMetadataCmd uri tempSavePath trackers timeout_ms (Some p)) s))"

definition prepareMagnetMetadata_wait ::
  "task_id \<Rightarrow> magnet_metadata option option \<Rightarrow> session \<Rightarrow> magnet_metadata option \<times> session" where
  \<comment> \<open>after the wait: the value of the future, \<open>None\<close> when it timed out\<close>
  "prepareMagnetMetadata_wait taskId ready s =
     (case ready of
        Some v \<Rightarrow> (v, s)
      | None \<Rightarrow> (None, enqueue_cmd (CancelPreparedMagnetCmd taskId) s))"

definition result_or :: "'a \<Rightarrow> 'a option \<Rightarrow> 'a" where
  \<comment> \<open>what a query returns: the value of the future, or the default when the wait timed out\<close>
  "result_or d ready = (case ready of Some v \<Rightarrow> v | None \<Rightarrow> d)"

definition queryTaskCopyPayload_wait :: "task_id \<Rightarrow> copy_payload option \<Rightarrow> copy_payload" where
  "queryTaskCopyPayload_wait t =
     result_or \<lparr>cp_infoHashV1 = [], cp_infoHashV2 = [], cp_magnet = [], cp_torrentId = taskIdKey t,
                cp_comment = []\<rparr>"

section \<open>The public calls\<close>

text \<open>
  Each call of the class enqueues its command; a query waits for its promise and returns
  \<open>result_or\<close> of it, as the number 0 for \<open>saveAllResumeData\<close> and an empty list for the others.
  \<open>shutdown_worker\<close> is what the destructor enqueues.
\<close>

definition default_options :: add_torrent_options where
  "default_options =
     \<lparr>ao_file_priorities = [], ao_start_torrent = True, ao_stop_when_ready = False,
      ao_sequential_download = False, ao_skip_hash_check = False, ao_add_to_top_queue = False,
      ao_category = [], ao_tags_csv = []\<rparr>"

definition addMagnet :: "qstring \<Rightarrow> qstring \<Rightarrow> qstring list \<Rightarrow> session \<Rightarrow> session" where
  "addMagnet uri savePath trackers = enqueue_cmd (AddMagnetCmd uri savePath trackers)"

definition cancelPreparedMagnet :: "task_id \<Rightarrow> session \<Rightarrow> session" where
  "cancelPreparedMagnet t = enqueue_cmd (CancelPreparedMagnetCmd t)"

definition finalizePreparedMagnet :: "task_id \<Rightarrow> qstring \<Rightarrow> qstring list \<Rightarrow> add_torrent_options \<Rightarrow> session \<Rightarrow> session" where
  "finalizePreparedMagnet t savePath trackers opts = enqueue_cmd (FinalizePreparedMagnetCmd t savePath trackers opts)"

definition addFromResumeData :: "bytes \<Rightarrow> bool \<Rightarrow> session \<Rightarrow> session" where
  "addFromResumeData resumeData startPaused = enqueue_cmd (AddFromResumeDataCmd resumeData startPaused)"

definition saveAllResumeData :: "qstring \<Rightarrow> promise \<Rightarrow> session \<Rightarrow> session" where
  "saveAllResumeData resumeDir p = enqueue_cmd (SaveAllResumeDataCmd resumeDir (Some p))"

definition addTorrentFile :: "qstring \<Rightarrow> qstring \<Rightarrow> qstring list \<Rightarrow> session \<Rightarrow> session" where
  "addTorrentFile filePath savePath trackers = enqueue_cmd (AddTorrentFileCmd filePath savePath trackers default_options False)"

definition addTorrentFileWithOptions :: "qstring \<Rightarrow> qstring \<Rightarrow> qstring list \<Rightarrow> add_torrent_options \<Rightarrow> session \<Rightarrow> session" where
  "addTorrentFileWithOptions filePath savePath trackers opts = enqueue_cmd (AddTorrentFileCmd filePath savePath trackers opts True)"

definition pauseTask :: "task_id \<Rightarrow> session \<Rightarrow> session" where
  "pauseTask t = enqueue_cmd (PauseCmd t)"

definition resumeTask :: "task_id \<Rightarrow> session \<Rightarrow> session" where
  "resumeTask t = enqueue_cmd (ResumeCmd t)"

definition removeTask :: "task_id \<Rightarrow> bool \<Rightarrow> session \<Rightarrow> session" where
  "removeTask t removeFiles = enqueue_cmd (RemoveCmd t removeFiles)"

definition moveStorage :: "task_id \<Rightarrow> qstring \<Rightarrow> session \<Rightarrow> session" where
  "moveStorage t targetPath = enqueue_cmd (MoveStorageCmd t targetPath)"

definition editTrackers :: "task_id \<Rightarrow> qstring list \<Rightarrow> session \<Rightarrow> session" where
  "editTrackers t trackers = enqueue_cmd (EditTrackersCmd t trackers)"

definition forceRecheckTask :: "task_id \<Rightarrow> session \<Rightarrow> session" where
  "forceRecheckTask t = enqueue_cmd (ForceRecheckCmd t)"

definition forceReannounceTask :: "task_id \<Rightarrow> session \<Rightarrow> session" where
  "forceReannounceTask t = enqueue_cmd (ForceReannounceCmd t)"

definition setSequentialDownload :: "task_id \<Rightarrow> bool \<Rightarrow> session \<Rightarrow> session" where
  "setSequentialDownload t enabled = enqueue_cmd (SetSequentialDownloadCmd t enabled)"

definition setAutoManagedTask :: "task_id \<Rightarrow> bool \<Rightarrow> session \<Rightarrow> session" where
  "setAutoManagedTask t enabled = enqueue_cmd (SetAutoManagedCmd t enabled)"

definition forceStartTask :: "task_id \<Rightarrow> session \<Rightarrow> session" where
  "forceStartTask t = enqueue_cmd (ForceStartCmd t)"

definition setFirstLastPiecePriority :: "task_id \<Rightarrow> bool \<Rightarrow> session \<Rightarrow> session" where
  "setFirstLastPiecePriority t enabled = enqueue_cmd (SetFirstLastPiecePriorityCmd t enabled)"

definition queuePositionUp :: "task_id \<Rightarrow> session \<Rightarrow> session" where
  "queuePositionUp t = enqueue_cmd (QueuePositionUpCmd t)"

definition queuePositionDown :: "task_id \<Rightarrow> session \<Rightarrow> session" where
  "queuePositionDown t = enqueue_cmd (QueuePositionDownCmd t)"

definition queuePositionTop :: "task_id \<Rightarrow> session \<Rightarrow> session" where
  "queuePositionTop t = enqueue_cmd (QueuePositionTopCmd t)"

definition queuePositionBottom :: "task_id \<Rightarrow> session \<Rightarrow> session" where
  "queuePositionBottom t = enqueue_cmd (QueuePositionBottomCmd t)"

definition setDefaultPerTorrentConnectionsLimit :: "int \<Rightarrow> session \<Rightarrow> session" where
  "setDefaultPerTorrentConnectionsLimit limit = enqueue_cmd (SetDefaultPerTorrentConnectionsLimitCmd limit)"

definition setTaskConnectionsLimit :: "task_id \<Rightarrow> int \<Rightarrow> session \<Rightarrow> session" where
  "setTaskConnectionsLimit t limit = enqueue_cmd (SetTaskConnectionsLimitCmd t limit)"

definition queryTaskCopyPayload :: "task_id \<Rightarrow> promise \<Rightarrow> session \<Rightarrow> session" where
  "queryTaskCopyPayload t p = enqueue_cmd (QueryTaskCopyPayloadCmd t (Some p))"

definition querySessionStats :: "promise \<Rightarrow> session \<Rightarrow> session" where
  "querySessionStats p = enqueue_cmd (QuerySessionStatsCmd (Some p))"

definition queryTaskTrackers :: "task_id \<Rightarrow> promise \<Rightarrow> session \<Rightarrow> session" where
  "queryTaskTrackers t p = enqueue_cmd (QueryTaskTrackersCmd t (Some p))"

definition queryTaskFiles :: "task_id \<Rightarrow> promise \<Rightarrow> session \<Rightarrow> session" where
  "queryTaskFiles t p = enqueue_cmd (QueryTaskFilesCmd t (Some p))"

definition queryTaskPeers :: "task_id \<Rightarrow> promise \<Rightarrow> session \<Rightarrow> session" where
  "queryTaskPeers t p = enqueue_cmd (QueryTaskPeersCmd t (Some p))"

definition queryTaskWebSeeds :: "task_id \<Rightarrow> promise \<Rightarrow> session \<Rightarrow> session" where
  "queryTaskWebSeeds t p = enqueue_cmd (QueryTaskWebSeedsCmd t (Some p))"

definition setTaskFilePriority :: "task_id \<Rightarrow> int list \<Rightarrow> file_priority_level \<Rightarrow> session \<Rightarrow> session" where
  "setTaskFilePriority t fileIndices level = enqueue_cmd (SetTaskFilePriorityCmd t fileIndices level)"

definition renameTaskFileOrFolder :: "task_id \<Rightarrow> qstring \<Rightarrow> qstring \<Rightarrow> session \<Rightarrow> session" where
  "renameTaskFileOrFolder t logicalPath newName = enqueue_cmd (RenameTaskFileOrFolderCmd t logicalPath newName)"

definition addTaskTracker :: "task_id \<Rightarrow> qstring \<Rightarrow> session \<Rightarrow> session" where
  "addTaskTracker t url = enqueue_cmd (AddTaskTrackerCmd t url)"

definition editTaskTracker :: "task_id \<Rightarrow> qstring \<Rightarrow> qstring \<Rightarrow> session \<Rightarrow> session" where
  "editTaskTracker t oldUrl newUrl = enqueue_cmd (EditTaskTrackerCmd t oldUrl newUrl)"

definition removeTaskTracker :: "task_id \<Rightarrow> qstring \<Rightarrow> session \<Rightarrow> session" where
  "removeTaskTracker t url = enqueue_cmd (RemoveTaskTrackerCmd t url)"

definition forceReannounceTracker :: "task_id \<Rightarrow> qstring \<Rightarrow> session \<Rightarrow> session" where
  "forceReannounceTracker t url = enqueue_cmd (ForceReannounceTrackerCmd t url)"

definition forceReannounceAllTrackers :: "task_id \<Rightarrow> session \<Rightarrow> session" where
  "forceReannounceAllTrackers t = enqueue_cmd (ForceReannounceAllTrackersCmd t)"

definition shutdown_worker :: "session \<Rightarrow> session" where
  "shutdown_worker = enqueue_cmd (ShutdownCmd)"

end
