(* ===== verification/SessionPromises.thy ===== *)
theory SessionPromises
  imports SessionWorker
begin

text \<open>
  What the session worker does with the promises of its callers: each is answered at most once, in
  every interleaving of calls and turns of the loop, and the queries are answered in the turn that
  executes them. The promises a state can still answer are counted as a multiset; no operation adds
  one that the command it executes did not bring.
\<close>

section \<open>Counting promises\<close>

definition promise_of :: "lt_call \<Rightarrow> promise option" where
  "promise_of c = (case c of Fulfil p v \<Rightarrow> Some p | _ \<Rightarrow> None)"

definition answers :: "lt_call list \<Rightarrow> promise list" where
  "answers cs = List.map_filter promise_of cs"

definition opt_mset :: "'a option \<Rightarrow> 'a multiset" where
  "opt_mset x = (case x of None \<Rightarrow> {#} | Some y \<Rightarrow> {#y#})"

fun cmd_promise :: "cmd \<Rightarrow> promise option" where
  "cmd_promise (QueryTaskCopyPayloadCmd t p) = p"
| "cmd_promise (QuerySessionStatsCmd p) = p"
| "cmd_promise (QueryTaskFilesCmd t p) = p"
| "cmd_promise (QueryTaskTrackersCmd t p) = p"
| "cmd_promise (QueryTaskPeersCmd t p) = p"
| "cmd_promise (QueryTaskWebSeedsCmd t p) = p"
| "cmd_promise (SaveAllResumeDataCmd d p) = p"
| "cmd_promise (PrepareMagnetMetadataCmd u d ts tmo p) = p"
| "cmd_promise _ = None"

definition meta_promises :: "(qstring \<times> pending_meta) list \<Rightarrow> promise multiset" where
  "meta_promises m = (\<Sum>e \<in># mset m. opt_mset (pm_done (snd e)))"

definition held :: "session \<Rightarrow> promise multiset" where
  \<comment> \<open>answered, or kept by the worker to be answered\<close>
  "held s = mset (answers (sw_calls s)) + meta_promises (pendingMagnetMeta s) +
            opt_mset (resumeDataDone s) + opt_mset (pendingSessionStats s)"

definition queued :: "cmd list \<Rightarrow> promise multiset" where
  "queued cs = (\<Sum>c \<in># mset cs. opt_mset (cmd_promise c))"

lemma answers_simps [simp]:
  "answers [] = []"
  "answers (c # cs) = (case promise_of c of None \<Rightarrow> answers cs | Some p \<Rightarrow> p # answers cs)"
  "answers (cs @ ds) = answers cs @ answers ds"
  by (induction cs) (simp_all add: answers_def List.map_filter_simps split: option.splits)

lemma promise_of_simps [simp]: "promise_of (Fulfil p v) = Some p"
  by (simp add: promise_of_def)

lemma opt_mset_simps [simp]: "opt_mset None = {#}" "opt_mset (Some x) = {#x#}"
  by (simp_all add: opt_mset_def)

lemma answers_none: "\<forall>c \<in> set cs. promise_of c = None \<Longrightarrow> answers cs = []"
  by (induction cs) simp_all

lemma meta_promises_simps [simp]:
  "meta_promises [] = {#}"
  "meta_promises (e # m) = opt_mset (pm_done (snd e)) + meta_promises m"
  by (simp_all add: meta_promises_def)

lemma queued_simps [simp]:
  "queued [] = {#}"
  "queued (c # cs) = opt_mset (cmd_promise c) + queued cs"
  "queued (cs @ ds) = queued cs + queued ds"
  by (simp_all add: queued_def)

lemma meta_promises_put: "meta_promises (omap_put k e m) \<subseteq># opt_mset (pm_done e) + meta_promises m"
  by (induction k e m rule: omap_put.induct) (auto simp: subset_mset.add_increasing2 add.left_commute)

lemma meta_promises_erase: "meta_promises (omap_erase k m) \<subseteq># meta_promises m"
  by (induction m) (auto simp: omap_erase_def subset_mset.add_increasing)

lemma meta_promises_erase_found:
  "map_of m k = Some e \<Longrightarrow> opt_mset (pm_done e) + meta_promises (omap_erase k m) \<subseteq># meta_promises m"
proof (induction m)
  case (Cons a m)
  show ?case
  proof (cases "fst a = k")
    case True
    with Cons.prems show ?thesis using meta_promises_erase [of k m] by (simp add: omap_erase_def)
  next
    case False
    with Cons show ?thesis by (simp add: omap_erase_def add.left_commute)
  qed
qed simp

lemma held_emit [simp]: "held (emit cs s) = held s + mset (answers cs)"
  by (simp add: held_def)

lemma held_emit_quiet: "\<forall>c \<in> set cs. promise_of c = None \<Longrightarrow> held (emit cs s) = held s"
  by (simp add: answers_none)

lemma held_update [simp]:
  "held (s\<lparr>cmds := a\<rparr>) = held s" "held (s\<lparr>running := b\<rparr>) = held s"
  "held (s\<lparr>handlesByTaskId := c\<rparr>) = held s"
  "held (s\<lparr>defaultPerTorrentConnectionsLimit := i\<rparr>) = held s"
  "held (s\<lparr>defaultPerTorrentUploadSlotsLimit := i\<rparr>) = held s"
  "held (s\<lparr>perTaskConnectionsLimit := d\<rparr>) = held s"
  "held (s\<lparr>pendingAddOpts := e\<rparr>) = held s" "held (s\<lparr>preparedTorrentInfo := f\<rparr>) = held s"
  "held (s\<lparr>pendingResumeDataSaves := i\<rparr>) = held s"
  "held (s\<lparr>completedResumeDataSaves := i\<rparr>) = held s"
  "held (s\<lparr>resumeDataDir := g\<rparr>) = held s" "held (s\<lparr>syntheticAlertViews := h\<rparr>) = held s"
  "held (s\<lparr>alertsCb := b\<rparr>) = held s"
  by (simp_all add: held_def)

lemma held_put:
  "held (s\<lparr>pendingMagnetMeta := omap_put k e (pendingMagnetMeta s)\<rparr>) \<subseteq># held s + opt_mset (pm_done e)"
  using meta_promises_put [of k e "pendingMagnetMeta s"] by (simp add: held_def ac_simps)

lemma held_erase:
  "held (s\<lparr>pendingMagnetMeta := omap_erase k (pendingMagnetMeta s)\<rparr>) \<subseteq># held s"
  using meta_promises_erase [of k "pendingMagnetMeta s"] by (simp add: held_def)

lemma held_answer:
  assumes "map_of (pendingMagnetMeta s) k = Some e" and "pm_done e = Some p"
  shows "held (s\<lparr>pendingMagnetMeta := omap_erase k (pendingMagnetMeta s)\<rparr>) + {#p#} \<subseteq># held s"
  using meta_promises_erase_found [OF assms(1)] assms(2) by (simp add: held_def)

lemma held_on_valid: "(\<And>h. held (f h) = held s) \<Longrightarrow> held (on_valid E s t f) = held s"
  by (simp add: on_valid_def split: option.splits)

lemma held_on_found: "(\<And>h. held (f h) = held s) \<Longrightarrow> held (on_found s t f) = held s"
  by (simp add: on_found_def split: option.splits)

lemma held_fulfil [simp]: "held (fulfil p v s) = held s + opt_mset p"
  by (cases p) simp_all

lemma quiet_map: "(\<And>x. promise_of (f x) = None) \<Longrightarrow> answers (map f xs) = []"
  by (induction xs) simp_all

lemma held_emitDuplicate [simp]: "held (emitDuplicateRejected E ih s) = held s"
  by (simp add: emitDuplicateRejected_def Let_def)

lemma held_remove_handle [simp]: "held (remove_handle_of k s) = held s"
  by (simp add: remove_handle_of_def Let_def promise_of_def split: option.splits)

section \<open>Commands\<close>

lemma held_add_cmds:
  "held (addMagnetCmd E uri path ts s) = held s"
  "held (addTorrentFileCmd E file path ts opts has s) = held s"
  "held (addFromResumeDataCmd E d b s) = held s"
  "held (finalizePreparedMagnetCmd E t path ts opts s) = held s"
  by (simp_all add: addMagnetCmd_def addTorrentFileCmd_def addFromResumeDataCmd_def
      finalizePreparedMagnetCmd_def Let_def promise_of_def split: option.splits sum.splits)

lemma held_cancel: "held (cancelPreparedMagnetCmd t s) \<subseteq># held s"
proof -
  let ?k = "taskIdKey t" and ?s = "remove_handle_of (taskIdKey t) s"
  have "held (cancelPreparedMagnetCmd t s) =
      held ((?s\<lparr>pendingMagnetMeta := omap_erase ?k (pendingMagnetMeta ?s)\<rparr>)
             \<lparr>preparedTorrentInfo := omap_erase ?k (preparedTorrentInfo ?s)\<rparr>)"
    by (simp add: cancelPreparedMagnetCmd_def Let_def held_def)
  then show ?thesis using held_erase [of ?k ?s] by simp
qed

lemma held_prepare: "held (prepareMagnetMetadataCmd E uri path ts p s) \<subseteq># held s + opt_mset p"
proof (cases p)
  case (Some q)
  show ?thesis
    using held_put [of _ "\<lparr>pm_done = Some q, pm_tempSavePath = path, pm_magnetUri = trimmed uri\<rparr>" s] Some
    by (simp add: prepareMagnetMetadataCmd_def Let_def promise_of_def split: sum.splits)
qed (simp add: prepareMagnetMetadataCmd_def)

lemma held_control_cmds:
  "held (pauseCmd t s) = held s" "held (resumeCmd E t s) = held s"
  "held (removeCmd t b s) = held s" "held (moveStorageCmd t path s) = held s"
  "held (editTrackersCmd E t ts s) = held s" "held (forceRecheckCmd E t s) = held s"
  "held (forceReannounceCmd E t s) = held s" "held (setSequentialDownloadCmd E t b s) = held s"
  "held (setAutoManagedCmd E t b s) = held s" "held (forceStartCmd E t s) = held s"
  "held (queuePositionUpCmd E t s) = held s" "held (queuePositionDownCmd E t s) = held s"
  "held (queuePositionTopCmd E t s) = held s" "held (queuePositionBottomCmd E t s) = held s"
  "held (addTaskTrackerCmd E t url s) = held s" "held (editTaskTrackerCmd E t u v s) = held s"
  "held (removeTaskTrackerCmd E t url s) = held s"
  "held (forceReannounceAllTrackersCmd E t s) = held s"
  by (simp_all add: pauseCmd_def resumeCmd_def removeCmd_def moveStorageCmd_def editTrackersCmd_def
      forceRecheckCmd_def forceReannounceCmd_def setSequentialDownloadCmd_def setAutoManagedCmd_def
      forceStartCmd_def queuePositionUpCmd_def queuePositionDownCmd_def queuePositionTopCmd_def
      queuePositionBottomCmd_def addTaskTrackerCmd_def editTaskTrackerCmd_def
      removeTaskTrackerCmd_def forceReannounceAllTrackersCmd_def held_on_valid held_on_found
      promise_of_def Let_def)

lemma held_more_cmds:
  "held (forceReannounceTrackerCmd E t url s) = held s"
  "held (setTaskFilePriorityCmd E t is level s) = held s"
  "held (renameTaskFileOrFolderCmd E t path name s) = held s"
  "held (setFirstLastPiecePriorityCmd E t b s) = held s"
proof -
  show "held (forceReannounceTrackerCmd E t url s) = held s"
    unfolding forceReannounceTrackerCmd_def
    by (rule held_on_valid) (simp add: promise_of_def split: option.splits)
  show "held (setTaskFilePriorityCmd E t is level s) = held s"
    unfolding setTaskFilePriorityCmd_def
    by (rule held_on_valid) (simp add: promise_of_def Let_def)
  have "\<forall>c \<in> set (rename_calls h a b ps). promise_of c = None" for h a b ps
    by (auto simp: rename_calls_def List.map_filter_def promise_of_def split: option.splits)
  then show "held (renameTaskFileOrFolderCmd E t path name s) = held s"
    unfolding renameTaskFileOrFolderCmd_def
    by (intro held_on_valid) (simp add: Let_def answers_none split: option.splits)
  show "held (setFirstLastPiecePriorityCmd E t b s) = held s"
    unfolding setFirstLastPiecePriorityCmd_def
    by (rule held_on_valid)
      (auto simp: Let_def promise_of_def intro!: answers_none split: option.splits)
qed

lemma held_settings_cmds:
  "held (applyRuntimeSettingsCmd E c s) = held s"
  "held (setDefaultPerTorrentConnectionsLimitCmd E l s) = held s"
  by (simp_all add: applyRuntimeSettingsCmd_def setDefaultPerTorrentConnectionsLimitCmd_def Let_def
      promise_of_def quiet_map)

lemma held_task_limit: "held (setTaskConnectionsLimitCmd E t l s) = held s"
  by (simp add: setTaskConnectionsLimitCmd_def on_valid_def Let_def promise_of_def split: option.splits)

lemma held_resume_done:
  "held (s\<lparr>resumeDataDone := x\<rparr>) + opt_mset (resumeDataDone s) = held s + opt_mset x"
  by (simp add: held_def ac_simps)

lemma held_resume_done_le: "held (s\<lparr>resumeDataDone := x\<rparr>) \<subseteq># held s + opt_mset x"
  using held_resume_done [of x s] by (metis mset_subset_eq_add_left)

lemma held_resume_answered:
  "held ((fulfil (resumeDataDone s) v s)\<lparr>resumeDataDone := None\<rparr>) = held s"
proof -
  have "resumeDataDone (fulfil (resumeDataDone s) v s) = resumeDataDone s"
    by (simp add: fulfil_def split: option.splits)
  then show ?thesis
    using held_resume_done [of None "fulfil (resumeDataDone s) v s"] by simp
qed

lemma held_save_all: "held (saveAllResumeDataCmd E dir p s) \<subseteq># held s + opt_mset p"
proof -
  define s1 where "s1 = emit (map SaveResumeData (valid_handles E s))
     (s\<lparr>resumeDataDir := dir, resumeDataDone := p,
        pendingResumeDataSaves := int (length (valid_handles E s)), completedResumeDataSaves := 0\<rparr>)"
  have a: "held s1 = held (s\<lparr>resumeDataDone := p\<rparr>)"
    by (simp add: s1_def quiet_map promise_of_def) (simp add: held_def)
  have "saveAllResumeDataCmd E dir p s =
      (if pendingResumeDataSaves s1 = 0
       then (fulfil (resumeDataDone s1) (CountResult 0) s1)\<lparr>resumeDataDone := None\<rparr> else s1)"
    unfolding saveAllResumeDataCmd_def Let_def s1_def ..
  then have "held (saveAllResumeDataCmd E dir p s) = held s1"
    by (metis held_resume_answered)
  with a held_resume_done_le show ?thesis by simp
qed

lemma held_stats: "held (querySessionStatsCmd p s) \<subseteq># held s + opt_mset p"
  by (simp add: querySessionStatsCmd_def held_def split: option.splits)

lemma held_query_cmds:
  "held (queryTaskCopyPayloadCmd E t p s) = held s + opt_mset p"
  "held (queryTaskFilesCmd E t p s) = held s + opt_mset p"
  "held (queryTaskTrackersCmd E t p s) = held s + opt_mset p"
  "held (queryTaskPeersCmd E t p s) = held s + opt_mset p"
  "held (queryTaskWebSeedsCmd E t p s) = held s + opt_mset p"
  by (simp_all add: queryTaskCopyPayloadCmd_def queryTaskFilesCmd_def queryTaskTrackersCmd_def
      queryTaskPeersCmd_def queryTaskWebSeedsCmd_def)

lemmas held_cmds = held_add_cmds held_control_cmds held_more_cmds held_settings_cmds held_task_limit
  held_query_cmds

lemma held_handleCmd: "held (snd (handleCmd E c s)) \<subseteq># held s + opt_mset (cmd_promise c)"
  by (cases c) (simp_all add: held_cmds held_cancel held_prepare held_save_all held_stats)

lemma held_run_cmds: "held (run_cmds cs s) \<subseteq># held s + queued (map snd cs)"
proof (induction cs arbitrary: s)
  case (Cons Ec cs)
  obtain E c where Ec: "Ec = (E, c)" by (cases Ec)
  obtain b s' where h: "handleCmd E c s = (b, s')" by (cases "handleCmd E c s")
  have one: "held s' \<subseteq># held s + opt_mset (cmd_promise c)"
    using held_handleCmd [of E c s] h by simp
  then have rest: "held (run_cmds cs s') \<subseteq># held s + opt_mset (cmd_promise c) + queued (map snd cs)"
    using Cons.IH [of s'] by (metis subset_mset.add_right_mono subset_mset.order_trans)
  moreover have "held s' \<subseteq># held s + opt_mset (cmd_promise c) + queued (map snd cs)"
    using one by (metis mset_subset_eq_add_left subset_mset.order_trans)
  moreover have "opt_mset (cmd_promise c) = {#}" if "c = ShutdownCmd" using that by simp
  ultimately show ?case by (cases b) (auto simp: Ec h ac_simps)
qed simp

section \<open>Alerts and the poll\<close>

lemma held_configure [simp]: "held (configureHandleForMagnetMetadataFetch E h s) = held s"
  by (simp add: configureHandleForMagnetMetadataFetch_def promise_of_def)

lemma held_export:
  "exportTorrentInfoToFile E ti dir key = (ws, path) \<Longrightarrow> held (emit ws s) = held s"
  by (auto simp: exportTorrentInfoToFile_def Let_def promise_of_def split: if_splits)

lemma held_answer_entry:
  assumes "map_of (pendingMagnetMeta s) k = Some e" and "pm_done e = Some p"
  shows "held ((emit [Fulfil p v] s)\<lparr>pendingMagnetMeta := omap_erase k (pendingMagnetMeta s)\<rparr>) \<subseteq># held s"
proof -
  have eq: "(emit [Fulfil p v] s)\<lparr>pendingMagnetMeta := omap_erase k (pendingMagnetMeta s)\<rparr> =
      emit [Fulfil p v] (s\<lparr>pendingMagnetMeta := omap_erase k (pendingMagnetMeta s)\<rparr>)"
    by (simp add: emit_def)
  show ?thesis unfolding eq using held_answer [OF assms] by simp
qed

lemma held_try: "held (snd (tryFulfillPendingMagnetMeta E k h s)) \<subseteq># held s"
proof (cases "map_of (pendingMagnetMeta s) k")
  case (Some e)
  show ?thesis
  proof (cases "pm_done e")
    case p: (Some p)
    note ans = held_answer_entry [OF _ p]
    show ?thesis
    proof (cases "\<not> lt_valid E h \<or> \<not> lt_has_metadata E h")
      case go: False
      show ?thesis
      proof (cases "case lt_torrent_file E h of None \<Rightarrow> lt_torrent_file_with_hashes E h | t \<Rightarrow> t")
        case None
        with Some p go ans [OF Some, of "MetaResult None"] show ?thesis
          by (simp add: tryFulfillPendingMagnetMeta_def)
      next
        case ti: (Some ti)
        define s1 where "s1 = s\<lparr>preparedTorrentInfo := omap_put k ti (preparedTorrentInfo s)\<rparr>"
        have s1: "held s1 = held s" "map_of (pendingMagnetMeta s1) k = Some e"
          using Some by (simp_all add: s1_def)
        obtain ws path where ex: "exportTorrentInfoToFile E ti (pm_tempSavePath e) k = (ws, path)"
          by (cases "exportTorrentInfoToFile E ti (pm_tempSavePath e) k")
        have s2: "held (emit ws s1) = held s" "map_of (pendingMagnetMeta (emit ws s1)) k = Some e"
          using held_export [OF ex] s1 by simp_all
        from Some p go ti ans [OF s1(2)] ans [OF s2(2)] s1(1) s2(1) show ?thesis
          by (simp add: tryFulfillPendingMagnetMeta_def ex Let_def flip: s1_def)
      qed
    qed (use Some p in \<open>auto simp: tryFulfillPendingMagnetMeta_def\<close>)
  qed (use Some in \<open>simp add: tryFulfillPendingMagnetMeta_def\<close>)
qed (simp add: tryFulfillPendingMagnetMeta_def)

lemma held_metadata_failed: "held (metadata_failed k s) \<subseteq># held s"
  using held_answer_entry [of s k]
  by (auto simp: metadata_failed_def split: option.splits)

lemma held_resume_saved: "held (resume_saved s) = held s"
proof -
  define s1 where "s1 = s\<lparr>pendingResumeDataSaves := pendingResumeDataSaves s - 1\<rparr>"
  have "held s1 = held s" by (simp add: s1_def)
  moreover have "resume_saved s =
      (if pendingResumeDataSaves s1 \<le> 0 \<and> resumeDataDone s1 \<noteq> None
       then (fulfil (resumeDataDone s1) (CountResult (completedResumeDataSaves s1)) s1)\<lparr>resumeDataDone := None\<rparr>
       else s1)"
    unfolding resume_saved_def Let_def s1_def ..
  ultimately show ?thesis by (metis held_resume_answered)
qed

lemma held_write_resume: "held (write_resume E ih b s) = held s"
  by (simp add: write_resume_def Let_def promise_of_def)

lemma held_task_alert: "held (task_alert E h a s) = held s"
proof -
  have "held (torrent_added E h k s) = held s" for k
    by (simp add: torrent_added_def Let_def promise_of_def split: option.splits)
  moreover have "held (torrent_removed k s) = held s" for k
    by (simp add: torrent_removed_def held_def)
  ultimately show ?thesis
    by (simp add: task_alert_def split: lt_alert.splits option.splits)
qed

lemma held_stats_answered:
  "pendingSessionStats s = Some p \<Longrightarrow>
   held ((emit [Fulfil p v] s)\<lparr>pendingSessionStats := None\<rparr>) = held s"
  by (simp add: held_def)

lemma held_handle_alert: "held (fst (handle_alert E a s)) \<subseteq># held s"
  by (cases a) (auto simp: Let_def held_try held_metadata_failed held_resume_saved held_write_resume
      held_task_alert held_stats_answered split: option.splits)

lemma held_run_alerts: "held (fst (run_alerts as (s, v))) \<subseteq># held s"
proof (induction as arbitrary: s v)
  case (Cons Ea as)
  obtain E a where Ea: "Ea = (E, a)" by (cases Ea)
  obtain s' w where h: "handle_alert E a s = (s', w)" by (cases "handle_alert E a s")
  have "held s' \<subseteq># held s" using held_handle_alert [of E a s] h by simp
  with Cons.IH [of s' "v @ w"] show ?case
    by (auto simp: Ea h intro: subset_mset.order_trans)
qed simp

lemma held_poll_key: "held (poll_key E k s) \<subseteq># held s"
  using held_try [of E k _ "configureHandleForMagnetMetadataFetch E _ s"]
  by (auto simp: poll_key_def split: option.splits)

lemma held_fold_poll: "held (fold (poll_key E) ks s) \<subseteq># held s"
proof (induction ks arbitrary: s)
  case (Cons k ks)
  from Cons.IH [of "poll_key E k s"] held_poll_key [of E k s] show ?case
    by (auto intro: subset_mset.order_trans)
qed simp

section \<open>Whole runs\<close>

datatype session_op =
    Enqueue cmd                    \<comment> \<open>a call from another thread\<close>
  | SetCallback bool
  | SetUploadSlots runtime_settings  \<comment> \<open>\<open>applyRuntimeSettings\<close>\<close>
  | Turn "nat \<Rightarrow> lt_env" "(lt_env \<times> session_alert) list" lt_env

fun session_step :: "session_op \<Rightarrow> session \<Rightarrow> session" where
  "session_step (Enqueue c) s = enqueue_cmd c s"
| "session_step (SetCallback b) s = setAlertsCallback b s"
| "session_step (SetUploadSlots c) s = applyRuntimeSettings c s"
| "session_step (Turn envs alerts E) s = (if running s then turn envs alerts E s else s)"

definition session_run :: "session_op list \<Rightarrow> session" where
  "session_run ops = fold session_step ops initial_session"

fun op_promise :: "session_op \<Rightarrow> promise option" where
  "op_promise (Enqueue c) = cmd_promise c"
| "op_promise _ = None"

definition promises_given :: "session_op list \<Rightarrow> promise multiset" where
  "promises_given ops = (\<Sum>x \<in># mset ops. opt_mset (op_promise x))"

lemma held_call_back: "held (call_back v s) = held s"
  by (simp add: call_back_def promise_of_def)

lemma cmds_on_valid:
  "(\<And>h. cmds (f h) = cmds s) \<Longrightarrow> cmds (on_valid E s t f) = cmds s"
  "(\<And>h. cmds (f h) = cmds s) \<Longrightarrow> cmds (on_found s t f) = cmds s"
  by (simp_all add: on_valid_def on_found_def split: option.splits)

lemma cmds_fulfil [simp]: "cmds (fulfil p v s) = cmds s"
  by (cases p) simp_all

lemma cmds_handleCmd: "cmds (snd (handleCmd E c s)) = cmds s"
  by (cases c) (simp_all add: addMagnetCmd_def addTorrentFileCmd_def addFromResumeDataCmd_def
      finalizePreparedMagnetCmd_def cancelPreparedMagnetCmd_def prepareMagnetMetadataCmd_def
      remove_handle_of_def emitDuplicateRejected_def pauseCmd_def resumeCmd_def removeCmd_def
      moveStorageCmd_def editTrackersCmd_def forceRecheckCmd_def forceReannounceCmd_def
      setSequentialDownloadCmd_def setAutoManagedCmd_def forceStartCmd_def
      queuePositionUpCmd_def queuePositionDownCmd_def queuePositionTopCmd_def
      queuePositionBottomCmd_def addTaskTrackerCmd_def editTaskTrackerCmd_def
      removeTaskTrackerCmd_def forceReannounceAllTrackersCmd_def forceReannounceTrackerCmd_def
      setTaskFilePriorityCmd_def renameTaskFileOrFolderCmd_def setFirstLastPiecePriorityCmd_def
      applyRuntimeSettingsCmd_def setDefaultPerTorrentConnectionsLimitCmd_def
      setTaskConnectionsLimitCmd_def querySessionStatsCmd_def queryTaskCopyPayloadCmd_def
      queryTaskFilesCmd_def queryTaskTrackersCmd_def queryTaskPeersCmd_def
      queryTaskWebSeedsCmd_def saveAllResumeDataCmd_def Let_def cmds_on_valid
      split: option.splits sum.splits)

lemma cmds_run_cmds: "cmds (run_cmds cs s) = cmds s"
proof (induction cs arbitrary: s)
  case (Cons Ec cs)
  obtain E c where Ec: "Ec = (E, c)" by (cases Ec)
  show ?case
    using cmds_handleCmd [of E c s] Cons.IH
    by (cases "handleCmd E c s") (auto simp: Ec split: bool.splits)
qed simp

lemma cmds_configure [simp]: "cmds (configureHandleForMagnetMetadataFetch E h s) = cmds s"
  by (simp add: configureHandleForMagnetMetadataFetch_def)

lemma cmds_try: "cmds (snd (tryFulfillPendingMagnetMeta E k h s)) = cmds s"
  by (simp add: tryFulfillPendingMagnetMeta_def Let_def split: option.splits prod.splits)

lemma cmds_handle_alert: "cmds (fst (handle_alert E a s)) = cmds s"
  by (cases a) (simp_all add: Let_def cmds_try metadata_failed_def resume_saved_def write_resume_def
      task_alert_def torrent_added_def torrent_removed_def split: option.splits lt_alert.splits)

lemma cmds_run_alerts: "cmds (fst (run_alerts as (s, v))) = cmds s"
proof (induction as arbitrary: s v)
  case (Cons Ea as)
  obtain E a where Ea: "Ea = (E, a)" by (cases Ea)
  show ?case
    using cmds_handle_alert [of E a s] Cons.IH
    by (cases "handle_alert E a s") (simp add: Ea)
qed simp

lemma cmds_fold_poll: "cmds (fold (poll_key E) ks s) = cmds s"
  by (induction ks arbitrary: s) (simp_all add: poll_key_def cmds_try split: option.splits)

lemma map_snd_envs: "map snd (map (\<lambda>i. (envs i, cs ! i)) [0 ..< length cs]) = cs"
  by (simp add: comp_def map_nth)

lemma held_turn: "held (turn envs alerts E s) \<subseteq># held s + queued (cmds s) \<and> cmds (turn envs alerts E s) = []"
proof -
  define s1 where "s1 = run_cmds (map (\<lambda>i. (envs i, cmds s ! i)) [0 ..< length (cmds s)])
      (s\<lparr>cmds := [], syntheticAlertViews := []\<rparr>)"
  define s3 where "s3 = emit [PostTorrentUpdates]
      (if pendingSessionStats s1 \<noteq> None then emit [PostSessionStats] s1 else s1)"
  define sv where "sv = run_alerts alerts (s3\<lparr>syntheticAlertViews := []\<rparr>, syntheticAlertViews s3)"
  have eq: "turn envs alerts E s = call_back (snd sv) (pollPendingMagnetMetadata E (fst sv))"
    unfolding turn_def Let_def sv_def s3_def s1_def ..
  have 1: "held s1 \<subseteq># held s + queued (cmds s)" "cmds s1 = []"
    using held_run_cmds [of "map (\<lambda>i. (envs i, cmds s ! i)) [0 ..< length (cmds s)]"
        "s\<lparr>cmds := [], syntheticAlertViews := []\<rparr>"] map_snd_envs [of envs "cmds s"]
    by (simp_all add: s1_def cmds_run_cmds)
  have 3: "held s3 = held s1" "cmds s3 = []"
    using 1(2) by (simp_all add: s3_def promise_of_def)
  have "held (fst sv) \<subseteq># held s3" "cmds (fst sv) = []"
    using held_run_alerts [of alerts "s3\<lparr>syntheticAlertViews := []\<rparr>" "syntheticAlertViews s3"]
      cmds_run_alerts [of alerts "s3\<lparr>syntheticAlertViews := []\<rparr>" "syntheticAlertViews s3"] 3(2)
    by (simp_all add: sv_def)
  moreover have "held (pollPendingMagnetMetadata E (fst sv)) \<subseteq># held (fst sv)"
    "cmds (pollPendingMagnetMetadata E (fst sv)) = cmds (fst sv)"
    by (simp_all add: pollPendingMagnetMetadata_def held_fold_poll cmds_fold_poll)
  ultimately show ?thesis
    using 1(1) 3(1) held_call_back [of "snd sv" "pollPendingMagnetMetadata E (fst sv)"]
    by (auto simp: eq call_back_def intro: subset_mset.order_trans)
qed

lemma total_step:
  "held (session_step x s) + queued (cmds (session_step x s)) \<subseteq>#
   held s + queued (cmds s) + opt_mset (op_promise x)"
proof (cases x)
  case (Turn envs alerts E)
  then show ?thesis using held_turn [of envs alerts E s] by simp
qed (simp_all add: enqueue_cmd_def setAlertsCallback_def applyRuntimeSettings_def)

lemma total_run:
  "held (fold session_step ops s) + queued (cmds (fold session_step ops s)) \<subseteq>#
   held s + queued (cmds s) + promises_given ops"
proof (induction ops arbitrary: s)
  case (Cons x ops)
  have "held (fold session_step ops (session_step x s)) +
      queued (cmds (fold session_step ops (session_step x s))) \<subseteq>#
      held (session_step x s) + queued (cmds (session_step x s)) + promises_given ops"
    by (rule Cons.IH)
  also have "\<dots> \<subseteq># held s + queued (cmds s) + opt_mset (op_promise x) + promises_given ops"
    using total_step by (rule subset_mset.add_right_mono)
  finally show ?case by (simp add: promises_given_def ac_simps)
qed (simp add: promises_given_def)

section \<open>Properties\<close>

text \<open>
  C30. However calls from other threads and turns of the worker loop interleave, and whatever libtorrent
  reports, the worker sets a value on a promise at most as often as a caller handed that promise in. A
  caller that makes a new promise for each call therefore never sees a promise set twice, which would
  throw in the worker thread.
\<close>

theorem promises_set_at_most_once:
  "mset (answers (sw_calls (session_run ops))) \<subseteq># promises_given ops"
proof -
  have "held (session_run ops) + queued (cmds (session_run ops)) \<subseteq># promises_given ops"
    using total_run [of ops initial_session]
    by (simp add: session_run_def held_def initial_session_def)
  moreover have "mset (answers (sw_calls s)) \<subseteq># held s + M" for s M
    by (simp add: held_def add.assoc)
  ultimately show ?thesis by (rule subset_mset.order_trans [rotated])
qed

end
