(* ===== verification/SessionProps.thy ===== *)
theory SessionProps
  imports SessionPromises
begin

text \<open>
  What the session commands guarantee: a command for one task leaves every other task alone, queries
  are answered in the turn that executes them, torrents already in the session are not added again,
  tracker edits and renames do exactly what they say; and what becomes of the options of an added
  torrent when its alert arrives.
\<close>

section \<open>Commands for one task\<close>

fun cmd_task :: "cmd \<Rightarrow> task_id option" where
  "cmd_task (PauseCmd t) = Some t"
| "cmd_task (ResumeCmd t) = Some t"
| "cmd_task (RemoveCmd t b) = Some t"
| "cmd_task (MoveStorageCmd t p) = Some t"
| "cmd_task (EditTrackersCmd t ts) = Some t"
| "cmd_task (ForceRecheckCmd t) = Some t"
| "cmd_task (ForceReannounceCmd t) = Some t"
| "cmd_task (SetSequentialDownloadCmd t b) = Some t"
| "cmd_task (SetAutoManagedCmd t b) = Some t"
| "cmd_task (ForceStartCmd t) = Some t"
| "cmd_task (SetFirstLastPiecePriorityCmd t b) = Some t"
| "cmd_task (QueuePositionUpCmd t) = Some t"
| "cmd_task (QueuePositionDownCmd t) = Some t"
| "cmd_task (QueuePositionTopCmd t) = Some t"
| "cmd_task (QueuePositionBottomCmd t) = Some t"
| "cmd_task (SetTaskConnectionsLimitCmd t l) = Some t"
| "cmd_task (QueryTaskCopyPayloadCmd t p) = Some t"
| "cmd_task (QueryTaskFilesCmd t p) = Some t"
| "cmd_task (QueryTaskTrackersCmd t p) = Some t"
| "cmd_task (QueryTaskPeersCmd t p) = Some t"
| "cmd_task (QueryTaskWebSeedsCmd t p) = Some t"
| "cmd_task (SetTaskFilePriorityCmd t is l) = Some t"
| "cmd_task (RenameTaskFileOrFolderCmd t p n) = Some t"
| "cmd_task (AddTaskTrackerCmd t u) = Some t"
| "cmd_task (EditTaskTrackerCmd t u v) = Some t"
| "cmd_task (RemoveTaskTrackerCmd t u) = Some t"
| "cmd_task (ForceReannounceTrackerCmd t u) = Some t"
| "cmd_task (ForceReannounceAllTrackersCmd t) = Some t"
| "cmd_task (CancelPreparedMagnetCmd t) = Some t"
| "cmd_task (FinalizePreparedMagnetCmd t p ts opts) = Some t"
| "cmd_task _ = None"

fun call_handle :: "lt_call \<Rightarrow> handle option" where
  "call_handle (SetFlag h f) = Some h"
| "call_handle (UnsetFlag h f) = Some h"
| "call_handle (PauseTorrent h) = Some h"
| "call_handle (ResumeTorrent h) = Some h"
| "call_handle (RemoveTorrent h b) = Some h"
| "call_handle (MoveStorage h p) = Some h"
| "call_handle (ReplaceTrackers h ts) = Some h"
| "call_handle (ForceRecheck h) = Some h"
| "call_handle (ForceReannounce h) = Some h"
| "call_handle (ForceReannounceIdx h a i) = Some h"
| "call_handle (PiecePriority h p q) = Some h"
| "call_handle (QueueUp h) = Some h"
| "call_handle (QueueDown h) = Some h"
| "call_handle (QueueTop h) = Some h"
| "call_handle (QueueBottom h) = Some h"
| "call_handle (SaveResumeData h) = Some h"
| "call_handle (PrioritizeFiles h ps) = Some h"
| "call_handle (RenameFile h i p) = Some h"
| "call_handle (SetMaxConnections h v) = Some h"
| "call_handle (SetMaxUploads h v) = Some h"
| "call_handle _ = None"

definition call_ok :: "session \<Rightarrow> task_id \<Rightarrow> promise option \<Rightarrow> lt_call \<Rightarrow> bool" where
  \<comment> \<open>on the handle of the task, the answer to the promise of the command, or a new torrent\<close>
  "call_ok s t p c =
     (case call_handle c of
        Some h \<Rightarrow> find_handle s t = Some h
      | None \<Rightarrow> (case c of Fulfil q v \<Rightarrow> p = Some q | AsyncAddTorrent atp \<Rightarrow> True | _ \<Rightarrow> False))"

definition same_elsewhere :: "qstring \<Rightarrow> (qstring \<times> 'a) list \<Rightarrow> (qstring \<times> 'a) list \<Rightarrow> bool" where
  "same_elsewhere key m m' \<longleftrightarrow> (map_of m)(key := None) = (map_of m')(key := None)"

definition same_maps :: "qstring \<Rightarrow> session \<Rightarrow> session \<Rightarrow> bool" where
  "same_maps key s s' \<longleftrightarrow>
     same_elsewhere key (handlesByTaskId s) (handlesByTaskId s') \<and>
     same_elsewhere key (perTaskConnectionsLimit s) (perTaskConnectionsLimit s') \<and>
     same_elsewhere key (pendingAddOpts s) (pendingAddOpts s') \<and>
     same_elsewhere key (preparedTorrentInfo s) (preparedTorrentInfo s') \<and>
     same_elsewhere key (pendingMagnetMeta s) (pendingMagnetMeta s')"

definition same_globals :: "session \<Rightarrow> session \<Rightarrow> bool" where
  "same_globals s s' \<longleftrightarrow>
     cmds s' = cmds s \<and> running s' = running s \<and> alertsCb s' = alertsCb s \<and>
     defaultPerTorrentConnectionsLimit s' = defaultPerTorrentConnectionsLimit s \<and>
     defaultPerTorrentUploadSlotsLimit s' = defaultPerTorrentUploadSlotsLimit s \<and>
     pendingResumeDataSaves s' = pendingResumeDataSaves s \<and>
     completedResumeDataSaves s' = completedResumeDataSaves s \<and>
     resumeDataDir s' = resumeDataDir s \<and> resumeDataDone s' = resumeDataDone s \<and>
     pendingSessionStats s' = pendingSessionStats s \<and>
     syntheticAlertViews s' = syntheticAlertViews s"

definition only_task :: "task_id \<Rightarrow> promise option \<Rightarrow> session \<Rightarrow> session \<Rightarrow> bool" where
  "only_task t p s s' \<longleftrightarrow>
     (\<exists>cs. sw_calls s' = sw_calls s @ cs \<and> list_all (call_ok s t p) cs) \<and>
     same_maps (taskIdKey t) s s' \<and> same_globals s s'"

lemma same_elsewhere_simps [simp]:
  "same_elsewhere k m m"
  "same_elsewhere k m (omap_erase k m)"
  by (simp_all add: same_elsewhere_def map_of_omap_erase)

lemma map_of_omap_put_other: "k' \<noteq> k \<Longrightarrow> map_of (omap_put k v m) k' = map_of m k'"
  by (induction k v m rule: omap_put.induct) auto

lemma same_elsewhere_put [simp]: "same_elsewhere k m (omap_put k v m)"
  by (auto simp: same_elsewhere_def map_of_omap_put_other)

lemma same_maps_refl [simp]: "same_maps k s s" "same_globals s s"
  by (simp_all add: same_maps_def same_globals_def)

lemma only_task_refl: "only_task t p s s"
  by (simp add: only_task_def)

lemma only_task_emit: "list_all (call_ok s t p) cs \<Longrightarrow> only_task t p s (emit cs s)"
  by (simp add: only_task_def same_maps_def same_globals_def)

lemma only_task_on_valid:
  assumes "\<And>h. find_handle s t = Some h \<Longrightarrow> only_task t p s (f h)"
  shows "only_task t p s (on_valid E s t f)" "only_task t p s (on_found s t f)"
  using assms
  by (auto simp: on_valid_def on_found_def find_valid_def only_task_refl split: option.splits)

lemma only_task_fulfil: "only_task t p s (fulfil p v s)"
  by (cases p) (auto intro: only_task_refl only_task_emit simp: call_ok_def)

lemma call_ok_handle: "call_handle c = Some h \<Longrightarrow> find_handle s t = Some h \<Longrightarrow> call_ok s t p c"
  by (simp add: call_ok_def)

lemmas on_valid_cmd_defs = pauseCmd_def resumeCmd_def removeCmd_def moveStorageCmd_def
  editTrackersCmd_def forceRecheckCmd_def forceReannounceCmd_def setSequentialDownloadCmd_def
  setAutoManagedCmd_def forceStartCmd_def queuePositionUpCmd_def queuePositionDownCmd_def
  queuePositionTopCmd_def queuePositionBottomCmd_def addTaskTrackerCmd_def editTaskTrackerCmd_def
  removeTaskTrackerCmd_def forceReannounceAllTrackersCmd_def

lemma only_task_simple_cmds:
  "only_task t p s (pauseCmd t s)" "only_task t p s (resumeCmd E t s)"
  "only_task t p s (removeCmd t b s)" "only_task t p s (moveStorageCmd t path s)"
  "only_task t p s (editTrackersCmd E t ts s)" "only_task t p s (forceRecheckCmd E t s)"
  "only_task t p s (forceReannounceCmd E t s)" "only_task t p s (setSequentialDownloadCmd E t b s)"
  "only_task t p s (setAutoManagedCmd E t b s)" "only_task t p s (forceStartCmd E t s)"
  "only_task t p s (queuePositionUpCmd E t s)" "only_task t p s (queuePositionDownCmd E t s)"
  "only_task t p s (queuePositionTopCmd E t s)" "only_task t p s (queuePositionBottomCmd E t s)"
  "only_task t p s (addTaskTrackerCmd E t url s)" "only_task t p s (editTaskTrackerCmd E t u v s)"
  "only_task t p s (removeTaskTrackerCmd E t url s)"
  "only_task t p s (forceReannounceAllTrackersCmd E t s)"
  unfolding on_valid_cmd_defs
  by (rule only_task_on_valid, simp add: Let_def only_task_emit call_ok_def)+

lemma only_task_query_cmds:
  "only_task t p s (queryTaskCopyPayloadCmd E t p s)" "only_task t p s (queryTaskFilesCmd E t p s)"
  "only_task t p s (queryTaskTrackersCmd E t p s)" "only_task t p s (queryTaskPeersCmd E t p s)"
  "only_task t p s (queryTaskWebSeedsCmd E t p s)"
  by (simp_all add: queryTaskCopyPayloadCmd_def queryTaskFilesCmd_def queryTaskTrackersCmd_def
      queryTaskPeersCmd_def queryTaskWebSeedsCmd_def only_task_fulfil)

lemma rename_calls_handle: "c \<in> set (rename_calls h a b ps) \<Longrightarrow> call_handle c = Some h"
  by (auto simp: rename_calls_def List.map_filter_def split: option.splits)

lemma only_task_more_cmds:
  "only_task t p s (forceReannounceTrackerCmd E t url s)"
  "only_task t p s (setTaskFilePriorityCmd E t is level s)"
  "only_task t p s (renameTaskFileOrFolderCmd E t path name s)"
  "only_task t p s (setFirstLastPiecePriorityCmd E t b s)"
proof -
  show "only_task t p s (forceReannounceTrackerCmd E t url s)"
    unfolding forceReannounceTrackerCmd_def
    by (rule only_task_on_valid) (simp add: only_task_emit call_ok_def split: option.splits)
  show "only_task t p s (setTaskFilePriorityCmd E t is level s)"
    unfolding setTaskFilePriorityCmd_def
    by (rule only_task_on_valid) (simp add: only_task_refl only_task_emit call_ok_def Let_def)
  show "only_task t p s (renameTaskFileOrFolderCmd E t path name s)"
    unfolding renameTaskFileOrFolderCmd_def
    by (rule only_task_on_valid)
      (auto simp: Let_def only_task_refl list_all_iff intro!: only_task_emit call_ok_handle
        dest: rename_calls_handle split: option.splits)
  show "only_task t p s (setFirstLastPiecePriorityCmd E t b s)"
    unfolding setFirstLastPiecePriorityCmd_def
    by (rule only_task_on_valid)
      (auto simp: Let_def only_task_refl list_all_iff intro!: only_task_emit call_ok_handle
        split: option.splits)
qed

lemma same_maps_task_limit:
  "same_maps k s (emit cs (s\<lparr>perTaskConnectionsLimit := omap_put k v (perTaskConnectionsLimit s)\<rparr>))"
  "same_globals s (emit cs (s\<lparr>perTaskConnectionsLimit := x\<rparr>))"
  by (simp_all add: same_maps_def same_globals_def)

lemma only_task_limit: "only_task t p s (setTaskConnectionsLimitCmd E t l s)"
proof -
  let ?v = "clamp l 0 20000" and ?k = "taskIdKey t"
  have "\<exists>cs. setTaskConnectionsLimitCmd E t l s =
      emit cs (s\<lparr>perTaskConnectionsLimit := omap_put ?k ?v (perTaskConnectionsLimit s)\<rparr>) \<and>
      list_all (call_ok s t p) cs"
  proof (cases "find_valid E s t")
    case None
    then show ?thesis
      by (intro exI [of _ "[]"])
        (simp add: setTaskConnectionsLimitCmd_def on_valid_def find_valid_def find_handle_def Let_def)
  next
    case (Some h)
    then show ?thesis
      by (intro exI [of _ "[SetMaxConnections h ?v]"])
        (auto simp: setTaskConnectionsLimitCmd_def on_valid_def find_valid_def find_handle_def
          Let_def call_ok_def split: option.splits if_splits)
  qed
  then show ?thesis by (auto simp: only_task_def same_maps_task_limit)
qed

lemma only_task_prepared:
  "only_task t p s (cancelPreparedMagnetCmd t s)"
  "only_task t p s (finalizePreparedMagnetCmd E t path ts opts s)"
  by (auto simp: cancelPreparedMagnetCmd_def finalizePreparedMagnetCmd_def remove_handle_of_def
      only_task_def same_maps_def same_globals_def Let_def call_ok_def find_handle_def
      split: option.splits)

lemmas only_task_cmds = only_task_simple_cmds only_task_query_cmds only_task_more_cmds
  only_task_limit only_task_prepared

text \<open>
  C31. A command for one task leaves the others alone: everything it asks of libtorrent is on the handle
  filed under the key of its task (or answers its own promise, or adds a torrent), and no map of the
  worker changes at another key, nor anything else of its state.
\<close>

theorem task_commands_are_isolated:
  "cmd_task c = Some t \<Longrightarrow> only_task t (cmd_promise c) s (snd (handleCmd E c s))"
  by (cases c) (simp_all add: only_task_cmds)

definition example_session :: session where
  "example_session =
     initial_session\<lparr>handlesByTaskId := [(taskIdKey (uid 1), 7), (taskIdKey (uid 2), 8)]\<rparr>"

theorem task_commands_are_isolated_witness:
  "\<forall>E. sw_calls (snd (handleCmd E (PauseCmd (uid 1)) example_session)) =
         [UnsetFlag 7 fAutoManaged, PauseTorrent 7] \<and>
       only_task (uid 1) None example_session (snd (handleCmd E (PauseCmd (uid 1)) example_session))"
proof (intro allI conjI)
  fix E
  show "sw_calls (snd (handleCmd E (PauseCmd (uid 1)) example_session)) =
      [UnsetFlag 7 fAutoManaged, PauseTorrent 7]"
    by (simp add: pauseCmd_def on_found_def find_handle_def example_session_def initial_session_def)
  show "only_task (uid 1) None example_session (snd (handleCmd E (PauseCmd (uid 1)) example_session))"
    using task_commands_are_isolated [of "PauseCmd (uid 1)" "uid 1" example_session E] by simp
qed

section \<open>Queries are answered in their turn\<close>

definition grows :: "session \<Rightarrow> session \<Rightarrow> bool" where
  "grows s s' \<longleftrightarrow> (\<exists>cs. sw_calls s' = sw_calls s @ cs)"

lemma grows_refl [simp]: "grows s s"
  by (simp add: grows_def)

lemma grows_trans: "grows s t \<Longrightarrow> grows t u \<Longrightarrow> grows s u"
  by (auto simp: grows_def)

lemma grows_emit [simp]: "grows s (emit cs s)"
  by (simp add: grows_def)

lemma grows_mem: "grows s s' \<Longrightarrow> c \<in> set (sw_calls s) \<Longrightarrow> c \<in> set (sw_calls s')"
  by (auto simp: grows_def)

lemma grows_only_task: "only_task t p s s' \<Longrightarrow> grows s s'"
  by (auto simp: only_task_def grows_def)

lemma sw_calls_fulfil: "sw_calls (fulfil p v s) = sw_calls s @ (case p of None \<Rightarrow> [] | Some q \<Rightarrow> [Fulfil q v])"
  by (cases p) simp_all

lemma grows_global_cmds:
  "grows s (addMagnetCmd E uri path ts s)" "grows s (addTorrentFileCmd E file path ts opts has s)"
  "grows s (addFromResumeDataCmd E d b s)" "grows s (prepareMagnetMetadataCmd E uri path ts p s)"
  "grows s (applyRuntimeSettingsCmd E c s)"
  "grows s (setDefaultPerTorrentConnectionsLimitCmd E l s)"
  "grows s (querySessionStatsCmd p s)" "grows s (saveAllResumeDataCmd E dir p s)"
  by (simp_all add: grows_def addMagnetCmd_def addTorrentFileCmd_def addFromResumeDataCmd_def
      prepareMagnetMetadataCmd_def applyRuntimeSettingsCmd_def emitDuplicateRejected_def
      setDefaultPerTorrentConnectionsLimitCmd_def querySessionStatsCmd_def saveAllResumeDataCmd_def
      sw_calls_fulfil Let_def split: option.splits sum.splits)

lemma grows_handleCmd: "grows s (snd (handleCmd E c s))"
proof (cases "cmd_task c")
  case None
  then show ?thesis by (cases c) (simp_all add: grows_global_cmds)
next
  case (Some t)
  have "only_task t (cmd_promise c) s (snd (handleCmd E c s))"
    using Some by (cases c) (simp_all add: only_task_cmds)
  then show ?thesis by (rule grows_only_task)
qed

lemma grows_run_cmds: "grows s (run_cmds cs s)"
proof (induction cs arbitrary: s)
  case (Cons Ec cs)
  obtain E c where Ec: "Ec = (E, c)" by (cases Ec)
  obtain b s' where h: "handleCmd E c s = (b, s')" by (cases "handleCmd E c s")
  have "grows s s'" using grows_handleCmd [of s E c] h by simp
  then have "grows s (run_cmds cs s')" "grows s (s'\<lparr>running := False\<rparr>)"
    using Cons.IH grows_trans by (blast, simp add: grows_def)
  then show ?case by (cases b) (simp_all add: Ec h)
qed simp

lemma grows_try: "grows s (snd (tryFulfillPendingMagnetMeta E k h s))"
  by (auto simp: tryFulfillPendingMagnetMeta_def grows_def Let_def split: option.splits prod.splits)

lemma grows_configure: "grows s (configureHandleForMagnetMetadataFetch E h s)"
  by (simp add: configureHandleForMagnetMetadataFetch_def)

lemma grows_handle_alert: "grows s (fst (handle_alert E a s))"
proof -
  have "grows s (torrent_added E h k s)" for h k
    by (simp add: torrent_added_def configureHandleForMagnetMetadataFetch_def grows_def Let_def
        split: option.splits)
  then show ?thesis
    by (cases a) (auto simp: Let_def grows_try [unfolded grows_def] task_alert_def torrent_removed_def
        metadata_failed_def resume_saved_def write_resume_def sw_calls_fulfil grows_def
        split: option.splits lt_alert.splits)
qed

lemma grows_run_alerts: "grows s (fst (run_alerts as (s, v)))"
proof (induction as arbitrary: s v)
  case (Cons Ea as)
  obtain E a where Ea: "Ea = (E, a)" by (cases Ea)
  obtain s' w where h: "handle_alert E a s = (s', w)" by (cases "handle_alert E a s")
  have "grows s s'" using grows_handle_alert [of s E a] h by simp
  with Cons.IH [of s' "v @ w"] show ?case by (auto simp: Ea h intro: grows_trans)
qed simp

lemma grows_poll: "grows s (pollPendingMagnetMetadata E s)"
proof -
  have one: "grows s (poll_key E k s)" for k s
    using grows_trans [OF grows_configure grows_try]
    by (auto simp: poll_key_def split: option.splits)
  have "grows s (fold (poll_key E) ks s)" for ks
    by (induction ks arbitrary: s) (auto intro: one grows_trans)
  then show ?thesis by (simp add: pollPendingMagnetMetadata_def)
qed

lemma grows_turn:
  "grows (run_cmds (map (\<lambda>i. (envs i, cmds s ! i)) [0 ..< length (cmds s)])
            (s\<lparr>cmds := [], syntheticAlertViews := []\<rparr>)) (turn envs alerts E s)"
  (is "grows ?s1 _")
proof -
  define s3 where "s3 = emit [PostTorrentUpdates]
      (if pendingSessionStats ?s1 \<noteq> None then emit [PostSessionStats] ?s1 else ?s1)"
  define sv where "sv = run_alerts alerts (s3\<lparr>syntheticAlertViews := []\<rparr>, syntheticAlertViews s3)"
  have eq: "turn envs alerts E s = call_back (snd sv) (pollPendingMagnetMetadata E (fst sv))"
    unfolding turn_def Let_def sv_def s3_def ..
  have "grows ?s1 s3" by (simp add: s3_def grows_def)
  moreover have "grows s3 (s3\<lparr>syntheticAlertViews := []\<rparr>)" by (simp add: grows_def)
  moreover have "grows (s3\<lparr>syntheticAlertViews := []\<rparr>) (fst sv)"
    unfolding sv_def by (rule grows_run_alerts)
  moreover have "grows (fst sv) (turn envs alerts E s)"
    using grows_poll [of "fst sv" E] grows_trans [OF grows_poll grows_emit]
    by (auto simp: eq call_back_def)
  ultimately show ?thesis by (blast intro: grows_trans)
qed

lemma handleCmd_continues: "fst (handleCmd E c s) \<longleftrightarrow> c \<noteq> ShutdownCmd"
  by (cases c) simp_all

lemma run_cmds_append:
  "ShutdownCmd \<notin> snd ` set cs \<Longrightarrow> run_cmds (cs @ ds) s = run_cmds ds (run_cmds cs s)"
proof (induction cs arbitrary: s)
  case (Cons Ec cs)
  obtain E c where Ec: "Ec = (E, c)" by (cases Ec)
  with Cons.prems handleCmd_continues [of E c s] Cons.IH show ?case
    by (cases "handleCmd E c s") auto
qed simp

fun query_value :: "lt_env \<Rightarrow> session \<Rightarrow> cmd \<Rightarrow> (promise \<times> promise_value) option" where
  "query_value E s (QueryTaskCopyPayloadCmd t (Some p)) = Some (p, CopyResult (copy_payload_of E s t))"
| "query_value E s (QueryTaskFilesCmd t (Some p)) = Some (p, FilesResult (task_files E s t))"
| "query_value E s (QueryTaskTrackersCmd t (Some p)) = Some (p, TrackersResult (task_trackers E s t))"
| "query_value E s (QueryTaskPeersCmd t (Some p)) =
     Some (p, PeersResult (case find_valid E s t of None \<Rightarrow> []
                           | Some h \<Rightarrow> map snapshot_of_peer (lt_peers E h)))"
| "query_value E s _ = None"

lemma query_value_answered:
  "query_value E s c = Some (p, v) \<Longrightarrow> handleCmd E c s = (True, emit [Fulfil p v] s)"
  by (cases "(E, s, c)" rule: query_value.cases)
    (simp_all add: queryTaskCopyPayloadCmd_def queryTaskFilesCmd_def queryTaskTrackersCmd_def
      queryTaskPeersCmd_def)

definition batch :: "(nat \<Rightarrow> lt_env) \<Rightarrow> cmd list \<Rightarrow> nat \<Rightarrow> (lt_env \<times> cmd) list" where
  \<comment> \<open>commands with what they read, numbered from \<open>n\<close>\<close>
  "batch envs cs n = map (\<lambda>i. (envs (n + i), cs ! i)) [0 ..< length cs]"

lemma batch_Cons: "batch envs (c # cs) n = (envs n, c) # batch envs cs (Suc n)"
  by (simp add: batch_def map_upt_Suc del: upt_Suc)

lemma batch_append: "batch envs (cs @ ds) n = batch envs cs n @ batch envs ds (n + length cs)"
proof (induction cs arbitrary: n)
  case Nil
  then show ?case by (simp add: batch_def)
next
  case (Cons c cs)
  then show ?case by (simp add: batch_Cons)
qed

lemma snd_batch: "snd ` set (batch envs cs n) = set cs"
  by (auto simp: batch_def in_set_conv_nth image_iff) force



section \<open>Adding torrents\<close>

fun names_torrent :: "lt_env \<Rightarrow> cmd \<Rightarrow> info_hash option" where
  \<comment> \<open>the torrent that an accepted add command names\<close>
  "names_torrent E (AddMagnetCmd uri path ts) =
     (if hasError (validateMagnetUri (lt_input E) (trimmed uri)) then None
      else case lt_parse_magnet E (trimmed uri) of Inl _ \<Rightarrow> None | Inr atp \<Rightarrow> Some (at_info_hashes atp))"
| "names_torrent E (PrepareMagnetMetadataCmd uri path ts tmo (Some p)) =
     (if hasError (validateMagnetUri (lt_input E) (trimmed uri)) then None
      else case lt_parse_magnet E (trimmed uri) of Inl _ \<Rightarrow> None | Inr atp \<Rightarrow> Some (at_info_hashes atp))"
| "names_torrent E (AddTorrentFileCmd file path ts opts has) =
     (if hasError (validateTorrentFilePath (lt_input E) file) then None
      else case lt_load_torrent E file of None \<Rightarrow> None | Some ti \<Rightarrow> Some (tm_info_hashes ti))"
| "names_torrent E (AddFromResumeDataCmd d paused) =
     (if d = [] then None
      else case lt_read_resume E d of Inl _ \<Rightarrow> None | Inr atp \<Rightarrow> Some (at_info_hashes atp))"
| "names_torrent E _ = None"

fun is_add :: "cmd \<Rightarrow> bool" where
  "is_add (AddMagnetCmd uri path ts) = True"
| "is_add (PrepareMagnetMetadataCmd uri path ts tmo p) = True"
| "is_add (AddTorrentFileCmd file path ts opts has) = True"
| "is_add (AddFromResumeDataCmd d paused) = True"
| "is_add _ = False"

fun adds :: "lt_call list \<Rightarrow> add_torrent_params list" where
  "adds [] = []"
| "adds (AsyncAddTorrent a # cs) = a # adds cs"
| "adds (_ # cs) = adds cs"

definition new_calls :: "session \<Rightarrow> session \<Rightarrow> lt_call list" where
  "new_calls s s' = drop (length (sw_calls s)) (sw_calls s')"

definition adds_torrent :: "add_torrent_params \<Rightarrow> info_hash \<Rightarrow> bool" where
  "adds_torrent a ih \<longleftrightarrow> at_info_hashes a = ih \<or> map_option tm_info_hashes (at_ti a) = Some ih"

definition views_added :: "session \<Rightarrow> session \<Rightarrow> lt_view list" where
  "views_added s s' = drop (length (syntheticAlertViews s)) (syntheticAlertViews s')"

lemma new_calls_emit [simp]: "new_calls s (emit cs s) = cs"
  by (simp add: new_calls_def)

lemma views_added_simps [simp]:
  "views_added s (emit cs s') = views_added s s'"
  "map v_taskId (views_added s (emitDuplicateRejected E ih s)) = [task_of_hashes E ih]"
  "map v_type (views_added s (emitDuplicateRejected E ih s)) = [vtDuplicateRejected]"
  by (simp_all add: views_added_def emitDuplicateRejected_def Let_def)

lemma sw_calls_emitDuplicate [simp]: "sw_calls (emitDuplicateRejected E ih s) = sw_calls s"
  by (simp add: emitDuplicateRejected_def Let_def)

definition add_outcome :: "lt_env \<Rightarrow> cmd \<Rightarrow> session \<Rightarrow> session \<Rightarrow> bool" where
  "add_outcome E c s s' =
     (case names_torrent E c of
        None \<Rightarrow> adds (new_calls s s') = [] \<and> views_added s s' = []
      | Some ih \<Rightarrow>
          if hasActiveTaskForInfoHashes E s ih
          then adds (new_calls s s') = [] \<and> map v_type (views_added s s') = [vtDuplicateRejected] \<and>
               map v_taskId (views_added s s') = [task_of_hashes E ih]
          else (\<exists>a. adds (new_calls s s') = [a] \<and> adds_torrent a ih) \<and> views_added s s' = [])"

text \<open>
  C33. The four commands that add torrents add at most one, and none that is already in the session: a
  command that is not accepted (invalid text, unreadable file or data) adds nothing and reports nothing;
  one that names a torrent whose task has a valid handle is reported as a duplicate of exactly that task;
  every other one asks libtorrent to add exactly the torrent it names.
\<close>

theorem add_commands_reject_duplicates:
  "is_add c \<Longrightarrow> add_outcome E c s (snd (handleCmd E c s))"
proof (cases c)
  case (AddMagnetCmd uri path ts)
  then show ?thesis
    by (auto simp: add_outcome_def addMagnetCmd_def new_calls_def views_added_def Let_def
        adds_torrent_def append_trackers_def apply_options_def set_flags_if_def
        emitDuplicateRejected_def split: sum.splits)
next
  case (AddTorrentFileCmd fl path ts opts has)
  then show ?thesis
    by (auto simp: add_outcome_def addTorrentFileCmd_def new_calls_def views_added_def Let_def
        adds_torrent_def append_trackers_def apply_options_def set_flags_if_def
        emitDuplicateRejected_def split: option.splits)
next
  case (AddFromResumeDataCmd d paused)
  then show ?thesis
    by (auto simp: add_outcome_def addFromResumeDataCmd_def new_calls_def views_added_def Let_def
        adds_torrent_def append_trackers_def apply_options_def set_flags_if_def
        emitDuplicateRejected_def split: sum.splits)
next
  case (PrepareMagnetMetadataCmd uri path ts tmo p)
  then show ?thesis
    by (cases p) (auto simp: add_outcome_def prepareMagnetMetadataCmd_def new_calls_def views_added_def
        Let_def adds_torrent_def append_trackers_def emitDuplicateRejected_def split: sum.splits)
qed simp_all

definition resume_env :: "lt_env \<Rightarrow> lt_env" where
  \<comment> \<open>resume data of one torrent, all handles valid\<close>
  "resume_env E = E\<lparr>lt_read_resume := (\<lambda>d. Inr ((lt_default_params E)\<lparr>at_info_hashes := example_ih\<rparr>)),
                    lt_sha1 := (\<lambda>b. b), lt_valid := (\<lambda>h. True)\<rparr>"

theorem add_commands_reject_duplicates_witness:
  "\<forall>E. add_outcome (resume_env E) (AddFromResumeDataCmd [1] True) example_session
         (snd (handleCmd (resume_env E) (AddFromResumeDataCmd [1] True) example_session))"
  by (intro allI add_commands_reject_duplicates) simp

section \<open>What becomes of the options of an added torrent\<close>

definition limit_calls :: "handle \<Rightarrow> qstring \<Rightarrow> session \<Rightarrow> lt_call list" where
  "limit_calls h key s =
     (case map_of (perTaskConnectionsLimit s) key of
        Some v \<Rightarrow> [SetMaxConnections h v]
      | None \<Rightarrow> if defaultPerTorrentConnectionsLimit s > 0
                then [SetMaxConnections h (defaultPerTorrentConnectionsLimit s)] else []) @
     (if defaultPerTorrentUploadSlotsLimit s > 0
      then [SetMaxUploads h (defaultPerTorrentUploadSlotsLimit s)] else [])"

definition wants_top :: "qstring \<Rightarrow> session \<Rightarrow> bool" where
  "wants_top key s = (case map_of (pendingAddOpts s) key of None \<Rightarrow> False | Some o1 \<Rightarrow> ao_add_to_top_queue o1)"

lemma torrent_added_calls:
  assumes "map_of (pendingMagnetMeta s) key = None"
  shows "new_calls s (torrent_added E h key s) =
    [ResumeTorrent h] @ (if wants_top key s then [QueueTop h] else []) @ limit_calls h key s"
proof -
  let ?s1 = "emit [ResumeTorrent h] (s\<lparr>handlesByTaskId := omap_put key h (handlesByTaskId s)\<rparr>)"
  let ?s2 = "case map_of (pendingAddOpts ?s1) key of None \<Rightarrow> ?s1
    | Some opts \<Rightarrow> (if ao_add_to_top_queue opts then emit [QueueTop h] ?s1 else ?s1)
        \<lparr>pendingAddOpts := omap_erase key (pendingAddOpts ?s1)\<rparr>"
  have s2: "sw_calls ?s2 = sw_calls s @ [ResumeTorrent h] @ (if wants_top key s then [QueueTop h] else [])"
    "perTaskConnectionsLimit ?s2 = perTaskConnectionsLimit s"
    "defaultPerTorrentConnectionsLimit ?s2 = defaultPerTorrentConnectionsLimit s"
    "defaultPerTorrentUploadSlotsLimit ?s2 = defaultPerTorrentUploadSlotsLimit s"
    by (simp_all add: wants_top_def split: option.splits)
  have "torrent_added E h key s = emit (limit_calls h key s) ?s2"
    using assms s2(2-4)
    by (cases "map_of (perTaskConnectionsLimit s) key")
      (simp_all add: torrent_added_def limit_calls_def Let_def)
  then show ?thesis using s2(1) by (simp add: new_calls_def)
qed

lemma handle_added:
  "fst (handle_alert E (TaskAlert h (AddTorrentAlert None ps)) s) =
     torrent_added E h (key_of_hashes E (ap_info_hashes ps)) s"
  by (simp add: task_alert_def Let_def)

fun asks_paused :: "cmd \<Rightarrow> bool" where
  "asks_paused (AddTorrentFileCmd fl path ts opts has) = (has \<and> \<not> ao_start_torrent opts)"
| "asks_paused (AddFromResumeDataCmd d paused) = paused"
| "asks_paused _ = False"

text \<open>
  C34. A torrent that is added paused is resumed as soon as libtorrent reports it. When a torrent file is
  added with "start torrent" off, or resume data with \<open>startPaused\<close>, the torrent handed to libtorrent
  carries the paused flag; but the worker resumes the handle on every add alert for which no magnet
  metadata is pending, so the option has no lasting effect.
\<close>

theorem paused_add_is_resumed:
  assumes "asks_paused c" and "names_torrent E c = Some ih"
    and "\<not> hasActiveTaskForInfoHashes E s ih"
    and "map_of (pendingMagnetMeta s) key = None" and "key_of_hashes E' (ap_info_hashes ps) = key"
  shows "\<exists>a. adds (new_calls s (snd (handleCmd E c s))) = [a] \<and> fPaused \<in> at_flags a \<and>
    ResumeTorrent h \<in> set (new_calls (snd (handleCmd E c s))
      (fst (handle_alert E' (TaskAlert h (AddTorrentAlert None ps)) (snd (handleCmd E c s)))))"
proof -
  have "pendingMagnetMeta (snd (handleCmd E c s)) = pendingMagnetMeta s"
    using assms(1)
    by (cases c) (auto simp: addTorrentFileCmd_def addFromResumeDataCmd_def Let_def
        emitDuplicateRejected_def split: option.splits sum.splits)
  then have "ResumeTorrent h \<in> set (new_calls (snd (handleCmd E c s))
      (fst (handle_alert E' (TaskAlert h (AddTorrentAlert None ps)) (snd (handleCmd E c s)))))"
    using assms(4,5) by (simp only: handle_added torrent_added_calls) simp
  moreover have "\<exists>a. adds (new_calls s (snd (handleCmd E c s))) = [a] \<and> fPaused \<in> at_flags a"
    using assms(1-3)
    by (cases c) (auto simp: addTorrentFileCmd_def addFromResumeDataCmd_def Let_def new_calls_def
        apply_options_def set_flags_if_def split: option.splits sum.splits if_splits)
  ultimately show ?thesis by blast
qed

definition example_added :: add_params where
  "example_added = \<lparr>ap_info_hashes = example_ih, ap_name = [], ap_save_path = [], ap_ti = None\<rparr>"

theorem paused_add_is_resumed_witness:
  "\<forall>E. let E1 = resume_env E; s1 = snd (handleCmd E1 (AddFromResumeDataCmd [1] True) initial_session) in
     \<exists>a. adds (new_calls initial_session s1) = [a] \<and> fPaused \<in> at_flags a \<and>
       ResumeTorrent 9 \<in> set (new_calls s1
         (fst (handle_alert E1 (TaskAlert 9 (AddTorrentAlert None example_added)) s1)))"
proof
  fix E
  have "names_torrent (resume_env E) (AddFromResumeDataCmd [1] True) = Some example_ih"
    "\<not> hasActiveTaskForInfoHashes (resume_env E) initial_session example_ih"
    "map_of (pendingMagnetMeta initial_session) (key_of_hashes (resume_env E) example_ih) = None"
    by (simp_all add: resume_env_def hasActiveTaskForInfoHashes_def initial_session_def)
  then show "let E1 = resume_env E; s1 = snd (handleCmd E1 (AddFromResumeDataCmd [1] True) initial_session) in
     \<exists>a. adds (new_calls initial_session s1) = [a] \<and> fPaused \<in> at_flags a \<and>
       ResumeTorrent 9 \<in> set (new_calls s1
         (fst (handle_alert E1 (TaskAlert 9 (AddTorrentAlert None example_added)) s1)))"
    unfolding Let_def
    by (intro paused_add_is_resumed) (simp_all add: example_added_def)
qed


definition example_meta :: torrent_meta where
  "example_meta = \<lparr>tm_name = qs ''t'', tm_comment = [], tm_creation_date = 0,
     tm_files = [(qs ''a/b.txt'', 5), (qs ''a/c/d'', 7), (qs ''ab'', 1)], tm_num_pieces = 1,
     tm_piece_of = (\<lambda>f o1. 0), tm_info_hashes = example_ih\<rparr>"

definition example_task :: task_id where
  "example_task = taskIdFromInfoHashes (\<lambda>b. b) example_ih"

definition prepared_session :: session where
  "prepared_session = initial_session\<lparr>preparedTorrentInfo := [(taskIdKey example_task, example_meta)]\<rparr>"


section \<open>Tracker edits\<close>

definition known_entry :: "announce_entry list \<Rightarrow> qstring \<Rightarrow> announce_entry option" where
  "known_entry old u = List.find (\<lambda>o1. trimmed (ae_url o1) = trimmed u) old"

definition nonblank :: "qstring list \<Rightarrow> qstring list" where
  "nonblank urls = filter (\<lambda>u. u \<noteq> []) (map trimmed urls)"

lemma nonblank_simps:
  "nonblank [] = []"
  "nonblank (u # us) = (if trimmed u = [] then nonblank us else trimmed u # nonblank us)"
  by (simp_all add: nonblank_def)

lemma merged_loop_spec:
  assumes "\<And>u. ae_url (new u) = u"
  shows "map ae_url (merged_loop new old us tier) = nonblank us"
    "map ae_tier (merged_loop new old us tier) = map (\<lambda>i. tier + int i) [0 ..< length (nonblank us)]"
    "\<forall>ae \<in> set (merged_loop new old us tier). \<forall>o1. known_entry old (ae_url ae) = Some o1 \<longrightarrow>
       ae_source ae = ae_source o1 \<and> ae_fail_limit ae = ae_fail_limit o1"
proof (induction us arbitrary: tier)
  case (Cons u us)
  {
    case 1
    then show ?case using Cons(1) assms
      by (auto simp: nonblank_simps Let_def split: option.splits)
  next
    case 2
    then show ?case using Cons(2)
      by (auto simp: nonblank_simps Let_def map_upt_Suc simp del: upt_Suc split: option.splits)
  next
    case 3
    then show ?case using Cons(3) assms
      by (auto simp: Let_def known_entry_def split: option.splits)
  }
qed (simp_all add: nonblank_simps)

definition merged_ok :: "announce_entry list \<Rightarrow> qstring list \<Rightarrow> announce_entry list \<Rightarrow> bool" where
  "merged_ok old urls l \<longleftrightarrow>
     map ae_url l = urls \<and> map ae_tier l = map int [0 ..< length urls] \<and>
     (\<forall>ae \<in> set l. \<forall>o1. known_entry old (ae_url ae) = Some o1 \<longrightarrow>
        ae_source ae = ae_source o1 \<and> ae_fail_limit ae = ae_fail_limit o1)"

lemma mergedTrackers_ok:
  assumes "\<And>u. ae_url (lt_new_entry E u) = u"
  shows "merged_ok old (nonblank urls) (mergedTrackers E old urls)"
  using merged_loop_spec [of "lt_new_entry E" old urls 0, OF assms]
  by (simp add: merged_ok_def mergedTrackers_def)

lemma nonblank_filter:
  "nonblank (filter (\<lambda>u. trimmed u \<noteq> t) us) = filter (\<lambda>u. u \<noteq> t) (nonblank us)"
  by (induction us) (auto simp: nonblank_simps)

lemma nonblank_edit:
  "nonblank (map (\<lambda>ae. if trimmed (ae_url ae) = t then trimmed v else ae_url ae) old) =
   nonblank (map (\<lambda>u. if u = t then trimmed v else u) (map (\<lambda>ae. trimmed (ae_url ae)) old))"
  by (induction old) (auto simp: nonblank_simps)

text \<open>
  C36. Tracker edits of a task replace its list by exactly the trimmed, non-empty URLs of the old list with
  the new one at the end, with every occurrence of the old URL replaced, or without the removed one, in
  order. Source and failure limit of a URL that was in the list are kept; the tiers are lost: entry
  \<open>i\<close> of the new list gets tier \<open>i\<close>, whatever groups the trackers were in.
\<close>

theorem tracker_edits_exact:
  assumes "find_valid E s t = Some h" and "\<And>u. ae_url (lt_new_entry E u) = u"
    and "old = lt_trackers E h" and "urls = map (\<lambda>ae. trimmed (ae_url ae)) old"
  shows "(\<exists>l. new_calls s (addTaskTrackerCmd E t url s) = [ReplaceTrackers h l] \<and>
              merged_ok old (nonblank (urls @ [url])) l) \<and>
         (\<exists>l. new_calls s (editTaskTrackerCmd E t oldUrl newUrl s) = [ReplaceTrackers h l] \<and>
              merged_ok old (nonblank (map (\<lambda>u. if u = trimmed oldUrl then trimmed newUrl else u) urls)) l) \<and>
         (\<exists>l. new_calls s (removeTaskTrackerCmd E t url s) = [ReplaceTrackers h l] \<and>
              merged_ok old (filter (\<lambda>u. u \<noteq> trimmed url) (nonblank urls)) l)"
proof -
  have trim: "nonblank urls = nonblank (map ae_url old)"
    "nonblank (urls @ [url]) = nonblank (map ae_url old @ [url])"
    by (simp_all add: assms(4) nonblank_def comp_def)
  have ok: "merged_ok old (nonblank us) (mergedTrackers E old us)" for us
    using assms(2) by (rule mergedTrackers_ok)
  have calls:
    "new_calls s (addTaskTrackerCmd E t url s) =
       [ReplaceTrackers h (mergedTrackers E old (map ae_url old @ [url]))]"
    "new_calls s (editTaskTrackerCmd E t oldUrl newUrl s) =
       [ReplaceTrackers h (mergedTrackers E old
         (map (\<lambda>ae. if trimmed (ae_url ae) = trimmed oldUrl then trimmed newUrl else ae_url ae) old))]"
    "new_calls s (removeTaskTrackerCmd E t url s) =
       [ReplaceTrackers h (mergedTrackers E old (filter (\<lambda>u. trimmed u \<noteq> trimmed url) (map ae_url old)))]"
    using assms(1,3) by (simp_all add: addTaskTrackerCmd_def editTaskTrackerCmd_def
        removeTaskTrackerCmd_def on_valid_def Let_def)
  have edit: "nonblank (map (\<lambda>u. if u = trimmed oldUrl then trimmed newUrl else u) urls) =
      nonblank (map (\<lambda>ae. if trimmed (ae_url ae) = trimmed oldUrl then trimmed newUrl else ae_url ae) old)"
    by (simp only: assms(4) nonblank_edit)
  have rem: "filter (\<lambda>u. u \<noteq> trimmed url) (nonblank urls) =
      nonblank (filter (\<lambda>u. trimmed u \<noteq> trimmed url) (map ae_url old))"
    by (simp only: trim(1) nonblank_filter)
  show ?thesis
    unfolding trim(2) edit rem calls using ok by blast
qed

definition entry_of :: "qstring \<Rightarrow> announce_entry" where
  "entry_of u = \<lparr>ae_url = u, ae_tier = 0, ae_source = 0, ae_fail_limit = 0, ae_endpoints = []\<rparr>"

definition tracker_env :: "lt_env \<Rightarrow> lt_env" where
  "tracker_env E = E\<lparr>lt_new_entry := entry_of, lt_valid := (\<lambda>h. True),
     lt_trackers := (\<lambda>h. [(entry_of (qs ''udp://a''))\<lparr>ae_tier := 3, ae_fail_limit := 2\<rparr>])\<rparr>"

theorem tracker_edits_exact_witness:
  "\<forall>E. (\<exists>l. new_calls example_session (addTaskTrackerCmd (tracker_env E) (uid 1) (qs ''udp://b'') example_session) =
              [ReplaceTrackers 7 l] \<and>
            merged_ok [(entry_of (qs ''udp://a''))\<lparr>ae_tier := 3, ae_fail_limit := 2\<rparr>]
              [qs ''udp://a'', qs ''udp://b''] l)"
proof
  fix E
  let ?E = "tracker_env E" and ?old = "[(entry_of (qs ''udp://a''))\<lparr>ae_tier := 3, ae_fail_limit := 2\<rparr>]"
  have valid: "find_valid ?E example_session (uid 1) = Some 7"
    by (simp add: find_valid_def find_handle_def example_session_def tracker_env_def)
  have new: "\<And>u. ae_url (lt_new_entry ?E u) = u"
    by (simp add: tracker_env_def entry_of_def)
  have old: "?old = lt_trackers ?E 7" by (simp add: tracker_env_def)
  have urls: "nonblank (map (\<lambda>ae. trimmed (ae_url ae)) ?old @ [qs ''udp://b'']) =
      [qs ''udp://a'', qs ''udp://b'']"
  proof -
    have t: "trimmed (qs ''udp://a'') = qs ''udp://a''" "trimmed (qs ''udp://b'') = qs ''udp://b''"
      by code_simp+
    then show ?thesis by (simp add: nonblank_def entry_of_def)
  qed
  show "\<exists>l. new_calls example_session (addTaskTrackerCmd ?E (uid 1) (qs ''udp://b'') example_session) =
      [ReplaceTrackers 7 l] \<and> merged_ok ?old [qs ''udp://a'', qs ''udp://b''] l"
    using tracker_edits_exact [OF valid new old refl, THEN conjunct1, of "qs ''udp://b''"]
    unfolding urls .
qed

section \<open>Renames\<close>

lemma parent_of_append: "slash_char \<notin> set b \<Longrightarrow> parent_of (a @ [slash_char] @ b) = a"
proof -
  assume "slash_char \<notin> set b"
  then have "dropWhile (\<lambda>c. c \<noteq> slash_char) (rev b @ slash_char # rev a) = slash_char # rev a"
    by (subst dropWhile_append2) auto
  then show ?thesis by (simp add: parent_of_def)
qed

lemma rename_target_append:
  "slash_char \<notin> set b \<Longrightarrow> a \<noteq> [] \<Longrightarrow> rename_target (a @ [slash_char] @ b) n = a @ [slash_char] @ n"
  by (simp add: rename_target_def parent_of_append del: append_Cons append.simps)

lemma rename_target_plain: "slash_char \<notin> set b \<Longrightarrow> rename_target b n = n"
  by (simp add: rename_target_def parent_of_def)

lemma rename_of_prefix:
  "rename_of src newRoot p =
     (if p = src \<or> starts_with p (src @ [slash_char]) then Some (newRoot @ drop (length src) p) else None)"
proof (cases "starts_with p (src @ [slash_char])")
  case True
  then obtain rest where "p = src @ slash_char # rest"
    by (auto simp: starts_with_prefix prefix_def)
  then show ?thesis by (simp add: rename_of_def)
qed (simp add: rename_of_def)

text \<open>
  C37. Renaming a file or folder of a torrent renames exactly the file with that path and the files below
  it, in the order of their indices: the last component of the path, and nothing else of any path, becomes
  the new name. (A path that starts with a slash and has no other one is outside this statement.)
\<close>

theorem rename_moves_exactly_the_subtree:
  assumes "find_valid E s t = Some h" and "lt_torrent_file E h = Some ti"
    and "trimmed path = dir @ base" and "slash_char \<notin> set base" and "trimmed path \<noteq> []"
    and "dir = [] \<or> (\<exists>a. a \<noteq> [] \<and> dir = a @ [slash_char])" and "trimmed name \<noteq> []"
    and "paths = map fst (tm_files ti)"
  shows "new_calls s (renameTaskFileOrFolderCmd E t path name s) =
    map (\<lambda>i. RenameFile h i (dir @ trimmed name @ drop (length (dir @ base)) (paths ! i)))
      (filter (\<lambda>i. paths ! i = dir @ base \<or> starts_with (paths ! i) (dir @ base @ [slash_char]))
        [0 ..< length paths])"
proof -
  have rt: "rename_target (dir @ base) (trimmed name) = dir @ trimmed name"
    using assms(4,6) rename_target_append [of base _ "trimmed name"] rename_target_plain [of base]
    by auto
  have step: "List.map_filter (\<lambda>i. case rename_of (dir @ base) (dir @ trimmed name) (paths ! i) of
        None \<Rightarrow> None | Some p \<Rightarrow> Some (RenameFile h i p)) is =
      map (\<lambda>i. RenameFile h i (dir @ trimmed name @ drop (length (dir @ base)) (paths ! i)))
      (filter (\<lambda>i. paths ! i = dir @ base \<or> starts_with (paths ! i) (dir @ base @ [slash_char])) is)" for "is"
    by (induction "is") (simp_all add: List.map_filter_simps rename_of_prefix)
  have "renameTaskFileOrFolderCmd E t path name s =
      emit (rename_calls h (dir @ base) (dir @ trimmed name) paths) s"
    using assms(1-3,5,7,8) rt
    by (auto simp: renameTaskFileOrFolderCmd_def on_valid_def Let_def)
  then show ?thesis
    unfolding rename_calls_def step new_calls_emit by simp
qed

definition files_env :: "lt_env \<Rightarrow> lt_env" where
  "files_env E = E\<lparr>lt_valid := (\<lambda>h. True), lt_torrent_file := (\<lambda>h. Some example_meta),
                  lt_file_priorities := (\<lambda>h. [4, 4, 1])\<rparr>"

lemma find_valid_example [simp]:
  "find_valid (files_env E) example_session (uid 1) = Some 7"
  by (simp add: find_valid_def find_handle_def example_session_def files_env_def)

theorem rename_moves_exactly_the_subtree_witness:
  "\<forall>E. new_calls example_session
         (renameTaskFileOrFolderCmd (files_env E) (uid 1) (qs ''a'') (qs '' x '') example_session) =
       [RenameFile 7 0 (qs ''x/b.txt''), RenameFile 7 1 (qs ''x/c/d'')]"
proof
  fix E
  have a: "trimmed (qs ''a'') = [] @ qs ''a''" "slash_char \<notin> set (qs ''a'')" "trimmed (qs ''a'') \<noteq> []"
    by code_simp+
  have n: "trimmed (qs '' x '') \<noteq> []" by code_simp
  have f: "lt_torrent_file (files_env E) 7 = Some example_meta" by (simp add: files_env_def)
  have idx: "filter (\<lambda>i. map fst (tm_files example_meta) ! i = [] @ qs ''a'' \<or>
           starts_with (map fst (tm_files example_meta) ! i) ([] @ qs ''a'' @ [slash_char]))
        [0 ..< length (map fst (tm_files example_meta))] = [0, 1]"
    "[] @ trimmed (qs '' x '') @ drop (length ([] @ qs ''a'')) (map fst (tm_files example_meta) ! 0) = qs ''x/b.txt''"
    "[] @ trimmed (qs '' x '') @ drop (length ([] @ qs ''a'')) (map fst (tm_files example_meta) ! 1) = qs ''x/c/d''"
    by code_simp+
  show "new_calls example_session
      (renameTaskFileOrFolderCmd (files_env E) (uid 1) (qs ''a'') (qs '' x '') example_session) =
      [RenameFile 7 0 (qs ''x/b.txt''), RenameFile 7 1 (qs ''x/c/d'')]"
    using rename_moves_exactly_the_subtree [OF find_valid_example f a(1,2,3) disjI1 [OF refl] n refl]
    unfolding idx list.map .
qed

section \<open>File priorities\<close>

lemma set_priorities_spec:
  "length (set_priorities ps is target) = length ps"
  "i < length ps \<Longrightarrow> set_priorities ps is target ! i = (if int i \<in> set is then target else ps ! i)"
  by (induction ps "is" target rule: set_priorities.induct) (auto simp: nth_list_update)

text \<open>
  Setting the priority level of files changes exactly the files whose indices are given and in range,
  leaves the number of files alone, and reads back: a file query under the sequential flag that the
  command sets shows the level for the changed files.
\<close>

theorem file_priority_set_and_read_back:
  assumes "find_valid E s t = Some h" and "ps = lt_file_priorities E h" and "ps \<noteq> []"
  shows "\<exists>ps'. new_calls s (setTaskFilePriorityCmd E t is level s) =
           (if level = kFileOrder then [SetFlag h fSequential] else []) @ [PrioritizeFiles h ps'] \<and>
         length ps' = length ps \<and>
         (\<forall>i < length ps. ps' ! i = (if int i \<in> set is then toLtPriority level else ps ! i)) \<and>
         toLevel (toLtPriority level) (level = kFileOrder) = level"
proof -
  have "new_calls s (setTaskFilePriorityCmd E t is level s) =
      (if level = kFileOrder then [SetFlag h fSequential] else []) @
      [PrioritizeFiles h (set_priorities ps is (toLtPriority level))]"
    using assms by (simp add: setTaskFilePriorityCmd_def on_valid_def Let_def)
  moreover have "toLevel (toLtPriority level) (level = kFileOrder) = level"
    by (cases level) (simp_all add: toLevel_def toLtPriority_def)
  ultimately show ?thesis using set_priorities_spec by blast
qed

theorem file_priority_set_and_read_back_witness:
  "\<forall>E. \<exists>ps'. new_calls example_session
        (setTaskFilePriorityCmd (files_env E) (uid 1) [0, 5, - 1] kHigh example_session) =
        [PrioritizeFiles 7 ps'] \<and> length ps' = 3 \<and> ps' ! 0 = 6"
proof
  fix E
  have p: "[4, 4, 1] = lt_file_priorities (files_env E) 7" "[4, 4, 1 :: nat] \<noteq> []"
    by (simp_all add: files_env_def)
  show "\<exists>ps'. new_calls example_session
        (setTaskFilePriorityCmd (files_env E) (uid 1) [0, 5, - 1] kHigh example_session) =
        [PrioritizeFiles 7 ps'] \<and> length ps' = 3 \<and> ps' ! 0 = 6"
    using file_priority_set_and_read_back [OF find_valid_example p, of "[0, 5, - 1]" kHigh]
    by (auto simp: toLtPriority_def)
qed

end
