(* ===== verification/AppSettings.thy ===== *)
theory AppSettings
  imports TrackerCodec Sanitizer Complex_Main
begin

text \<open>
  Settings: \<open>core/app_settings.{h,cc}\<close> and \<open>core/config_service.{h,cc}\<close>. The file of \<open>QSettings\<close> is a
  map from keys to values; what \<open>QVariant\<close> makes of a stored value (\<open>toInt\<close>, \<open>toBool\<close> and so on), the
  case mapping and the standard directories are arguments (\<open>settings_env\<close>). A \<open>double\<close> is a real number.
\<close>

section \<open>The settings file\<close>

datatype variant = VBool bool | VInt int | VReal real | VStr qstring | VList "qstring list"

type_synonym store = "string \<Rightarrow> variant option"

record settings_env =
  se_lower :: "qstring \<Rightarrow> qstring"
  se_bool :: "variant \<Rightarrow> bool"
  se_int :: "variant \<Rightarrow> int"        \<comment> \<open>\<open>toInt\<close>\<close>
  se_long :: "variant \<Rightarrow> int"       \<comment> \<open>\<open>toLongLong\<close>\<close>
  se_real :: "variant \<Rightarrow> real"
  se_str :: "variant \<Rightarrow> qstring"
  se_list :: "variant \<Rightarrow> qstring list"
  se_download_dir :: qstring      \<comment> \<open>the standard download directory\<close>
  se_log_dir :: qstring           \<comment> \<open>\<open>logs\<close> in the local data directory\<close>

definition value_or :: "store \<Rightarrow> string \<Rightarrow> variant \<Rightarrow> variant" where
  "value_or st key d = (case st key of None \<Rightarrow> d | Some v \<Rightarrow> v)"

definition read_bool :: "settings_env \<Rightarrow> store \<Rightarrow> string \<Rightarrow> bool \<Rightarrow> bool" where
  "read_bool E st key d = se_bool E (value_or st key (VBool d))"

definition read_int :: "settings_env \<Rightarrow> store \<Rightarrow> string \<Rightarrow> int \<Rightarrow> int" where
  "read_int E st key d = se_int E (value_or st key (VInt d))"

definition read_long :: "settings_env \<Rightarrow> store \<Rightarrow> string \<Rightarrow> int \<Rightarrow> int" where
  "read_long E st key d = se_long E (value_or st key (VInt d))"

definition read_real :: "settings_env \<Rightarrow> store \<Rightarrow> string \<Rightarrow> real \<Rightarrow> real" where
  "read_real E st key d = se_real E (value_or st key (VReal d))"

definition read_str :: "settings_env \<Rightarrow> store \<Rightarrow> string \<Rightarrow> string \<Rightarrow> qstring" where
  "read_str E st key d = se_str E (value_or st key (VStr (qs d)))"

definition read_trimmed :: "settings_env \<Rightarrow> store \<Rightarrow> string \<Rightarrow> string \<Rightarrow> qstring" where
  "read_trimmed E st key d = trimmed (read_str E st key d)"

definition read_lower :: "settings_env \<Rightarrow> store \<Rightarrow> string \<Rightarrow> string \<Rightarrow> qstring" where
  "read_lower E st key d = se_lower E (read_trimmed E st key d)"

definition rclamp :: "real \<Rightarrow> real \<Rightarrow> real \<Rightarrow> real" where
  "rclamp v lo hi = (if v < lo then lo else if hi < v then hi else v)"

definition or_default :: "qstring \<Rightarrow> qstring \<Rightarrow> qstring" where
  "or_default s d = (if s = [] then d else s)"

definition one_of :: "string list \<Rightarrow> string \<Rightarrow> qstring \<Rightarrow> qstring" where
  \<comment> \<open>a value that is not allowed is replaced\<close>
  "one_of allowed fallback s = (if s \<in> set (map qs allowed) then s else qs fallback)"

section \<open>Application settings\<close>

record app_settings =
  as_default_download_dir :: qstring
  as_seed_unlimited :: bool
  as_seed_target_ratio :: real
  as_seed_max_minutes :: int
  as_file_log_enabled :: bool
  as_log_dir :: qstring
  as_log_level :: qstring
  as_log_rotate_max_file_size_bytes :: int
  as_log_rotate_max_backup_files :: int
  as_download_rate_limit_kib :: int
  as_upload_rate_limit_kib :: int
  as_connections_limit :: int
  as_per_torrent_connections_limit :: int
  as_upload_slots_limit :: int
  as_per_torrent_upload_slots_limit :: int
  as_listen_port :: int
  as_listen_port_forwarding :: bool
  as_active_downloads :: int
  as_active_seeds :: int
  as_active_limit :: int
  as_max_active_checking :: int
  as_auto_manage_prefer_seeds :: bool
  as_dont_count_slow_torrents :: bool
  as_slow_torrent_dl_rate_threshold :: int
  as_slow_torrent_ul_rate_threshold :: int
  as_slow_torrent_inactive_timer :: int
  as_enable_dht :: bool
  as_enable_upnp :: bool
  as_enable_natpmp :: bool
  as_enable_lsd :: bool
  as_monitor_port :: int
  as_builtin_tracker_enabled :: bool
  as_builtin_tracker_port :: int
  as_builtin_tracker_bind_mode :: qstring
  as_builtin_tracker_port_forwarding :: bool
  as_encryption_mode :: qstring
  as_ip_filter_enabled :: bool
  as_ip_filter_path :: qstring
  as_proxy_enabled :: bool
  as_proxy_type :: qstring
  as_proxy_host :: qstring
  as_proxy_port :: int
  as_proxy_username :: qstring
  as_proxy_password :: qstring
  as_close_behavior :: qstring
  as_ui_theme :: qstring
  as_start_minimized :: bool
  as_timed_action :: qstring
  as_timed_action_delay_minutes :: int
  as_download_complete_action :: qstring
  as_http_user_agent :: qstring
  as_http_accept_language :: qstring
  as_http_cookie_header :: qstring
  as_http_cookie_rules :: qstring

definition encryption_modes :: "string list" where
  "encryption_modes = [''enabled'', ''forced'', ''disabled'']"

definition proxy_types :: "string list" where
  "proxy_types = [''socks5'', ''http'']"

definition close_behaviors :: "string list" where
  "close_behaviors = [''minimize'', ''quit'']"

definition ui_themes :: "string list" where
  "ui_themes = [''light'', ''dark'', ''system'']"

definition timed_actions :: "string list" where
  "timed_actions = [''none'', ''quit_app'', ''shutdown'']"

definition done_actions :: "string list" where
  "done_actions = [''none'', ''quit_app'', ''suspend'', ''hibernate'', ''poweroff'']"

definition done_action :: "qstring \<Rightarrow> int \<Rightarrow> qstring \<Rightarrow> qstring" where
  \<comment> \<open>a timed action that is on switches the other one off\<close>
  "done_action timed delay act = (if timed \<noteq> qs ''none'' \<and> delay > 0 then qs ''none'' else act)"

definition load_settings :: "settings_env \<Rightarrow> store \<Rightarrow> app_settings" where
  "load_settings E st =
     \<lparr>as_default_download_dir = or_default (read_trimmed E st ''download/default_dir'' '''') (se_download_dir E),
      as_seed_unlimited = read_bool E st ''seed/unlimited'' False,
      as_seed_target_ratio = rclamp (read_real E st ''seed/target_ratio'' 1) (1/10) 100,
      as_seed_max_minutes = clamp (read_int E st ''seed/max_minutes'' 0) 0 10080,
      as_file_log_enabled = read_bool E st ''log/file_enabled'' True,
      as_log_dir = or_default (read_trimmed E st ''log/dir'' '''') (se_log_dir E),
      as_log_level = read_lower E st ''log/level'' ''info'',
      as_log_rotate_max_file_size_bytes = read_long E st ''log/rotate_max_file_size_bytes'' 0,
      as_log_rotate_max_backup_files = clamp (read_int E st ''log/rotate_max_backup_files'' 3) 1 50,
      as_download_rate_limit_kib = clamp (read_int E st ''network/download_rate_limit_kib'' 0) 0 1048576,
      as_upload_rate_limit_kib = clamp (read_int E st ''network/upload_rate_limit_kib'' 0) 0 1048576,
      as_connections_limit = clamp (read_int E st ''network/connections_limit'' 200) 0 20000,
      as_per_torrent_connections_limit = clamp (read_int E st ''network/per_torrent_connections_limit'' 0) 0 20000,
      as_upload_slots_limit = clamp (read_int E st ''network/upload_slots_limit'' 0) 0 20000,
      as_per_torrent_upload_slots_limit = clamp (read_int E st ''network/per_torrent_upload_slots_limit'' 0) 0 20000,
      as_listen_port = clamp (read_int E st ''network/listen_port'' 0) 0 65535,
      as_listen_port_forwarding = read_bool E st ''network/listen_port_forwarding'' True,
      as_active_downloads = clamp (read_int E st ''queue/active_downloads'' 0) 0 20000,
      as_active_seeds = clamp (read_int E st ''queue/active_seeds'' 0) 0 20000,
      as_active_limit = clamp (read_int E st ''queue/active_limit'' 0) 0 20000,
      as_max_active_checking = clamp (read_int E st ''queue/max_active_checking'' 1) 0 100,
      as_auto_manage_prefer_seeds = read_bool E st ''queue/auto_manage_prefer_seeds'' False,
      as_dont_count_slow_torrents = read_bool E st ''queue/dont_count_slow_torrents'' True,
      as_slow_torrent_dl_rate_threshold = clamp (read_int E st ''queue/slow_torrent_dl_rate_threshold'' 2) 0 10240,
      as_slow_torrent_ul_rate_threshold = clamp (read_int E st ''queue/slow_torrent_ul_rate_threshold'' 2) 0 10240,
      as_slow_torrent_inactive_timer = clamp (read_int E st ''queue/slow_torrent_inactive_timer'' 60) 0 3600,
      as_enable_dht = read_bool E st ''protocol/enable_dht'' True,
      as_enable_upnp = read_bool E st ''protocol/enable_upnp'' True,
      as_enable_natpmp = read_bool E st ''protocol/enable_natpmp'' True,
      as_enable_lsd = read_bool E st ''protocol/enable_lsd'' True,
      as_monitor_port = clamp (read_int E st ''protocol/monitor_port'' 0) 0 65535,
      as_builtin_tracker_enabled = read_bool E st ''protocol/builtin_tracker_enabled'' False,
      as_builtin_tracker_port = clamp (read_int E st ''protocol/builtin_tracker_port'' 0) 0 65535,
      as_builtin_tracker_bind_mode = normalizeBuiltinTrackerBindMode (se_lower E) (read_str E st ''protocol/builtin_tracker_bind_mode'' ''localhost''),
      as_builtin_tracker_port_forwarding = read_bool E st ''protocol/builtin_tracker_port_forwarding'' False,
      as_encryption_mode = one_of encryption_modes ''enabled'' (read_lower E st ''protocol/encryption_mode'' ''enabled''),
      as_ip_filter_enabled = read_bool E st ''network/ip_filter/enabled'' False,
      as_ip_filter_path = read_trimmed E st ''network/ip_filter/path'' '''',
      as_proxy_enabled = read_bool E st ''network/proxy/enabled'' False,
      as_proxy_type = one_of proxy_types ''socks5'' (read_lower E st ''network/proxy/type'' ''socks5''),
      as_proxy_host = read_trimmed E st ''network/proxy/host'' '''',
      as_proxy_port = clamp (read_int E st ''network/proxy/port'' 1080) 1 65535,
      as_proxy_username = read_trimmed E st ''network/proxy/username'' '''',
      as_proxy_password = read_str E st ''network/proxy/password'' '''',
      as_close_behavior = one_of close_behaviors ''minimize'' (read_lower E st ''ui/close_behavior'' ''minimize''),
      as_ui_theme = one_of ui_themes ''light'' (read_lower E st ''ui/theme'' ''system''),
      as_start_minimized = read_bool E st ''ui/start_minimized'' False,
      as_timed_action = one_of timed_actions ''none'' (read_lower E st ''ui/timed_action'' ''none''),
      as_timed_action_delay_minutes = clamp (read_int E st ''ui/timed_action_delay_minutes'' 0) 0 10080,
      as_download_complete_action = done_action (one_of timed_actions ''none'' (read_lower E st ''ui/timed_action'' ''none''))
        (clamp (read_int E st ''ui/timed_action_delay_minutes'' 0) 0 10080)
        (one_of done_actions ''none'' (read_lower E st ''ui/download_complete_action'' ''none'')),
      as_http_user_agent = read_trimmed E st ''http/user_agent'' ''TorrentLink/1.0'',
      as_http_accept_language = read_trimmed E st ''http/accept_language'' ''zh-CN,zh;q=0.9,en;q=0.8'',
      as_http_cookie_header = read_str E st ''http/cookie_header'' '''',
      as_http_cookie_rules = read_str E st ''http/cookie_rules'' ''''\<rparr>"

definition saved_action :: "settings_env \<Rightarrow> app_settings \<Rightarrow> qstring" where
  "saved_action E s =
     done_action (se_lower E (trimmed (as_timed_action s))) (as_timed_action_delay_minutes s)
       (se_lower E (trimmed (as_download_complete_action s)))"

definition saved_values :: "settings_env \<Rightarrow> app_settings \<Rightarrow> (string \<times> variant) list" where
  "saved_values E s =
     [(''download/default_dir'', VStr (trimmed (as_default_download_dir s))),
      (''seed/unlimited'', VBool (as_seed_unlimited s)),
      (''seed/target_ratio'', VReal (as_seed_target_ratio s)),
      (''seed/max_minutes'', VInt (as_seed_max_minutes s)),
      (''log/file_enabled'', VBool (as_file_log_enabled s)),
      (''log/dir'', VStr (trimmed (as_log_dir s))),
      (''log/level'', VStr (se_lower E (trimmed (as_log_level s)))),
      (''log/rotate_max_file_size_bytes'', VInt (as_log_rotate_max_file_size_bytes s)),
      (''log/rotate_max_backup_files'', VInt (as_log_rotate_max_backup_files s)),
      (''network/download_rate_limit_kib'', VInt (as_download_rate_limit_kib s)),
      (''network/upload_rate_limit_kib'', VInt (as_upload_rate_limit_kib s)),
      (''network/connections_limit'', VInt (as_connections_limit s)),
      (''network/per_torrent_connections_limit'', VInt (as_per_torrent_connections_limit s)),
      (''network/upload_slots_limit'', VInt (as_upload_slots_limit s)),
      (''network/per_torrent_upload_slots_limit'', VInt (as_per_torrent_upload_slots_limit s)),
      (''network/listen_port'', VInt (as_listen_port s)),
      (''network/listen_port_forwarding'', VBool (as_listen_port_forwarding s)),
      (''queue/active_downloads'', VInt (as_active_downloads s)),
      (''queue/active_seeds'', VInt (as_active_seeds s)),
      (''queue/active_limit'', VInt (as_active_limit s)),
      (''queue/max_active_checking'', VInt (as_max_active_checking s)),
      (''queue/auto_manage_prefer_seeds'', VBool (as_auto_manage_prefer_seeds s)),
      (''queue/dont_count_slow_torrents'', VBool (as_dont_count_slow_torrents s)),
      (''queue/slow_torrent_dl_rate_threshold'', VInt (as_slow_torrent_dl_rate_threshold s)),
      (''queue/slow_torrent_ul_rate_threshold'', VInt (as_slow_torrent_ul_rate_threshold s)),
      (''queue/slow_torrent_inactive_timer'', VInt (as_slow_torrent_inactive_timer s)),
      (''protocol/enable_dht'', VBool (as_enable_dht s)),
      (''protocol/enable_upnp'', VBool (as_enable_upnp s)),
      (''protocol/enable_natpmp'', VBool (as_enable_natpmp s)),
      (''protocol/enable_lsd'', VBool (as_enable_lsd s)),
      (''protocol/monitor_port'', VInt (as_monitor_port s)),
      (''protocol/builtin_tracker_enabled'', VBool (as_builtin_tracker_enabled s)),
      (''protocol/builtin_tracker_port'', VInt (as_builtin_tracker_port s)),
      (''protocol/builtin_tracker_bind_mode'', VStr (normalizeBuiltinTrackerBindMode (se_lower E) (as_builtin_tracker_bind_mode s))),
      (''protocol/builtin_tracker_port_forwarding'', VBool (as_builtin_tracker_port_forwarding s)),
      (''protocol/encryption_mode'', VStr (se_lower E (trimmed (as_encryption_mode s)))),
      (''network/ip_filter/enabled'', VBool (as_ip_filter_enabled s)),
      (''network/ip_filter/path'', VStr (trimmed (as_ip_filter_path s))),
      (''network/proxy/enabled'', VBool (as_proxy_enabled s)),
      (''network/proxy/type'', VStr (se_lower E (trimmed (as_proxy_type s)))),
      (''network/proxy/host'', VStr (trimmed (as_proxy_host s))),
      (''network/proxy/port'', VInt (as_proxy_port s)),
      (''network/proxy/username'', VStr (trimmed (as_proxy_username s))),
      (''network/proxy/password'', VStr (as_proxy_password s)),
      (''ui/close_behavior'', VStr (se_lower E (trimmed (as_close_behavior s)))),
      (''ui/theme'', VStr (se_lower E (trimmed (as_ui_theme s)))),
      (''ui/start_minimized'', VBool (as_start_minimized s)),
      (''ui/timed_action'', VStr (se_lower E (trimmed (as_timed_action s)))),
      (''ui/timed_action_delay_minutes'', VInt (as_timed_action_delay_minutes s)),
      (''ui/download_complete_action'', VStr (saved_action E s)),
      (''http/user_agent'', VStr (trimmed (as_http_user_agent s))),
      (''http/accept_language'', VStr (trimmed (as_http_accept_language s))),
      (''http/cookie_header'', VStr (as_http_cookie_header s)),
      (''http/cookie_rules'', VStr (as_http_cookie_rules s))]"

definition set_values :: "store \<Rightarrow> (string \<times> variant) list \<Rightarrow> store" where
  "set_values st kvs = fold (\<lambda>(k, v) m. m(k \<mapsto> v)) kvs st"

definition save_settings :: "settings_env \<Rightarrow> app_settings \<Rightarrow> store \<Rightarrow> store" where
  "save_settings E s st = set_values st (saved_values E s)"

section \<open>The configuration service\<close>

datatype settings_status = NoError | AccessError | FormatError

definition settingsStatusToString :: "settings_status \<Rightarrow> qstring" where
  "settingsStatusToString x =
     (case x of NoError \<Rightarrow> qs ''NoError'' | AccessError \<Rightarrow> qs ''AccessError''
      | FormatError \<Rightarrow> qs ''FormatError'')"

record controller_settings =
  cs_auto_apply_default_trackers :: bool
  cs_default_trackers :: "qstring list"
  cs_magnet_max_inflight :: int
  cs_bottom_status_enabled :: bool
  cs_bottom_status_refresh_ms :: int
  cs_task_autosave_ms :: int
  cs_restore_start_paused :: bool

record combined_settings =
  cb_app :: app_settings
  cb_controller :: controller_settings

record save_result =
  sr_ok :: bool
  sr_message :: qstring

definition save_ok :: save_result where "save_ok = \<lparr>sr_ok = True, sr_message = []\<rparr>"

fun normalize_loop :: "qstring list \<Rightarrow> qstring list \<Rightarrow> qstring list" where
  "normalize_loop [] out = out"
| "normalize_loop (t # ts) out =
     normalize_loop ts (if trimmed t \<noteq> [] \<and> trimmed t \<notin> set out then out @ [trimmed t] else out)"

definition normalizeTrackers :: "qstring list \<Rightarrow> qstring list" where
  "normalizeTrackers trackers = normalize_loop trackers []"

definition loadControllerSettings :: "settings_env \<Rightarrow> store \<Rightarrow> controller_settings" where
  "loadControllerSettings E st =
     \<lparr>cs_auto_apply_default_trackers = read_bool E st ''trackers/auto_apply'' False,
      cs_default_trackers =
        normalizeTrackers (se_list E (value_or st ''trackers/default_list'' (VList []))),
      cs_magnet_max_inflight = clamp (read_int E st ''ui/magnet/max_inflight'' 8) 5 10,
      cs_bottom_status_enabled = read_bool E st ''ui/status/enabled'' True,
      cs_bottom_status_refresh_ms = clamp (read_int E st ''ui/status/refresh_ms'' 1000) 500 5000,
      cs_task_autosave_ms = clamp (read_int E st ''task/autosave_ms'' 5000) 2000 60000,
      cs_restore_start_paused = read_bool E st ''task/restore_start_paused'' True\<rparr>"

definition controller_values :: "controller_settings \<Rightarrow> (string \<times> variant) list" where
  "controller_values c =
     [(''trackers/auto_apply'', VBool (cs_auto_apply_default_trackers c)),
      (''trackers/default_list'', VList (normalizeTrackers (cs_default_trackers c))),
      (''ui/magnet/max_inflight'', VInt (cs_magnet_max_inflight c)),
      (''ui/status/enabled'', VBool (cs_bottom_status_enabled c)),
      (''ui/status/refresh_ms'', VInt (cs_bottom_status_refresh_ms c)),
      (''task/autosave_ms'', VInt (cs_task_autosave_ms c)),
      (''task/restore_start_paused'', VBool (cs_restore_start_paused c))]"

definition saveAppSettings ::
  "settings_env \<Rightarrow> settings_status \<Rightarrow> app_settings \<Rightarrow> store \<Rightarrow> save_result \<times> store" where
  \<comment> \<open>\<open>status\<close> is what \<open>sync\<close> leaves\<close>
  "saveAppSettings E status s st =
     (if status \<noteq> NoError
      then \<lparr>sr_ok = False, sr_message =
             qarg (qs ''save app settings failed status=%1'') (settingsStatusToString status)\<rparr>
      else save_ok,
      save_settings E s st)"

definition saveControllerSettings ::
  "qstring \<Rightarrow> settings_status \<Rightarrow> controller_settings \<Rightarrow> store \<Rightarrow> save_result \<times> store" where
  "saveControllerSettings path status c st =
     (if status \<noteq> NoError
      then \<lparr>sr_ok = False, sr_message =
             qarg2 (qs ''save controller settings failed path=%1 status=%2'') path
               (settingsStatusToString status)\<rparr>
      else save_ok,
      set_values st (controller_values c))"

definition loadCombinedSettings :: "settings_env \<Rightarrow> store \<Rightarrow> combined_settings" where
  "loadCombinedSettings E st =
     \<lparr>cb_app = load_settings E st, cb_controller = loadControllerSettings E st\<rparr>"

definition saveCombinedSettings ::
  "settings_env \<Rightarrow> qstring \<Rightarrow> settings_status \<Rightarrow> settings_status \<Rightarrow> combined_settings \<Rightarrow> store \<Rightarrow>
   save_result \<times> store" where
  "saveCombinedSettings E path st1 st2 c st =
     (case saveAppSettings E st1 (cb_app c) st of
        (app_result, m1) \<Rightarrow>
          (case saveControllerSettings path st2 (cb_controller c) m1 of
             (controller_result, m2) \<Rightarrow>
               (if \<not> sr_ok app_result \<and> \<not> sr_ok controller_result then
                  \<lparr>sr_ok = False, sr_message =
                    qarg2 (qs ''%1; %2'') (sr_message app_result) (sr_message controller_result)\<rparr>
                else if \<not> sr_ok app_result then app_result
                else if \<not> sr_ok controller_result then controller_result
                else save_ok, m2)))"

section \<open>Valid settings\<close>

definition settings_valid :: "app_settings \<Rightarrow> bool" where
  "settings_valid s \<longleftrightarrow>
     1/10 \<le> as_seed_target_ratio s \<and> as_seed_target_ratio s \<le> 100 \<and>
     0 \<le> as_seed_max_minutes s \<and> as_seed_max_minutes s \<le> 10080 \<and>
     1 \<le> as_log_rotate_max_backup_files s \<and> as_log_rotate_max_backup_files s \<le> 50 \<and>
     0 \<le> as_download_rate_limit_kib s \<and> as_download_rate_limit_kib s \<le> 1048576 \<and>
     0 \<le> as_upload_rate_limit_kib s \<and> as_upload_rate_limit_kib s \<le> 1048576 \<and>
     0 \<le> as_connections_limit s \<and> as_connections_limit s \<le> 20000 \<and>
     0 \<le> as_per_torrent_connections_limit s \<and> as_per_torrent_connections_limit s \<le> 20000 \<and>
     0 \<le> as_upload_slots_limit s \<and> as_upload_slots_limit s \<le> 20000 \<and>
     0 \<le> as_per_torrent_upload_slots_limit s \<and> as_per_torrent_upload_slots_limit s \<le> 20000 \<and>
     0 \<le> as_listen_port s \<and> as_listen_port s \<le> 65535 \<and>
     0 \<le> as_active_downloads s \<and> as_active_downloads s \<le> 20000 \<and>
     0 \<le> as_active_seeds s \<and> as_active_seeds s \<le> 20000 \<and>
     0 \<le> as_active_limit s \<and> as_active_limit s \<le> 20000 \<and>
     0 \<le> as_max_active_checking s \<and> as_max_active_checking s \<le> 100 \<and>
     0 \<le> as_slow_torrent_dl_rate_threshold s \<and> as_slow_torrent_dl_rate_threshold s \<le> 10240 \<and>
     0 \<le> as_slow_torrent_ul_rate_threshold s \<and> as_slow_torrent_ul_rate_threshold s \<le> 10240 \<and>
     0 \<le> as_slow_torrent_inactive_timer s \<and> as_slow_torrent_inactive_timer s \<le> 3600 \<and>
     0 \<le> as_monitor_port s \<and> as_monitor_port s \<le> 65535 \<and>
     0 \<le> as_builtin_tracker_port s \<and> as_builtin_tracker_port s \<le> 65535 \<and>
     as_builtin_tracker_bind_mode s \<in> {qs ''lan'', qs ''localhost''} \<and>
     as_encryption_mode s \<in> set (map qs encryption_modes) \<and>
     trimmed (as_ip_filter_path s) = as_ip_filter_path s \<and>
     as_proxy_type s \<in> set (map qs proxy_types) \<and>
     trimmed (as_proxy_host s) = as_proxy_host s \<and>
     1 \<le> as_proxy_port s \<and> as_proxy_port s \<le> 65535 \<and>
     trimmed (as_proxy_username s) = as_proxy_username s \<and>
     as_close_behavior s \<in> set (map qs close_behaviors) \<and>
     as_ui_theme s \<in> set (map qs ui_themes) \<and>
     as_timed_action s \<in> set (map qs timed_actions) \<and>
     0 \<le> as_timed_action_delay_minutes s \<and> as_timed_action_delay_minutes s \<le> 10080 \<and>
     as_download_complete_action s \<in> set (map qs done_actions) \<and>
     trimmed (as_http_user_agent s) = as_http_user_agent s \<and>
     trimmed (as_http_accept_language s) = as_http_accept_language s \<and>
     (as_timed_action s = qs ''none'' \<or> as_timed_action_delay_minutes s \<le> 0 \<or>
      as_download_complete_action s = qs ''none'')"


lemma rclamp_bounds: "lo \<le> hi \<Longrightarrow> lo \<le> rclamp v lo hi \<and> rclamp v lo hi \<le> hi"
  by (auto simp: rclamp_def)

lemma rclamp_id: "lo \<le> v \<Longrightarrow> v \<le> hi \<Longrightarrow> rclamp v lo hi = v"
  by (auto simp: rclamp_def)

lemma one_of_mem: "fallback \<in> set allowed \<Longrightarrow> one_of allowed fallback s \<in> set (map qs allowed)"
  by (auto simp: one_of_def)

lemma one_of_id: "s \<in> set (map qs allowed) \<Longrightarrow> one_of allowed fallback s = s"
  by (simp add: one_of_def)

lemma trimmed_read_trimmed: "trimmed (read_trimmed E st k d) = read_trimmed E st k d"
  by (simp add: read_trimmed_def)

lemma done_action_cases:
  "timed = qs ''none'' \<or> delay \<le> 0 \<or> done_action timed delay act = qs ''none''"
  by (auto simp: done_action_def)

lemma done_action_mem:
  "act \<in> set (map qs done_actions) \<Longrightarrow> done_action timed delay act \<in> set (map qs done_actions)"
  by (auto simp: done_action_def done_actions_def)

lemmas allowed_defs = encryption_modes_def proxy_types_def close_behaviors_def ui_themes_def
  timed_actions_def done_actions_def

lemma loaded_settings_ok: "settings_valid (load_settings E st)"
  unfolding settings_valid_def load_settings_def app_settings.simps
  by (intro conjI clamp_bounds [THEN conjunct1] clamp_bounds [THEN conjunct2]
      rclamp_bounds [THEN conjunct1] rclamp_bounds [THEN conjunct2] one_of_mem done_action_mem
      done_action_cases trimmed_read_trimmed)
    (simp_all add: normalizeBuiltinTrackerBindMode_def allowed_defs)


section \<open>Saving and loading\<close>

definition choice_words :: "string list" where
  "choice_words = encryption_modes @ proxy_types @ close_behaviors @ ui_themes @ timed_actions @ done_actions"

definition plain :: "settings_env \<Rightarrow> qstring \<Rightarrow> bool" where
  "plain E s \<longleftrightarrow> se_lower E (trimmed s) = s"

text \<open>
  What saving and loading relies on: a value that was written reads back as itself in its type (integers
  in the range of \<open>int\<close>), the case mapping is stable on trimmed lower-case text and fixes the words of
  the choices, and the standard directories carry no blanks at their ends.
\<close>

definition settings_env_ok :: "settings_env \<Rightarrow> bool" where
  "settings_env_ok E \<longleftrightarrow>
     (\<forall>b. se_bool E (VBool b) = b) \<and>
     (\<forall>n. - 2147483648 \<le> n \<and> n < 2147483648 \<longrightarrow> se_int E (VInt n) = n) \<and>
     (\<forall>n. se_long E (VInt n) = n) \<and> (\<forall>r. se_real E (VReal r) = r) \<and> (\<forall>s. se_str E (VStr s) = s) \<and>
     (\<forall>l. se_list E (VList l) = l) \<and>
     (\<forall>s. plain E (se_lower E (trimmed s))) \<and> (\<forall>w \<in> set choice_words. plain E (qs w)) \<and>
     se_lower E (qs ''lan'') = qs ''lan'' \<and> se_lower E (qs ''localhost'') = qs ''localhost'' \<and>
     trimmed (se_download_dir E) = se_download_dir E \<and> trimmed (se_log_dir E) = se_log_dir E"

definition settings_canonical :: "settings_env \<Rightarrow> app_settings \<Rightarrow> bool" where
  "settings_canonical E s \<longleftrightarrow>
     trimmed (as_default_download_dir s) = as_default_download_dir s \<and>
     (as_default_download_dir s = [] \<longrightarrow> se_download_dir E = []) \<and>
     trimmed (as_log_dir s) = as_log_dir s \<and> (as_log_dir s = [] \<longrightarrow> se_log_dir E = []) \<and>
     plain E (as_log_level s) \<and> plain E (as_encryption_mode s) \<and> plain E (as_proxy_type s) \<and>
     plain E (as_close_behavior s) \<and> plain E (as_ui_theme s) \<and> plain E (as_timed_action s) \<and>
     plain E (as_download_complete_action s)"

lemma plain_one_of:
  assumes "plain E s" and "plain E (qs fallback)"
  shows "plain E (one_of allowed fallback s)"
  using assms by (simp add: one_of_def)

lemma or_default_simps:
  "trimmed s = s \<Longrightarrow> trimmed d = d \<Longrightarrow> trimmed (or_default s d) = or_default s d"
  by (auto simp: or_default_def split: if_splits)

lemma or_default_empty: "or_default s d = [] \<longleftrightarrow> s = [] \<and> d = []"
  by (simp add: or_default_def)

lemma loaded_settings_canonical:
  assumes "settings_env_ok E"
  shows "settings_canonical E (load_settings E st)"
proof -
  have low: "plain E (read_lower E st k d)" for k d
    using assms by (simp add: settings_env_ok_def read_lower_def read_trimmed_def)
  have "plain E (qs w)" if "w \<in> {''enabled'', ''socks5'', ''minimize'', ''light'', ''none''}" for w
    using assms that by (auto simp: settings_env_ok_def choice_words_def allowed_defs)
  then have words: "plain E (qs ''enabled'')" "plain E (qs ''socks5'')" "plain E (qs ''minimize'')"
    "plain E (qs ''light'')" "plain E (qs ''none'')"
    by simp_all
  have one: "plain E (one_of allowed w (read_lower E st k d))"
    if "plain E (qs w)" for allowed w k d
    using low that by (rule plain_one_of)
  have dirs: "trimmed (se_download_dir E) = se_download_dir E" "trimmed (se_log_dir E) = se_log_dir E"
    using assms by (simp_all add: settings_env_ok_def)
  show ?thesis
    unfolding settings_canonical_def load_settings_def app_settings.simps
  proof (intro conjI impI)
    show "plain E (done_action t d (one_of done_actions ''none'' (read_lower E st k a)))" for t d k a
      by (simp add: done_action_def one words)
  qed (simp_all add: one low words or_default_simps trimmed_read_trimmed dirs or_default_empty)
qed

lemma set_values_distinct:
  assumes "distinct (map fst kvs)"
  shows "list_all (\<lambda>(k, v). set_values st kvs k = Some v) kvs"
proof -
  have other: "k \<notin> fst ` set kvs \<Longrightarrow> set_values m kvs k = m k" for m k kvs
    by (induction kvs arbitrary: m) (auto simp: set_values_def)
  show ?thesis using assms
  proof (induction kvs arbitrary: st)
    case (Cons kv kvs)
    obtain k v where kv: "kv = (k, v)" by (cases kv)
    have "set_values st (kv # kvs) = set_values (st(k \<mapsto> v)) kvs"
      by (simp add: set_values_def kv)
    with Cons.IH [of "st(k \<mapsto> v)"] Cons.prems other [of k kvs "st(k \<mapsto> v)"] kv show ?case
      by (simp del: fun_upd_apply add: fun_upd_same)
  qed simp
qed

definition settings_keys :: "string list" where
  "settings_keys = map fst (saved_values undefined undefined)"

lemma keys_saved: "map fst (saved_values E s) = settings_keys"
  by (simp add: settings_keys_def saved_values_def)

lemma distinct_settings_keys: "distinct settings_keys"
  unfolding settings_keys_def saved_values_def list.map fst_conv by code_simp

lemma saved_lookup: "list_all (\<lambda>(k, v). save_settings E s st k = Some v) (saved_values E s)"
  unfolding save_settings_def
  by (rule set_values_distinct) (simp add: keys_saved distinct_settings_keys)

lemma saved_action_id:
  assumes "settings_valid s" and "settings_canonical E s"
  shows "saved_action E s = as_download_complete_action s"
proof -
  have low: "se_lower E (trimmed (as_timed_action s)) = as_timed_action s"
    "se_lower E (trimmed (as_download_complete_action s)) = as_download_complete_action s"
    using assms(2) unfolding settings_canonical_def plain_def by blast+
  have "as_timed_action s = qs ''none'' \<or> as_timed_action_delay_minutes s \<le> 0 \<or>
      as_download_complete_action s = qs ''none''"
    using assms(1) unfolding settings_valid_def by blast
  then show ?thesis unfolding saved_action_def low by (auto simp: done_action_def)
qed

lemma qs_trimmed_modes:
  "trimmed (qs ''lan'') = qs ''lan''" "trimmed (qs ''localhost'') = qs ''localhost''"
  "qs ''localhost'' \<noteq> qs ''lan''"
  by code_simp+

lemma bind_mode_id:
  assumes "settings_env_ok E" and "m \<in> {qs ''lan'', qs ''localhost''}"
  shows "normalizeBuiltinTrackerBindMode (se_lower E) m = m"
  using assms by (auto simp: normalizeBuiltinTrackerBindMode_def settings_env_ok_def qs_trimmed_modes)

lemma or_default_id: "(s = [] \<longrightarrow> d = []) \<Longrightarrow> or_default s d = s"
  by (simp add: or_default_def)

lemma reads_simps:
  assumes "settings_env_ok E"
  shows "st k = Some (VBool b) \<Longrightarrow> read_bool E st k bd = b"
    and "st k = Some (VInt n) \<Longrightarrow> lo \<le> n \<Longrightarrow> n \<le> hi \<Longrightarrow> - 2147483648 \<le> lo \<Longrightarrow>
      hi \<le> 2147483647 \<Longrightarrow> clamp (read_int E st k nd) lo hi = n"
    and "st k = Some (VInt n) \<Longrightarrow> read_long E st k nd = n"
    and "st k = Some (VReal r) \<Longrightarrow> read_real E st k rd = r"
    and "st k = Some (VStr s) \<Longrightarrow> read_str E st k sd = s"
  using assms
  by (simp_all add: settings_env_ok_def read_bool_def read_int_def read_long_def read_real_def
      read_str_def value_or_def)

lemma load_saved_settings:
  assumes E: "settings_env_ok E" and v: "settings_valid s" and c: "settings_canonical E s"
    and st: "list_all (\<lambda>(k, v). st k = Some v) (saved_values E s)"
  shows "load_settings E st = s"
proof -
  note reads = reads_simps [OF E]
  note canon = c [unfolded settings_canonical_def plain_def]
  note valid = v [unfolded settings_valid_def]
  have ones: "one_of encryption_modes w (as_encryption_mode s) = as_encryption_mode s"
    "one_of proxy_types w (as_proxy_type s) = as_proxy_type s"
    "one_of close_behaviors w (as_close_behavior s) = as_close_behavior s"
    "one_of ui_themes w (as_ui_theme s) = as_ui_theme s"
    "one_of timed_actions w (as_timed_action s) = as_timed_action s"
    "one_of done_actions w (as_download_complete_action s) = as_download_complete_action s" for w
    using valid by (blast intro: one_of_id)+
  have acts: "done_action (as_timed_action s) (as_timed_action_delay_minutes s)
      (as_download_complete_action s) = as_download_complete_action s"
    using valid by (auto simp only: done_action_def split: if_split)
  have ratio: "rclamp (as_seed_target_ratio s) (1/10) 100 = as_seed_target_ratio s"
    using valid by (blast intro: rclamp_id)
  have mode: "normalizeBuiltinTrackerBindMode (se_lower E) (as_builtin_tracker_bind_mode s) =
      as_builtin_tracker_bind_mode s"
    using valid by (blast intro: bind_mode_id [OF E])
  note facts = st [unfolded saved_values_def list.pred_inject prod.case saved_action_id [OF v c] mode]
  show ?thesis
    by (rule app_settings.equality)
      (simp_all (no_asm) add: load_settings_def reads facts valid canon ones acts mode ratio
        or_default_id read_trimmed_def read_lower_def)
qed

lemma set_values_append: "set_values st (xs @ ys) = set_values (set_values st xs) ys"
  by (simp add: set_values_def)

lemma normalize_loop_id:
  assumes "list_all (\<lambda>t. trimmed t = t \<and> t \<noteq> []) ts" and "distinct (out @ ts)"
  shows "normalize_loop ts out = out @ ts"
  using assms by (induction ts arbitrary: out) auto

lemma normalize_loop_normal:
  assumes "list_all (\<lambda>t. trimmed t = t \<and> t \<noteq> []) out" and "distinct out"
  shows "list_all (\<lambda>t. trimmed t = t \<and> t \<noteq> []) (normalize_loop ts out) \<and> distinct (normalize_loop ts out)"
  using assms by (induction ts arbitrary: out) auto

lemma normalizeTrackers_idem: "normalizeTrackers (normalizeTrackers ts) = normalizeTrackers ts"
  using normalize_loop_normal [of "[]" ts] normalize_loop_id [of "normalizeTrackers ts" "[]"]
  by (simp add: normalizeTrackers_def)

lemma load_saved_controller:
  assumes E: "settings_env_ok E" and c: "c = loadControllerSettings E st0"
    and st: "list_all (\<lambda>(k, v). st k = Some v) (controller_values c)"
  shows "loadControllerSettings E st = c"
proof -
  have list: "se_list E (VList l) = l" for l using E by (simp add: settings_env_ok_def)
  have num: "5 \<le> cs_magnet_max_inflight c" "cs_magnet_max_inflight c \<le> 10"
    "500 \<le> cs_bottom_status_refresh_ms c" "cs_bottom_status_refresh_ms c \<le> 5000"
    "2000 \<le> cs_task_autosave_ms c" "cs_task_autosave_ms c \<le> 60000"
    by (simp_all add: c loadControllerSettings_def clamp_bounds)
  have norm: "normalizeTrackers (cs_default_trackers c) = cs_default_trackers c"
    by (simp add: c loadControllerSettings_def normalizeTrackers_idem)
  note facts = st [unfolded controller_values_def list.pred_inject prod.case norm]
  show ?thesis
    by (rule controller_settings.equality)
      (simp_all (no_asm) add: loadControllerSettings_def reads_simps [OF E] facts num norm value_or_def list)
qed

lemma saved_combined:
  "snd (saveCombinedSettings E path s1 s2 c st) =
     set_values st (saved_values E (cb_app c) @ controller_values (cb_controller c))"
  by (simp add: saveCombinedSettings_def saveAppSettings_def saveControllerSettings_def
      save_settings_def set_values_append)

lemma distinct_combined_keys: "distinct (settings_keys @ map fst (controller_values c))"
  unfolding settings_keys_def saved_values_def controller_values_def list.map fst_conv by code_simp

text \<open>
  C40. What the settings dialog was given it can save and get back: the settings loaded from a file
  and saved into any file are the settings that are loaded from there, the application's and the
  controller's, field by field. In particular no two of the 61 fields share a key, loading does not
  change a saved value by clamping or trimming it again, and the word that switches off the action after
  all downloads is not restored.
\<close>

theorem settings_save_load:
  assumes "settings_env_ok E"
  shows "loadCombinedSettings E
           (snd (saveCombinedSettings E path NoError NoError (loadCombinedSettings E st0) st)) =
         loadCombinedSettings E st0"
proof -
  define c where "c = loadCombinedSettings E st0"
  have app: "cb_app c = load_settings E st0" and ctl: "cb_controller c = loadControllerSettings E st0"
    by (simp_all add: c_def loadCombinedSettings_def)
  let ?st = "set_values st (saved_values E (cb_app c) @ controller_values (cb_controller c))"
  have all: "list_all (\<lambda>(k, v). ?st k = Some v) (saved_values E (cb_app c) @ controller_values (cb_controller c))"
    by (rule set_values_distinct) (simp only: map_append keys_saved distinct_combined_keys)
  have 1: "load_settings E ?st = cb_app c"
    using all app loaded_settings_ok [of E st0] loaded_settings_canonical [OF assms]
    by (intro load_saved_settings [OF assms]) (simp_all only: list_all_append)
  have 2: "loadControllerSettings E ?st = cb_controller c"
    using all by (intro load_saved_controller [OF assms ctl]) (simp only: list_all_append)
  show ?thesis
    unfolding c_def [symmetric] saved_combined by (simp add: loadCombinedSettings_def 1 2)
qed

definition sample_env :: settings_env where
  "sample_env =
     \<lparr>se_lower = (\<lambda>s. s), se_bool = (\<lambda>v. case v of VBool b \<Rightarrow> b | _ \<Rightarrow> False),
      se_int = (\<lambda>v. case v of VInt n \<Rightarrow> (if - 2147483648 \<le> n \<and> n < 2147483648 then n else 0) | _ \<Rightarrow> 0),
      se_long = (\<lambda>v. case v of VInt n \<Rightarrow> n | _ \<Rightarrow> 0), se_real = (\<lambda>v. case v of VReal r \<Rightarrow> r | _ \<Rightarrow> 0),
      se_str = (\<lambda>v. case v of VStr s \<Rightarrow> s | _ \<Rightarrow> []), se_list = (\<lambda>v. case v of VList l \<Rightarrow> l | _ \<Rightarrow> []),
      se_download_dir = qs ''/dl'', se_log_dir = qs ''/logs''\<rparr>"

lemma sample_words: "trimmed (qs ''/dl'') = qs ''/dl''" "trimmed (qs ''/logs'') = qs ''/logs''"
  "list_all (\<lambda>w. trimmed (qs w) = qs w) choice_words"
  by code_simp+

lemma sample_env_ok: "settings_env_ok sample_env"
  using sample_words by (simp add: settings_env_ok_def sample_env_def plain_def list_all_iff)

definition sample_store :: store where
  "sample_store = [''network/listen_port'' \<mapsto> VInt 70000, ''ui/theme'' \<mapsto> VStr (qs ''pink''),
     ''ui/magnet/max_inflight'' \<mapsto> VInt 1]"

theorem settings_save_load_witness:
  "loadCombinedSettings sample_env
     (snd (saveCombinedSettings sample_env [] NoError NoError
        (loadCombinedSettings sample_env sample_store) Map.empty)) =
   loadCombinedSettings sample_env sample_store \<and>
   as_listen_port (cb_app (loadCombinedSettings sample_env sample_store)) = 65535 \<and>
   as_ui_theme (cb_app (loadCombinedSettings sample_env sample_store)) = qs ''light'' \<and>
   cs_magnet_max_inflight (cb_controller (loadCombinedSettings sample_env sample_store)) = 5"
proof (intro conjI)
  show "loadCombinedSettings sample_env
     (snd (saveCombinedSettings sample_env [] NoError NoError
        (loadCombinedSettings sample_env sample_store) Map.empty)) =
   loadCombinedSettings sample_env sample_store"
    by (rule settings_save_load [OF sample_env_ok])
qed code_simp+

end
