(* ===== verification/RssParser.thy ===== *)
theory RssParser
  imports RssService
begin

text \<open>
  The feed parser, \<open>core/rss/rss_parser.cc\<close>. \<open>QXmlStreamReader\<close> is an argument: a record of the
  operations the parser uses on a reader state of any type; a call that moves the reader returns the
  new state. \<open>reader_ok\<close> is what its documentation promises. Regular expressions, date formats, URL
  parsing and SHA-256 are arguments too. The loops of the parser have no bound of their own, so they are
  partial functions into \<open>option\<close>, and \<open>None\<close> is a loop that is never left.
\<close>

section \<open>The reader and the environment\<close>

record 'x xml_reader =
  x_at_end :: "'x \<Rightarrow> bool"
  x_next :: "'x \<Rightarrow> 'x"                       \<comment> \<open>\<open>readNext\<close>\<close>
  x_start :: "'x \<Rightarrow> bool"                    \<comment> \<open>\<open>isStartElement\<close>\<close>
  x_end :: "'x \<Rightarrow> bool"                      \<comment> \<open>\<open>isEndElement\<close>\<close>
  x_name :: "'x \<Rightarrow> qstring"
  x_attr :: "'x \<Rightarrow> qstring \<Rightarrow> qstring"       \<comment> \<open>\<open>attributes().value(..)\<close>\<close>
  x_text :: "'x \<Rightarrow> qstring \<times> 'x"             \<comment> \<open>\<open>readElementText\<close>\<close>
  x_skip :: "'x \<Rightarrow> 'x"                       \<comment> \<open>\<open>skipCurrentElement\<close>\<close>
  x_error :: "'x \<Rightarrow> qstring option"          \<comment> \<open>\<open>hasError\<close>, \<open>errorString\<close>\<close>

text \<open>
  At the end of the document, or after an error, the reader is and stays at the end and shows no element;
  otherwise \<open>readNext\<close> consumes input, and reading or skipping an element never gives input back.
\<close>

definition reader_ok :: "'x xml_reader \<Rightarrow> ('x \<Rightarrow> nat) \<Rightarrow> bool" where
  "reader_ok R m \<longleftrightarrow>
     (\<forall>x. x_at_end R x \<longrightarrow> x_at_end R (x_next R x) \<and> \<not> x_start R x \<and> \<not> x_end R x) \<and>
     (\<forall>x. \<not> x_at_end R x \<longrightarrow> m (x_next R x) < m x) \<and>
     (\<forall>x. m (snd (x_text R x)) \<le> m x) \<and> (\<forall>x. m (x_skip R x) \<le> m x)"

record parser_env =
  px_text :: qt_text
  px_sha256_hex :: "bytes \<Rightarrow> qstring"
  px_date_rfc2822 :: "qstring \<Rightarrow> qdatetime"
  px_date_iso :: "qstring \<Rightarrow> qdatetime"
  px_date_plain :: "qstring \<Rightarrow> qdatetime"               \<comment> \<open>the explicit format\<close>
  px_url :: "qstring \<Rightarrow> (qstring \<times> qstring) option"     \<comment> \<open>scheme and path of a valid URL\<close>
  px_magnet_re :: "qstring \<Rightarrow> qstring option"           \<comment> \<open>the first capture of the expression\<close>
  px_torrent_re :: "qstring \<Rightarrow> qstring option"

section \<open>Links and identifiers\<close>

definition stableItemId :: "parser_env \<Rightarrow> qstring \<Rightarrow> qstring \<Rightarrow> qstring \<Rightarrow> qstring \<Rightarrow> qstring" where
  "stableItemId E feed_id guid link title =
     take 32 (px_sha256_hex E (to_utf8
       (if guid \<noteq> [] then feed_id @ qs ''|'' @ guid
        else feed_id @ qs ''|'' @ link @ qs ''|'' @ title)))"

definition extractMagnetFromText :: "parser_env \<Rightarrow> qstring \<Rightarrow> qstring" where
  "extractMagnetFromText E text = (case px_magnet_re E text of Some s \<Rightarrow> s | None \<Rightarrow> [])"

definition parseDateTime :: "parser_env \<Rightarrow> qstring \<Rightarrow> qdatetime" where
  "parseDateTime E text =
     (case px_date_rfc2822 E text of Some d \<Rightarrow> Some d
      | None \<Rightarrow> (case px_date_iso E text of Some d \<Rightarrow> Some d | None \<Rightarrow> px_date_plain E text))"

definition isHttpOrHttpsScheme :: "parser_env \<Rightarrow> qstring \<Rightarrow> bool" where
  "isHttpOrHttpsScheme E scheme =
     (let s = qt_lower (px_text E) scheme in s = qs ''http'' \<or> s = qs ''https'')"

definition starts_ci :: "parser_env \<Rightarrow> string \<Rightarrow> qstring \<Rightarrow> bool" where
  "starts_ci E p s = starts_with (qt_fold (px_text E) s) (qt_fold (px_text E) (qs p))"

definition ends_ci :: "parser_env \<Rightarrow> string \<Rightarrow> qstring \<Rightarrow> bool" where
  "ends_ci E p s = ends_with (qt_fold (px_text E) s) (qt_fold (px_text E) (qs p))"

definition looksLikeTorrentHttpUrl :: "parser_env \<Rightarrow> qstring \<Rightarrow> bool" where
  "looksLikeTorrentHttpUrl E url =
     (url \<noteq> [] \<and>
      (case px_url E url of None \<Rightarrow> False
       | Some (scheme, path) \<Rightarrow> isHttpOrHttpsScheme E scheme \<and> ends_ci E ''.torrent'' path))"

definition mimeTypeLooksLikeTorrent :: "parser_env \<Rightarrow> qstring \<Rightarrow> bool" where
  "mimeTypeLooksLikeTorrent E mime =
     (let m = qt_lower (px_text E) mime in
      contains m (qs ''bittorrent'') \<or> contains m (qs ''x-bittorrent''))"

definition extractFirstTorrentHttpUrlFromText :: "parser_env \<Rightarrow> qstring \<Rightarrow> qstring" where
  "extractFirstTorrentHttpUrlFromText E text =
     (if text = [] then []
      else case px_torrent_re E text of None \<Rightarrow> []
           | Some u \<Rightarrow> (if looksLikeTorrentHttpUrl E u then u else []))"

definition fillTorrentUrlFromBodyIfNeeded :: "parser_env \<Rightarrow> rss_item \<Rightarrow> rss_item" where
  "fillTorrentUrlFromBodyIfNeeded E it =
     (if i_torrent_url it \<noteq> [] then it
      else let t1 = extractFirstTorrentHttpUrlFromText E (i_summary it);
               t = (if t1 = [] then extractFirstTorrentHttpUrlFromText E (i_link it) else t1) in
        if t \<noteq> [] then it\<lparr>i_torrent_url := t\<rparr> else it)"

section \<open>Elements of an item\<close>

definition rss2_element ::
  "parser_env \<Rightarrow> 'x xml_reader \<Rightarrow> 'x \<Rightarrow> rss_item \<Rightarrow> rss_item \<times> 'x" where
  "rss2_element E R x it =
     (let tag = x_name R x; text = trimmed (fst (x_text R x)); y = snd (x_text R x) in
      if tag = qs ''title'' then (it\<lparr>i_title := text\<rparr>, y)
      else if tag = qs ''link'' then
        (if starts_ci E ''magnet:'' text then it\<lparr>i_magnet := text\<rparr>
         else if looksLikeTorrentHttpUrl E text then it\<lparr>i_torrent_url := text, i_link := text\<rparr>
         else it\<lparr>i_link := text\<rparr>, y)
      else if tag = qs ''guid'' then (it\<lparr>i_guid := text\<rparr>, y)
      else if tag = qs ''description'' then (it\<lparr>i_summary := text\<rparr>, y)
      else if tag = qs ''pubDate'' then (it\<lparr>i_published_at := parseDateTime E text\<rparr>, y)
      else if tag = qs ''enclosure'' then
        (let url = trimmed (x_attr R x (qs ''url''));
             encType = trimmed (x_attr R x (qs ''type'')) in
         (if starts_ci E ''magnet:'' url then it\<lparr>i_magnet := url\<rparr>
          else if ends_ci E ''.torrent'' url \<or> mimeTypeLooksLikeTorrent E encType \<or>
                  looksLikeTorrentHttpUrl E url then
            (if i_torrent_url it = [] then it\<lparr>i_torrent_url := url\<rparr> else it)
          else it, x_skip R x))
      else (it, x_skip R x))"

definition atom_element ::
  "parser_env \<Rightarrow> 'x xml_reader \<Rightarrow> 'x \<Rightarrow> rss_item \<Rightarrow> rss_item \<times> 'x" where
  "atom_element E R x it =
     (let tag = x_name R x; text = trimmed (fst (x_text R x)); y = snd (x_text R x) in
      if tag = qs ''title'' then (it\<lparr>i_title := text\<rparr>, y)
      else if tag = qs ''link'' then
        (let href = trimmed (x_attr R x (qs ''href''));
             linkType = trimmed (x_attr R x (qs ''type'')) in
         (if starts_ci E ''magnet:'' href then it\<lparr>i_magnet := href\<rparr>
          else if ends_ci E ''.torrent'' href \<or> mimeTypeLooksLikeTorrent E linkType \<or>
                  looksLikeTorrentHttpUrl E href then
            it\<lparr>i_torrent_url := (if i_torrent_url it = [] then href else i_torrent_url it),
               i_link := (if i_link it = [] then href else i_link it)\<rparr>
          else if i_link it = [] then it\<lparr>i_link := href\<rparr>
          else it, if x_end R x then x else x_skip R x))
      else if tag = qs ''id'' then (it\<lparr>i_guid := text\<rparr>, y)
      else if tag = qs ''summary'' \<or> tag = qs ''content'' then (it\<lparr>i_summary := text\<rparr>, y)
      else if tag = qs ''published'' \<or> tag = qs ''updated'' then
        (if i_published_at it = None then (it\<lparr>i_published_at := parseDateTime E text\<rparr>, y)
         else (it, x_skip R x))
      else (it, x_skip R x))"

datatype feed_kind = Rss2 | Atom

fun entry_tag :: "feed_kind \<Rightarrow> qstring" where
  "entry_tag Rss2 = qs ''item''"
| "entry_tag Atom = qs ''entry''"

fun read_element :: "parser_env \<Rightarrow> 'x xml_reader \<Rightarrow> feed_kind \<Rightarrow> 'x \<Rightarrow> rss_item \<Rightarrow> rss_item \<times> 'x" where
  "read_element E R Rss2 = rss2_element E R"
| "read_element E R Atom = atom_element E R"

definition finish_item :: "parser_env \<Rightarrow> qstring \<Rightarrow> rss_item \<Rightarrow> rss_item" where
  "finish_item E feed_id it =
     (let c1 = extractMagnetFromText E (i_link it);
          candidate = (if c1 = [] then extractMagnetFromText E (i_summary it) else c1);
          it1 = (if i_magnet it = [] \<and> candidate \<noteq> [] then it\<lparr>i_magnet := candidate\<rparr> else it);
          it2 = fillTorrentUrlFromBodyIfNeeded E it1 in
      it2\<lparr>i_id := stableItemId E feed_id (i_guid it2) (i_link it2) (i_title it2)\<rparr>)"

section \<open>The loops\<close>

partial_function (option) item_loop ::
  "parser_env \<Rightarrow> 'x xml_reader \<Rightarrow> feed_kind \<Rightarrow> 'x \<Rightarrow> rss_item \<Rightarrow> (rss_item \<times> 'x) option" where
  "item_loop E R k x it =
     (if x_end R x \<and> x_name R x = entry_tag k then Some (it, x)
      else if \<not> x_start R (x_next R x) then item_loop E R k (x_next R x) it
      else item_loop E R k (snd (read_element E R k (x_next R x) it))
             (fst (read_element E R k (x_next R x) it)))"

partial_function (option) feed_loop ::
  "parser_env \<Rightarrow> 'x xml_reader \<Rightarrow> feed_kind \<Rightarrow> qstring \<Rightarrow> 'x \<Rightarrow> rss_item list \<Rightarrow>
   (rss_item list \<times> 'x) option" where
  "feed_loop E R k feed_id x items =
     (if x_at_end R x then Some (items, x)
      else if x_start R (x_next R x) \<and> x_name R (x_next R x) = entry_tag k then
        Option.bind (item_loop E R k (x_next R x) (default_item\<lparr>i_feed_id := feed_id\<rparr>))
          (\<lambda>(it, y). feed_loop E R k feed_id y (items @ [finish_item E feed_id it]))
      else feed_loop E R k feed_id (x_next R x) items)"

definition feed_result :: "'x xml_reader \<Rightarrow> rss_item list \<Rightarrow> 'x \<Rightarrow> parse_result" where
  "feed_result R items x =
     (case x_error R x of None \<Rightarrow> \<lparr>pr_ok = True, pr_items = items, pr_error = []\<rparr>
      | Some e \<Rightarrow> \<lparr>pr_ok = (items \<noteq> []), pr_items = items, pr_error = e\<rparr>)"

definition parse_feed ::
  "parser_env \<Rightarrow> 'x xml_reader \<Rightarrow> feed_kind \<Rightarrow> qstring \<Rightarrow> 'x \<Rightarrow> parse_result option" where
  "parse_feed E R k feed_id x =
     map_option (\<lambda>(items, y). feed_result R items y) (feed_loop E R k feed_id x [])"

definition parse_failed :: "string \<Rightarrow> parse_result" where
  "parse_failed msg = \<lparr>pr_ok = False, pr_items = [], pr_error = qs msg\<rparr>"

definition root_kind :: "qstring \<Rightarrow> feed_kind option" where
  "root_kind name =
     (if name = qs ''rss'' \<or> name = qs ''channel'' then Some Rss2
      else if name = qs ''feed'' then Some Atom else None)"

partial_function (option) root_loop ::
  "parser_env \<Rightarrow> 'x xml_reader \<Rightarrow> qstring \<Rightarrow> 'x \<Rightarrow> parse_result option" where
  "root_loop E R feed_id x =
     (if x_at_end R x then Some (parse_failed ''Unrecognized feed format (not RSS 2.0 or Atom)'')
      else if \<not> x_start R (x_next R x) then root_loop E R feed_id (x_next R x)
      else case root_kind (x_name R (x_next R x)) of
             Some k \<Rightarrow> parse_feed E R k feed_id (x_next R x)
           | None \<Rightarrow> root_loop E R feed_id (x_next R x))"

definition parse ::
  "parser_env \<Rightarrow> 'x xml_reader \<Rightarrow> (bytes \<Rightarrow> 'x) \<Rightarrow> qstring \<Rightarrow> bytes \<Rightarrow> parse_result option" where
  "parse E R open_reader feed_id xml_data =
     (if xml_data = [] then Some (parse_failed ''Empty XML data'')
      else root_loop E R feed_id (open_reader xml_data))"

section \<open>The parser as a state machine\<close>

datatype 'x pmode =
    AtRoot 'x
  | InFeed feed_kind 'x "rss_item list"
  | InItem feed_kind 'x rss_item "rss_item list"
  | Done parse_result

fun pstep :: "parser_env \<Rightarrow> 'x xml_reader \<Rightarrow> qstring \<Rightarrow> 'x pmode \<Rightarrow> 'x pmode" where
  "pstep E R fid (AtRoot x) =
     (if x_at_end R x then Done (parse_failed ''Unrecognized feed format (not RSS 2.0 or Atom)'')
      else if \<not> x_start R (x_next R x) then AtRoot (x_next R x)
      else case root_kind (x_name R (x_next R x)) of
             Some k \<Rightarrow> InFeed k (x_next R x) []
           | None \<Rightarrow> AtRoot (x_next R x))"
| "pstep E R fid (InFeed k x items) =
     (if x_at_end R x then Done (feed_result R items x)
      else if x_start R (x_next R x) \<and> x_name R (x_next R x) = entry_tag k
      then InItem k (x_next R x) (default_item\<lparr>i_feed_id := fid\<rparr>) items
      else InFeed k (x_next R x) items)"
| "pstep E R fid (InItem k x it items) =
     (if x_end R x \<and> x_name R x = entry_tag k then InFeed k x (items @ [finish_item E fid it])
      else if \<not> x_start R (x_next R x) then InItem k (x_next R x) it items
      else InItem k (snd (read_element E R k (x_next R x) it))
             (fst (read_element E R k (x_next R x) it)) items)"
| "pstep E R fid (Done r) = Done r"

fun stuck :: "'x xml_reader \<Rightarrow> 'x pmode \<Rightarrow> bool" where
  \<comment> \<open>the document is over, but the item is not\<close>
  "stuck R (InItem k x it items) = x_at_end R x"
| "stuck R _ = False"

definition runs :: "parser_env \<Rightarrow> 'x xml_reader \<Rightarrow> qstring \<Rightarrow> 'x pmode \<Rightarrow> 'x pmode \<Rightarrow> bool" where
  "runs E R fid a b \<longleftrightarrow> (\<exists>n. (pstep E R fid ^^ n) a = b)"

lemma runs_refl [intro]: "runs E R fid a a"
  unfolding runs_def by (rule exI [of _ 0]) simp

lemma runs_step: "runs E R fid (pstep E R fid a) b \<Longrightarrow> runs E R fid a b"
  unfolding runs_def by (metis funpow_Suc_right comp_apply)

lemma runs_step_to: "pstep E R fid a = b \<Longrightarrow> runs E R fid a b"
  by (rule runs_step) auto

lemma runs_trans: "runs E R fid a b \<Longrightarrow> runs E R fid b c \<Longrightarrow> runs E R fid a c"
  unfolding runs_def by (metis funpow_add comp_apply)

lemma runs_linear:
  assumes "runs E R fid a b" and "runs E R fid a c"
  shows "runs E R fid b c \<or> runs E R fid c b"
proof -
  obtain n k where n: "(pstep E R fid ^^ n) a = b" and k: "(pstep E R fid ^^ k) a = c"
    using assms by (auto simp: runs_def)
  have "(pstep E R fid ^^ (k - n)) b = c" if "n \<le> k"
    using that n k by (metis funpow_add comp_apply le_add_diff_inverse2)
  moreover have "(pstep E R fid ^^ (n - k)) c = b" if "k \<le> n"
    using that n k by (metis funpow_add comp_apply le_add_diff_inverse2)
  ultimately show ?thesis unfolding runs_def by (meson nat_le_linear)
qed

lemma runs_invariant:
  assumes "runs E R fid a b" and "P a" and step: "\<And>x. P x \<Longrightarrow> P (pstep E R fid x)"
  shows "P b"
proof -
  have "P ((pstep E R fid ^^ n) a)" for n
    using assms(2) by (induction n) (auto intro: step)
  then show ?thesis using assms(1) by (auto simp: runs_def)
qed

lemma done_stays: "runs E R fid (Done r) b \<Longrightarrow> b = Done r"
  by (erule runs_invariant [where P = "\<lambda>b. b = Done r"]) simp_all

lemma reader_end:
  assumes "reader_ok R m" and "x_at_end R x"
  shows "x_at_end R (x_next R x)" "\<not> x_start R x" "\<not> x_end R x" "\<not> x_start R (x_next R x)"
  using assms unfolding reader_ok_def by blast+

lemma reader_less: "reader_ok R m \<Longrightarrow> \<not> x_at_end R x \<Longrightarrow> m (x_next R x) < m x"
  by (simp add: reader_ok_def)

lemma read_element_le:
  assumes "reader_ok R m"
  shows "m (snd (read_element E R k x it)) \<le> m x"
proof -
  have le: "m (snd (x_text R x)) \<le> m x" "m (x_skip R x) \<le> m x"
    using assms by (simp_all add: reader_ok_def)
  show ?thesis
    by (cases k) (simp_all add: rss2_element_def atom_element_def Let_def le)
qed

lemma stuck_stays:
  assumes R: "reader_ok R m" and "runs E R fid a b" and "stuck R a"
  shows "stuck R b"
proof (rule runs_invariant [OF assms(2)])
  fix y :: "'a pmode" assume "stuck R y"
  then obtain k x it items where "y = InItem k x it items" "x_at_end R x" by (cases y) auto
  then show "stuck R (pstep E R fid y)" using reader_end [OF R] by simp
qed (rule assms(3))

lemma stuck_item_diverges:
  assumes R: "reader_ok R m" and x: "x_at_end R x"
  shows "item_loop E R k x it = None"
proof (rule ccontr)
  assume "item_loop E R k x it \<noteq> None"
  then obtain r where ret: "item_loop E R k x it = Some r" by auto
  have "R = R \<longrightarrow> \<not> x_at_end R x"
  proof (rule item_loop.raw_induct [where xa = "((((E, R), k), x), it)"
        and P = "\<lambda>E S k x it r. S = R \<longrightarrow> \<not> x_at_end R x", unfolded prod.case, OF _ ret])
    fix f E S k x it r
    assume IH: "\<And>E S k x it r. f E S k x it = Some r \<Longrightarrow> S = R \<longrightarrow> \<not> x_at_end R x"
      and eq: "(if x_end S x \<and> x_name S x = entry_tag k then Some (it, x)
         else if \<not> x_start S (x_next S x) then f E S k (x_next S x) it
         else f E S k (snd (read_element E S k (x_next S x) it))
                (fst (read_element E S k (x_next S x) it))) = Some r"
    show "S = R \<longrightarrow> \<not> x_at_end R x"
    proof (intro impI notI)
      assume S: "S = R" and e: "x_at_end R x"
      from eq S have "f E R k (x_next R x) it = Some r" by (simp add: reader_end [OF R e])
      with IH reader_end(1) [OF R e] show False by blast
    qed
  qed
  with x show False by simp
qed

lemma item_loop_runs:
  assumes R: "reader_ok R m"
  shows "case item_loop E R k x it of
     Some (it', z) \<Rightarrow> m z \<le> m x \<and>
       runs E R fid (InItem k x it items) (InFeed k z (items @ [finish_item E fid it']))
   | None \<Rightarrow> (\<exists>b. stuck R b \<and> runs E R fid (InItem k x it items) b)"
    (is "?P x it")
proof (induction "m x" arbitrary: x it rule: less_induct)
  case less
  consider "x_end R x \<and> x_name R x = entry_tag k" | "\<not> (x_end R x \<and> x_name R x = entry_tag k)" "x_at_end R x"
    | "\<not> (x_end R x \<and> x_name R x = entry_tag k)" "\<not> x_at_end R x" by blast
  then show ?case
  proof cases
    case 1
    then have "runs E R fid (InItem k x it items) (InFeed k x (items @ [finish_item E fid it]))"
      by (intro runs_step_to) auto
    with 1 show ?thesis by (simp add: item_loop.simps)
  next
    case 2
    then show ?thesis by (auto simp: stuck_item_diverges [OF R] intro!: exI [of _ "InItem k x it items"])
  next
    case 3
    obtain it' z where z: "(if x_start R (x_next R x)
        then (read_element E R k (x_next R x) it) else (it, x_next R x)) = (it', z)" by fastforce
    have less: "m z < m x"
      using z reader_less [OF R 3(2)] read_element_le [OF R, of E k "x_next R x" it]
      by (auto split: if_splits)
    have eq: "item_loop E R k x it = item_loop E R k z it'"
      and step: "pstep E R fid (InItem k x it items) = InItem k z it' items"
      using 3(1) z by (auto simp: item_loop.simps [of E R k x] split: if_splits)
    have lift: "runs E R fid (InItem k z it' items) b \<Longrightarrow> runs E R fid (InItem k x it items) b" for b
      by (rule runs_step) (simp only: step)
    show ?thesis
      using less.hyps [OF less, of it'] less
      by (cases "item_loop E R k z it'") (auto simp only: eq option.case prod.case dest: lift)
  qed
qed

lemma feed_loop_runs:
  assumes R: "reader_ok R m"
  shows "case feed_loop E R k fid x items of
     Some (items', z) \<Rightarrow> runs E R fid (InFeed k x items) (Done (feed_result R items' z))
   | None \<Rightarrow> (\<exists>b. stuck R b \<and> runs E R fid (InFeed k x items) b)"
proof (induction "m x" arbitrary: x items rule: less_induct)
  case less
  let ?it = "default_item\<lparr>i_feed_id := fid\<rparr>"
  consider "x_at_end R x" | "\<not> x_at_end R x" "x_start R (x_next R x) \<and> x_name R (x_next R x) = entry_tag k"
    | "\<not> x_at_end R x" "\<not> (x_start R (x_next R x) \<and> x_name R (x_next R x) = entry_tag k)" by blast
  then show ?case
  proof cases
    case 1
    then have "runs E R fid (InFeed k x items) (Done (feed_result R items x))"
      by (intro runs_step_to) auto
    with 1 show ?thesis by (simp add: feed_loop.simps)
  next
    case 2
    have step: "runs E R fid (InFeed k x items) b" if "runs E R fid (InItem k (x_next R x) ?it items) b" for b
      by (rule runs_step) (use that 2 in simp)
    note item = item_loop_runs [OF R, of E fid k "x_next R x" ?it items]
    show ?thesis
    proof (cases "item_loop E R k (x_next R x) ?it")
      case None
      with item 2 step show ?thesis by (auto simp: feed_loop.simps)
    next
      case (Some p)
      obtain it' z where p: "p = (it', z)" by fastforce
      let ?items = "items @ [finish_item E fid it']"
      have "m z < m x" using item Some p reader_less [OF R 2(1)] by simp
      note IH = less.hyps [OF this, of ?items]
      have eq: "feed_loop E R k fid x items = feed_loop E R k fid z ?items"
        using 2 Some p by (simp add: feed_loop.simps [of E R k fid x])
      have "runs E R fid (InFeed k x items) (InFeed k z ?items)"
        using item Some p by (intro step) simp
      then have lift: "runs E R fid (InFeed k z ?items) b \<Longrightarrow> runs E R fid (InFeed k x items) b" for b
        by (rule runs_trans)
      show ?thesis
        using IH by (cases "feed_loop E R k fid z ?items") (auto simp only: eq option.case prod.case dest: lift)
    qed
  next
    case 3
    then have eq: "feed_loop E R k fid x items = feed_loop E R k fid (x_next R x) items"
      and step: "pstep E R fid (InFeed k x items) = InFeed k (x_next R x) items"
      by (auto simp: feed_loop.simps [of E R k fid x])
    have lift: "runs E R fid (InFeed k (x_next R x) items) b \<Longrightarrow> runs E R fid (InFeed k x items) b" for b
      by (rule runs_step) (simp only: step)
    show ?thesis
      using less.hyps [OF reader_less [OF R 3(1)], of items]
      by (cases "feed_loop E R k fid (x_next R x) items") (auto simp only: eq option.case prod.case dest: lift)
  qed
qed

lemma root_loop_runs:
  assumes R: "reader_ok R m"
  shows "case root_loop E R fid x of
     Some r \<Rightarrow> runs E R fid (AtRoot x) (Done r)
   | None \<Rightarrow> (\<exists>b. stuck R b \<and> runs E R fid (AtRoot x) b)"
proof (induction "m x" arbitrary: x rule: less_induct)
  case less
  consider "x_at_end R x" | k where "\<not> x_at_end R x" "x_start R (x_next R x)" "root_kind (x_name R (x_next R x)) = Some k"
    | "\<not> x_at_end R x" "x_start R (x_next R x) \<longrightarrow> root_kind (x_name R (x_next R x)) = None" by fastforce
  then show ?case
  proof cases
    case 1
    then have "runs E R fid (AtRoot x) (Done (parse_failed ''Unrecognized feed format (not RSS 2.0 or Atom)''))"
      by (intro runs_step_to) auto
    with 1 show ?thesis by (simp add: root_loop.simps)
  next
    case 2
    have "runs E R fid (AtRoot x) b" if "runs E R fid (InFeed k (x_next R x) []) b" for b
      by (rule runs_step) (use that 2 in simp)
    with 2 feed_loop_runs [OF R, of E fid k "x_next R x" "[]"] show ?thesis
      by (fastforce simp: root_loop.simps parse_feed_def split: option.splits)
  next
    case 3
    then have eq: "root_loop E R fid x = root_loop E R fid (x_next R x)"
      and step: "pstep E R fid (AtRoot x) = AtRoot (x_next R x)"
      by (auto simp: root_loop.simps [of E R fid x])
    have lift: "runs E R fid (AtRoot (x_next R x)) b \<Longrightarrow> runs E R fid (AtRoot x) b" for b
      by (rule runs_step) (simp only: step)
    show ?thesis
      using less.hyps [OF reader_less [OF R 3(1)]]
      by (cases "root_loop E R fid (x_next R x)") (auto simp only: eq option.case dest: lift)
  qed
qed

text \<open>
  C17. Termination of the feed parser, with any reader that behaves as documented: it returns a result
  exactly when the state machine of its three nested loops comes to an end with that result, and the only
  way not to return is that the reader reaches the end of the document, or an error, inside an item.
  Then the inner loop never ends, since its only exit is the end tag of the item: a feed that is cut off
  in an item, or has an element where text is expected, hangs the parser.
\<close>

theorem feed_parser_returns_iff:
  assumes "reader_ok R m"
  shows "(parse E R open_reader fid data = Some r) =
           (if data = [] then r = parse_failed ''Empty XML data''
            else runs E R fid (AtRoot (open_reader data)) (Done r)) \<and>
         (parse E R open_reader fid data = None) =
           (data \<noteq> [] \<and> (\<exists>b. stuck R b \<and> runs E R fid (AtRoot (open_reader data)) b))"
proof (cases "data = []")
  case False
  let ?runs = "runs E R fid (AtRoot (open_reader data))"
  note loop = root_loop_runs [OF assms, of E fid "open_reader data"]
  have excl: False if "stuck R b" "?runs b" "?runs (Done q)" for b q
    using runs_linear [OF that(2,3)] done_stays [of E R fid q b] stuck_stays [OF assms _ that(1)] that(1)
    by fastforce
  have uniq: "q = q'" if "?runs (Done q)" "?runs (Done q')" for q q'
    using runs_linear [OF that] done_stays by blast
  show ?thesis
  proof (cases "root_loop E R fid (open_reader data)")
    case None
    with False loop excl show ?thesis by (auto simp: parse_def)
  next
    case (Some q)
    with loop have q: "?runs (Done q)" by simp
    with False Some excl uniq show ?thesis by (auto simp: parse_def)
  qed
qed (auto simp: parse_def)

section \<open>A reader over a list of tokens\<close>

text \<open>
  An instance of the reader: the document is a list of tokens, the first one the current token. Reading
  the text of an element fails at a child element, as the default of \<open>readElementText\<close> does.
\<close>

datatype xml_token = TStart qstring "(qstring \<times> qstring) list" | TEnd qstring | TText qstring | TOther

fun token_text :: "xml_token list \<Rightarrow> qstring \<times> xml_token list" where
  "token_text [] = ([], [])"
| "token_text (TText t # ts) = (case token_text ts of (s, rest) \<Rightarrow> (t @ s, rest))"
| "token_text (TEnd n # ts) = ([], TEnd n # ts)"
| "token_text (TStart n as # ts) = ([], [])"
| "token_text (TOther # ts) = token_text ts"

fun token_skip :: "nat \<Rightarrow> xml_token list \<Rightarrow> xml_token list" where
  "token_skip d [] = []"
| "token_skip d (TEnd n # ts) = (if d = 0 then TEnd n # ts else token_skip (d - 1) ts)"
| "token_skip d (TStart n as # ts) = token_skip (d + 1) ts"
| "token_skip d (t # ts) = token_skip d ts"

definition token_reader :: "xml_token list xml_reader" where
  "token_reader =
     \<lparr>x_at_end = (\<lambda>ts. ts = []), x_next = tl,
      x_start = (\<lambda>ts. case ts of TStart _ _ # _ \<Rightarrow> True | _ \<Rightarrow> False),
      x_end = (\<lambda>ts. case ts of TEnd _ # _ \<Rightarrow> True | _ \<Rightarrow> False),
      x_name = (\<lambda>ts. case ts of TStart n _ # _ \<Rightarrow> n | TEnd n # _ \<Rightarrow> n | _ \<Rightarrow> []),
      x_attr = (\<lambda>ts a. case ts of TStart _ as # _ \<Rightarrow> (case map_of as a of Some v \<Rightarrow> v | None \<Rightarrow> []) | _ \<Rightarrow> []),
      x_text = (\<lambda>ts. token_text (tl ts)), x_skip = (\<lambda>ts. token_skip 0 (tl ts)),
      x_error = (\<lambda>_. None)\<rparr>"

lemma token_text_le: "length (snd (token_text ts)) \<le> length ts"
  by (induction ts rule: token_text.induct) (auto split: prod.splits)

lemma token_skip_le: "length (token_skip d ts) \<le> length ts"
  by (induction d ts rule: token_skip.induct) auto

lemma token_reader_ok: "reader_ok token_reader length"
proof -
  have "length (snd (token_text (tl ts))) \<le> length ts" "length (token_skip 0 (tl ts)) \<le> length ts" for ts
    using token_text_le [of "tl ts"] token_skip_le [of 0 "tl ts"] by simp_all
  then show ?thesis by (simp add: reader_ok_def token_reader_def)
qed

definition sample_parser :: parser_env where
  "sample_parser =
     \<lparr>px_text = ascii_text, px_sha256_hex = (\<lambda>_. qs ''00''), px_date_rfc2822 = (\<lambda>_. None),
      px_date_iso = (\<lambda>_. None), px_date_plain = (\<lambda>_. None), px_url = (\<lambda>_. None),
      px_magnet_re = (\<lambda>_. None), px_torrent_re = (\<lambda>_. None)\<rparr>"

definition cut_feed :: "xml_token list" where
  "cut_feed = [TOther, TStart (qs ''rss'') [], TStart (qs ''item'') [], TStart (qs ''title'') [], TText (qs ''x'')]"

definition whole_feed :: "xml_token list" where
  "whole_feed = cut_feed @ [TEnd (qs ''title''), TEnd (qs ''item''), TEnd (qs ''rss'')]"

theorem feed_parser_returns_iff_witness:
  "parse sample_parser token_reader (\<lambda>_. cut_feed) (qs ''f'') [0] = None \<and>
   parse sample_parser token_reader (\<lambda>_. whole_feed) (qs ''f'') [0] =
     Some \<lparr>pr_ok = True, pr_items = [default_item\<lparr>i_id := qs ''00'', i_feed_id := qs ''f'', i_title := qs ''x''\<rparr>],
           pr_error = []\<rparr>"
proof
  let ?step = "pstep sample_parser token_reader (qs ''f'')"
  let ?r = "\<lparr>pr_ok = True,
    pr_items = [default_item\<lparr>i_id := qs ''00'', i_feed_id := qs ''f'', i_title := qs ''x''\<rparr>], pr_error = []\<rparr>"
  note parser = feed_parser_returns_iff [OF token_reader_ok, of sample_parser]
  have run: "runs sample_parser token_reader (qs ''f'') (AtRoot ts) ((?step ^^ n) (AtRoot ts))" for n ts
    by (auto simp: runs_def)
  have "stuck token_reader ((?step ^^ 3) (AtRoot cut_feed))" by code_simp
  then show "parse sample_parser token_reader (\<lambda>_. cut_feed) (qs ''f'') [0] = None"
    using parser [THEN conjunct2, of "\<lambda>_. cut_feed" "qs ''f''" "[0]"] run [of cut_feed 3] by auto
  have "(?step ^^ 8) (AtRoot whole_feed) = Done ?r" by code_simp
  then show "parse sample_parser token_reader (\<lambda>_. whole_feed) (qs ''f'') [0] = Some ?r"
    using parser [THEN conjunct1, of "\<lambda>_. whole_feed" "qs ''f''" "[0]" ?r] run [of whole_feed 8] by simp
qed

end
