(* ===== verification/Files.thy ===== *)
theory Files
  imports Errors
begin

text \<open>
  Reading and writing whole files, \<open>base/io.{h,cc}\<close>, and the JSON values the stores write. The disk is a
  map from paths to contents; \<open>file_env\<close> says which operations of \<open>QFile\<close> and \<open>QSaveFile\<close> fail. An
  operation that fails is \<open>Some e\<close>, where \<open>e\<close> is what \<open>error()\<close> returns then. \<open>QSaveFile\<close> replaces the
  target only in \<open>commit\<close>, \<open>QFile::copy\<close> does not overwrite, as their documentation says.
\<close>

section \<open>Files\<close>

type_synonym disk = "qstring \<Rightarrow> bytes option"

datatype file_error =
    NoFileError | ReadError | WriteError | FatalError | ResourceError | OpenError | AbortError
  | TimeOutError | UnspecifiedError | RemoveError | RenameError | PositionError | ResizeError
  | PermissionsError | CopyError

fun file_error_int :: "file_error \<Rightarrow> int" where
  "file_error_int NoFileError = 0"
| "file_error_int ReadError = 1"
| "file_error_int WriteError = 2"
| "file_error_int FatalError = 3"
| "file_error_int ResourceError = 4"
| "file_error_int OpenError = 5"
| "file_error_int AbortError = 6"
| "file_error_int TimeOutError = 7"
| "file_error_int UnspecifiedError = 8"
| "file_error_int RemoveError = 9"
| "file_error_int RenameError = 10"
| "file_error_int PositionError = 11"
| "file_error_int ResizeError = 12"
| "file_error_int PermissionsError = 13"
| "file_error_int CopyError = 14"

record file_env =
  fe_open_read :: "qstring \<Rightarrow> file_error option"
  fe_read :: "qstring \<Rightarrow> file_error option"
  fe_open_write :: "qstring \<Rightarrow> file_error option"
  fe_write :: "qstring \<Rightarrow> file_error option"
  fe_commit :: "qstring \<Rightarrow> file_error option"
  fe_remove :: "qstring \<Rightarrow> bool"
  fe_copy :: "qstring \<Rightarrow> qstring \<Rightarrow> bool"
  fe_text :: "qstring \<Rightarrow> file_error \<Rightarrow> qstring"     \<comment> \<open>\<open>errorString\<close>\<close>

definition makeIoDetail :: "qstring \<Rightarrow> file_error \<Rightarrow> qstring" where
  "makeIoDetail path e = qarg2 (qs ''path=%1;qt_file_error=%2'') path (qnum (file_error_int e))"

fun mapFileErrorToCode :: "file_error \<Rightarrow> error_code \<Rightarrow> error_code" where
  "mapFileErrorToCode NoFileError d = kSuccess"
| "mapFileErrorToCode ReadError d = kFileReadFailed"
| "mapFileErrorToCode WriteError d = kFileWriteFailed"
| "mapFileErrorToCode ResourceError d = kDiskFull"
| "mapFileErrorToCode OpenError d = d"
| "mapFileErrorToCode PermissionsError d = kPathPermissionDenied"
| "mapFileErrorToCode _ d = d"

definition errorForFile :: "file_env \<Rightarrow> qstring \<Rightarrow> file_error \<Rightarrow> error_code \<Rightarrow> string \<Rightarrow> err" where
  "errorForFile E path e defaultCode context =
     (if e = NoFileError then Error0
      else mkError (mapFileErrorToCode e defaultCode)
             (if context = [] then fe_text E path e else qarg2 (qs ''%1: %2'') (qs context) (fe_text E path e))
             (makeIoDetail path e) dIo (file_error_int e))"

definition readWholeFile :: "file_env \<Rightarrow> disk \<Rightarrow> qstring \<Rightarrow> bytes \<times> err" where
  "readWholeFile E d path =
     (case d path of
        None \<Rightarrow> ([], mkError kFileNotFound (qs ''File does not exist'') (makeIoDetail path OpenError) dIo
                      (file_error_int OpenError))
      | Some data \<Rightarrow>
          (case fe_open_read E path of
             Some e \<Rightarrow> ([], errorForFile E path e kFileReadFailed ''Cannot open for read'')
           | None \<Rightarrow>
               (case fe_read E path of
                  Some e \<Rightarrow> ([], errorForFile E path e kFileReadFailed ''Read failed'')
                | None \<Rightarrow> (data, Error0))))"

definition readWholeFileAsText :: "(bytes \<Rightarrow> qstring) \<Rightarrow> file_env \<Rightarrow> disk \<Rightarrow> qstring \<Rightarrow> qstring \<times> err" where
  "readWholeFileAsText from_utf8 E d path =
     (case readWholeFile E d path of
        (data, e) \<Rightarrow> if hasError e then ([], e) else (from_utf8 data, Error0))"

definition writeWholeFile :: "file_env \<Rightarrow> qstring \<Rightarrow> bytes \<Rightarrow> disk \<Rightarrow> err \<times> disk" where
  "writeWholeFile E path data d =
     (case fe_open_write E path of
        Some e \<Rightarrow> (errorForFile E path e kFileWriteFailed ''Cannot open for write'', d)
      | None \<Rightarrow>
          (case fe_write E path of
             Some e \<Rightarrow> (errorForFile E path e kFileWriteFailed ''Write failed'', d)
           | None \<Rightarrow>
               (case fe_commit E path of
                  Some e \<Rightarrow> (mkError kFileWriteFailed (qs ''Atomic commit (rename) failed'')
                              (makeIoDetail path e) dIo (file_error_int e), d)
                | None \<Rightarrow> (Error0, d(path \<mapsto> data)))))"

definition writeWholeFileText :: "file_env \<Rightarrow> qstring \<Rightarrow> qstring \<Rightarrow> disk \<Rightarrow> err \<times> disk" where
  "writeWholeFileText E path text d = writeWholeFile E path (to_utf8 text) d"

definition remove_file :: "file_env \<Rightarrow> qstring \<Rightarrow> disk \<Rightarrow> disk" where
  "remove_file E p d = (if fe_remove E p then d(p := None) else d)"

definition copy_file :: "file_env \<Rightarrow> qstring \<Rightarrow> qstring \<Rightarrow> disk \<Rightarrow> disk" where
  "copy_file E src dst d = (if d src \<noteq> None \<and> d dst = None \<and> fe_copy E src dst then d(dst := d src) else d)"

definition bak_of :: "qstring \<Rightarrow> qstring" where "bak_of path = path @ qs ''.bak''"
definition bak2_of :: "qstring \<Rightarrow> qstring" where "bak2_of path = path @ qs ''.bak2''"

text \<open>The file operations of a backup, in order; a crash can come between any two of them.\<close>

definition backup_steps :: "file_env \<Rightarrow> qstring \<Rightarrow> disk \<Rightarrow> (disk \<Rightarrow> disk) list" where
  "backup_steps E path d =
     (if d path = None then []
      else (if d (bak_of path) = None then []
            else [remove_file E (bak2_of path), copy_file E (bak_of path) (bak2_of path)]) @
           [remove_file E (bak_of path), copy_file E path (bak_of path)])"

definition writeWholeFileWithBackup :: "file_env \<Rightarrow> qstring \<Rightarrow> bytes \<Rightarrow> disk \<Rightarrow> err \<times> disk" where
  "writeWholeFileWithBackup E path data d =
     writeWholeFile E path data (fold (\<lambda>step. step) (backup_steps E path d) d)"

definition crash_points :: "file_env \<Rightarrow> qstring \<Rightarrow> bytes \<Rightarrow> disk \<Rightarrow> disk list" where
  \<comment> \<open>the disk before each operation, and at the end\<close>
  "crash_points E path data d =
     (let steps = backup_steps E path d in
      map (\<lambda>n. fold (\<lambda>step. step) (take n steps) d) [0..<Suc (length steps)] @
      [snd (writeWholeFileWithBackup E path data d)])"

record recovery_result =
  rr_data :: bytes
  rr_path :: qstring
  rr_error :: err

fun first_readable :: "file_env \<Rightarrow> disk \<Rightarrow> qstring list \<Rightarrow> recovery_result option" where
  "first_readable E d [] = None"
| "first_readable E d (c # cs) =
     (case readWholeFile E d c of
        (data, e) \<Rightarrow> if \<not> hasError e \<and> data \<noteq> [] then Some \<lparr>rr_data = data, rr_path = c, rr_error = Error0\<rparr>
                     else first_readable E d cs)"

definition readWholeFileWithRecovery :: "file_env \<Rightarrow> disk \<Rightarrow> qstring \<Rightarrow> recovery_result" where
  "readWholeFileWithRecovery E d path =
     (case first_readable E d [path, bak_of path, bak2_of path] of
        Some r \<Rightarrow> r
      | None \<Rightarrow> \<lparr>rr_data = [], rr_path = [],
                 rr_error = mkError kFileNotFound (qs ''No readable copy found (primary + backups)'')
                              (qarg (qs ''path=%1'') path) dIo 0\<rparr>)"

section \<open>JSON values\<close>

text \<open>
  A \<open>QJsonValue\<close> with its conversions; an object is its list of fields in the order of insertion, a number
  is an integer, since the program stores no other. Printing and parsing documents are arguments
  (\<open>json_codec\<close>): \<open>None\<close> is a text that is no document.
\<close>

datatype json =
    JNull | JBool bool | JNum int | JStr qstring | JArr "json list" | JObj "(qstring \<times> json) list"

record json_codec =
  jc_compact :: "json \<Rightarrow> bytes"
  jc_indented :: "json \<Rightarrow> bytes"
  jc_parse :: "bytes \<Rightarrow> json option"
  jc_sha256_hex :: "bytes \<Rightarrow> qstring"

definition sha256Hex :: "json_codec \<Rightarrow> bytes \<Rightarrow> qstring" where
  "sha256Hex J data = jc_sha256_hex J data"

fun json_field :: "string \<Rightarrow> (qstring \<times> json) list \<Rightarrow> json" where
  "json_field key [] = JNull"
| "json_field key ((k, v) # fs) = (if k = qs key then v else json_field key fs)"

fun j_string :: "json \<Rightarrow> qstring" where
  "j_string (JStr s) = s"
| "j_string _ = []"

fun j_bool :: "bool \<Rightarrow> json \<Rightarrow> bool" where
  "j_bool d (JBool b) = b"
| "j_bool d _ = d"

fun j_int :: "int \<Rightarrow> json \<Rightarrow> int" where
  "j_int d (JNum n) = (if - 2147483648 \<le> n \<and> n < 2147483648 then n else d)"
| "j_int d _ = d"

fun j_array :: "json \<Rightarrow> json list" where
  "j_array (JArr xs) = xs"
| "j_array _ = []"

fun j_object :: "json \<Rightarrow> (qstring \<times> json) list option" where
  "j_object (JObj fs) = Some fs"
| "j_object _ = None"

text \<open>What printing and parsing promise for the documents the program writes.\<close>

definition codec_ok :: "json_codec \<Rightarrow> bool" where
  "codec_ok J \<longleftrightarrow> (\<forall>fs. jc_parse J (jc_indented J (JObj fs)) = Some (JObj fs) \<and> jc_indented J (JObj fs) \<noteq> []) \<and>
     (\<forall>data. trimmed (jc_sha256_hex J data) = jc_sha256_hex J data)"

section \<open>What backups guarantee\<close>

definition no_faults :: file_env where
  "no_faults = \<lparr>fe_open_read = (\<lambda>_. None), fe_read = (\<lambda>_. None), fe_open_write = (\<lambda>_. None),
     fe_write = (\<lambda>_. None), fe_commit = (\<lambda>_. None), fe_remove = (\<lambda>_. True), fe_copy = (\<lambda>_ _. True),
     fe_text = (\<lambda>_ _. [])\<rparr>"

lemma backup_names [simp]:
  "bak_of p \<noteq> p" "p \<noteq> bak_of p" "bak2_of p \<noteq> p" "p \<noteq> bak2_of p" "bak2_of p \<noteq> bak_of p" "bak_of p \<noteq> bak2_of p"
  by (simp_all add: bak_of_def bak2_of_def qs_def)

lemma remove_other [simp]: "p \<noteq> q \<Longrightarrow> remove_file E p d q = d q"
  by (simp add: remove_file_def)

lemma copy_other [simp]: "dst \<noteq> q \<Longrightarrow> copy_file E src dst d q = d q"
  by (simp add: copy_file_def)

lemma backup_step_primary:
  "step \<in> set (backup_steps E path d) \<Longrightarrow> step m path = m path"
  by (auto simp: backup_steps_def split: if_splits)

lemma fold_steps_primary:
  "set steps \<subseteq> set (backup_steps E path d) \<Longrightarrow> fold (\<lambda>step. step) steps m path = m path"
  by (induction steps arbitrary: m) (auto dest: backup_step_primary)

lemma write_primary:
  "snd (writeWholeFile E path data d) = d \<or> snd (writeWholeFile E path data d) = d(path \<mapsto> data)"
  by (simp add: writeWholeFile_def split: option.split)

lemma crash_point_primary:
  assumes "d' \<in> set (crash_points E path data d)"
  shows "d' path = d path \<or> d' path = Some data"
proof -
  have "fold (\<lambda>step. step) (take n (backup_steps E path d)) d path = d path" for n
    by (rule fold_steps_primary) (rule set_take_subset)
  moreover have "fold (\<lambda>step. step) (backup_steps E path d) d path = d path"
    by (rule fold_steps_primary [of _ E path d]) simp
  moreover have "snd (writeWholeFileWithBackup E path data d) path \<in> {d path, Some data}"
    using write_primary [of E path data "fold (\<lambda>step. step) (backup_steps E path d) d"]
      fold_steps_primary [of "backup_steps E path d" E path d d]
    by (auto simp: writeWholeFileWithBackup_def)
  ultimately show ?thesis using assms by (auto simp: crash_points_def Let_def)
qed

lemma read_no_faults:
  "readWholeFile no_faults d p = (case d p of None \<Rightarrow> ([], mkError kFileNotFound (qs ''File does not exist'')
     (makeIoDetail p OpenError) dIo (file_error_int OpenError)) | Some data \<Rightarrow> (data, Error0))"
  by (simp add: readWholeFile_def no_faults_def split: option.split)

lemma no_error [simp]: "\<not> hasError Error0" "hasError (mkError kFileNotFound m dt dm raw)"
  by (simp_all add: hasError_def isSuccess_def Error0_def mkError_def)

lemma recovery_primary:
  "d path = Some data \<Longrightarrow> data \<noteq> [] \<Longrightarrow>
   readWholeFileWithRecovery no_faults d path = \<lparr>rr_data = data, rr_path = path, rr_error = Error0\<rparr>"
  by (simp add: readWholeFileWithRecovery_def read_no_faults)

lemma recovery_bak:
  "d path = None \<or> d path = Some [] \<Longrightarrow> d (bak_of path) = Some data \<Longrightarrow> data \<noteq> [] \<Longrightarrow>
   rr_data (readWholeFileWithRecovery no_faults d path) = data"
  by (auto simp: readWholeFileWithRecovery_def read_no_faults)

lemma recovery_bak2:
  "d path = None \<Longrightarrow> d (bak_of path) = None \<Longrightarrow> d (bak2_of path) = Some data \<Longrightarrow> data \<noteq> [] \<Longrightarrow>
   rr_data (readWholeFileWithRecovery no_faults d path) = data"
  by (auto simp: readWholeFileWithRecovery_def read_no_faults)

lemma backup_no_faults:
  assumes "d path = Some old"
  shows "snd (writeWholeFileWithBackup no_faults path data d) =
    d(path \<mapsto> data, bak_of path \<mapsto> old,
      bak2_of path := (if d (bak_of path) = None then d (bak2_of path) else d (bak_of path)))"
  using assms
  by (auto simp: writeWholeFileWithBackup_def writeWholeFile_def backup_steps_def no_faults_def
      remove_file_def copy_file_def fun_eq_iff)

text \<open>
  C18. Saving with backups never loses the data: whichever operations fail and wherever the program is
  killed, what the recovering reader finds afterwards is the content before or the new one, from the primary file. After a
  save that went through, a lost or emptied primary file gives the content before it, and if the first
  backup is lost too, the one before that.
\<close>

theorem saves_survive_crashes:
  assumes "d path = Some old" and "old \<noteq> []" and "data \<noteq> []"
  shows "list_all (\<lambda>d'. rr_path (readWholeFileWithRecovery no_faults d' path) = path \<and>
           rr_data (readWholeFileWithRecovery no_faults d' path) \<in> {old, data})
         (crash_points E path data d) \<and>
         (let d1 = snd (writeWholeFileWithBackup no_faults path data d) in
          rr_data (readWholeFileWithRecovery no_faults d1 path) = data \<and>
          rr_data (readWholeFileWithRecovery no_faults (d1(path := None)) path) = old \<and>
          rr_data (readWholeFileWithRecovery no_faults (d1(path := Some [])) path) = old \<and>
          (d (bak_of path) = None \<or> d (bak_of path) = Some [] \<or>
           Some (rr_data (readWholeFileWithRecovery no_faults (d1(path := None, bak_of path := None)) path)) =
             d (bak_of path)))"
proof (intro conjI)
  show "list_all (\<lambda>d'. rr_path (readWholeFileWithRecovery no_faults d' path) = path \<and>
           rr_data (readWholeFileWithRecovery no_faults d' path) \<in> {old, data})
         (crash_points E path data d)"
    using crash_point_primary [of _ E path data d] assms recovery_primary [of _ path]
    by (fastforce simp: list_all_iff)
  show "let d1 = snd (writeWholeFileWithBackup no_faults path data d) in
          rr_data (readWholeFileWithRecovery no_faults d1 path) = data \<and>
          rr_data (readWholeFileWithRecovery no_faults (d1(path := None)) path) = old \<and>
          rr_data (readWholeFileWithRecovery no_faults (d1(path := Some [])) path) = old \<and>
          (d (bak_of path) = None \<or> d (bak_of path) = Some [] \<or>
           Some (rr_data (readWholeFileWithRecovery no_faults (d1(path := None, bak_of path := None)) path)) =
             d (bak_of path))"
    unfolding Let_def backup_no_faults [of d path old, OF assms(1)]
    using assms by (cases "d (bak_of path) = Some []") (auto simp: recovery_primary recovery_bak recovery_bak2)
qed

definition sample_disk :: disk where
  "sample_disk = [qs ''t'' \<mapsto> [1], qs ''t.bak'' \<mapsto> [0]]"

theorem saves_survive_crashes_witness:
  "list_all (\<lambda>d'. rr_path (readWholeFileWithRecovery no_faults d' (qs ''t'')) = qs ''t'' \<and>
       rr_data (readWholeFileWithRecovery no_faults d' (qs ''t'')) \<in> {[1], [2]})
     (crash_points (no_faults\<lparr>fe_commit := (\<lambda>_. Some RenameError)\<rparr>) (qs ''t'') [2] sample_disk) \<and>
   rr_data (readWholeFileWithRecovery no_faults
     ((snd (writeWholeFileWithBackup no_faults (qs ''t'') [2] sample_disk)) (qs ''t'' := None)) (qs ''t'')) = [1]"
proof -
  have "sample_disk (qs ''t'') = Some [1]" by (simp add: sample_disk_def qs_def)
  then show ?thesis
    using saves_survive_crashes [of sample_disk "qs ''t''" "[1]" "[2]" "no_faults\<lparr>fe_commit := (\<lambda>_. Some RenameError)\<rparr>"]
    by (simp add: Let_def)
qed

section \<open>A codec\<close>

text \<open>
  An instance of the codec, so that what the stores rely on can be evaluated: numbers and characters are
  written in unary, every value starts with a tag.
\<close>

definition enc_nat :: "nat \<Rightarrow> bytes" where "enc_nat n = replicate n 1 @ [0]"

definition enc_str :: "qstring \<Rightarrow> bytes" where
  "enc_str s = concat (map (\<lambda>c. 1 # enc_nat (unat c)) s) @ [0]"

fun enc :: "json \<Rightarrow> bytes" where
  "enc JNull = [0]"
| "enc (JBool b) = [if b then 2 else 1]"
| "enc (JNum n) = (if 0 \<le> n then 3 else 4) # enc_nat (nat \<bar>n\<bar>)"
| "enc (JStr s) = 5 # enc_str s"
| "enc (JArr xs) = 6 # concat (map (\<lambda>x. 1 # enc x) xs) @ [0]"
| "enc (JObj fs) = 7 # concat (map (\<lambda>f. 1 # enc_str (fst f) @ enc (snd f)) fs) @ [0]"

fun dec_nat :: "bytes \<Rightarrow> nat \<times> bytes" where
  "dec_nat [] = (0, [])"
| "dec_nat (b # r) = (if b = 0 then (0, r) else (case dec_nat r of (n, r') \<Rightarrow> (Suc n, r')))"

fun dec_str :: "nat \<Rightarrow> bytes \<Rightarrow> qstring \<times> bytes" where
  "dec_str (Suc k) (b # r) =
     (if b = 0 then ([], r)
      else case dec_nat r of (n, r1) \<Rightarrow> (case dec_str k r1 of (s, r2) \<Rightarrow> (of_nat n # s, r2)))"
| "dec_str k r = ([], r)"

fun dec :: "nat \<Rightarrow> bytes \<Rightarrow> json \<times> bytes"
  and dec_items :: "nat \<Rightarrow> bytes \<Rightarrow> json list \<times> bytes"
  and dec_fields :: "nat \<Rightarrow> bytes \<Rightarrow> (qstring \<times> json) list \<times> bytes" where
  "dec (Suc k) (t # r) =
     (if t = 1 then (JBool False, r) else if t = 2 then (JBool True, r)
      else if t = 3 then (case dec_nat r of (n, r1) \<Rightarrow> (JNum (int n), r1))
      else if t = 4 then (case dec_nat r of (n, r1) \<Rightarrow> (JNum (- int n), r1))
      else if t = 5 then (case dec_str k r of (s, r1) \<Rightarrow> (JStr s, r1))
      else if t = 6 then (case dec_items k r of (xs, r1) \<Rightarrow> (JArr xs, r1))
      else if t = 7 then (case dec_fields k r of (fs, r1) \<Rightarrow> (JObj fs, r1))
      else (JNull, r))"
| "dec k r = (JNull, r)"
| "dec_items (Suc k) (b # r) =
     (if b = 0 then ([], r)
      else case dec k r of (x, r1) \<Rightarrow> (case dec_items k r1 of (xs, r2) \<Rightarrow> (x # xs, r2)))"
| "dec_items k r = ([], r)"
| "dec_fields (Suc k) (b # r) =
     (if b = 0 then ([], r)
      else case dec_str k r of (s, r1) \<Rightarrow>
        (case dec k r1 of (v, r2) \<Rightarrow> (case dec_fields k r2 of (fs, r3) \<Rightarrow> ((s, v) # fs, r3))))"
| "dec_fields k r = ([], r)"

lemma dec_enc_nat [simp]: "dec_nat (enc_nat n @ r) = (n, r)"
  by (induction n) (simp_all add: enc_nat_def)

lemma dec_enc_str: "length (enc_str s) \<le> k \<Longrightarrow> dec_str k (enc_str s @ r) = (s, r)"
proof (induction s arbitrary: k)
  case Nil
  then show ?case by (cases k) (simp_all add: enc_str_def)
next
  case (Cons c s)
  have step: "enc_str (c # s) = 1 # enc_nat (unat c) @ enc_str s" by (simp add: enc_str_def)
  with Cons.prems obtain k' where k: "k = Suc k'" "length (enc_str s) \<le> k'" by (cases k) simp_all
  then show ?case unfolding step using Cons.IH [OF k(2)] by simp
qed

lemma dec_enc: "length (enc j) \<le> k \<Longrightarrow> dec k (enc j @ r) = (j, r)"
proof (induction j arbitrary: k r)
  case (JArr xs)
  have items: "length (concat (map (\<lambda>x. 1 # enc x) xs)) < k' \<Longrightarrow>
      dec_items k' (concat (map (\<lambda>x. 1 # enc x) xs) @ 0 # r) = (xs, r)" for k'
    using JArr.IH
  proof (induction xs arbitrary: k')
    case Nil
    then show ?case by (cases k') simp_all
  next
    case (Cons x xs)
    then obtain m where m: "k' = Suc m" by (cases k') simp_all
    with Cons.prems have "dec m (enc x @ s) = (x, s)" for s by simp
    moreover have "dec_items m (concat (map (\<lambda>x. 1 # enc x) xs) @ 0 # r) = (xs, r)"
      using Cons.prems m by (intro Cons.IH) auto
    ultimately show ?case by (simp add: m)
  qed
  show ?case using JArr.prems by (cases k) (simp_all add: items)
next
  case (JObj fs)
  have vals: "dec k (enc (snd f) @ r) = (snd f, r)" if "f \<in> set fs" "length (enc (snd f)) \<le> k" for f k r
    using that by (intro JObj.IH [of f]) (auto intro: snds.intros)
  have fields: "length (concat (map (\<lambda>f. 1 # enc_str (fst f) @ enc (snd f)) fs)) < k' \<Longrightarrow>
      dec_fields k' (concat (map (\<lambda>f. 1 # enc_str (fst f) @ enc (snd f)) fs) @ 0 # r) = (fs, r)" for k'
    using vals
  proof (induction fs arbitrary: k')
    case Nil
    then show ?case by (cases k') simp_all
  next
    case (Cons f fs)
    then obtain m where m: "k' = Suc m" by (cases k') simp_all
    have "dec m (enc (snd f) @ s) = (snd f, s)" for s
      using Cons.prems(1) m by (intro Cons.prems(2)) simp_all
    moreover have "dec_str m (enc_str (fst f) @ s) = (fst f, s)" for s
      using Cons.prems m by (intro dec_enc_str) simp
    moreover have "dec_fields m (concat (map (\<lambda>f. 1 # enc_str (fst f) @ enc (snd f)) fs) @ 0 # r) = (fs, r)"
      using Cons.prems(1) m by (intro Cons.IH Cons.prems(2)) simp_all
    ultimately show ?case by (simp add: m)
  qed
  show ?case using JObj.prems by (cases k) (simp_all add: fields)
next
  case (JStr s)
  then show ?case by (cases k) (simp_all add: dec_enc_str)
next
  case (JNum n)
  then show ?case by (cases k) auto
next
  case (JBool b)
  then show ?case by (cases k) auto
next
  case JNull
  then show ?case by (cases k) simp_all
qed

definition sample_codec :: json_codec where
  "sample_codec = \<lparr>jc_compact = enc, jc_indented = enc, jc_parse = (\<lambda>bs. Some (fst (dec (length bs) bs))),
     jc_sha256_hex = (\<lambda>bs. trimmed (map ucast bs))\<rparr>"

lemma sample_codec_ok: "codec_ok sample_codec"
  using dec_enc [of _ _ "[]"] by (simp add: codec_ok_def sample_codec_def del: enc.simps) simp

end
