(* ===== verification/RssRepository.thy ===== *)
theory RssRepository
  imports RssService Files
begin

text \<open>
  The files of the RSS module, \<open>core/rss/rss_repository.{h,cc}\<close>: feeds, items and rules are JSON arrays in
  an envelope with a version and a checksum, the settings are one object; all are written with backups.
  Printing and parsing of dates and of documents are arguments. \<open>dates_ok\<close> says what the ISO
  format keeps of a date: the seconds.
\<close>

section \<open>Records and JSON\<close>

record repo_env =
  re_files :: file_env
  re_json :: json_codec
  re_iso :: "qdatetime \<Rightarrow> qstring"             \<comment> \<open>\<open>toString(Qt::ISODate)\<close>\<close>
  re_from_iso :: "qstring \<Rightarrow> qdatetime"
  re_path :: "qstring \<Rightarrow> qstring"              \<comment> \<open>\<open>QDir(data_dir_).filePath\<close>\<close>

definition feedToJson :: "repo_env \<Rightarrow> rss_feed \<Rightarrow> json" where
  "feedToJson E f = JObj
     [(qs ''id'', JStr (f_id f)), (qs ''title'', JStr (f_title f)), (qs ''url'', JStr (f_url f)),
      (qs ''enabled'', JBool (f_enabled f)),
      (qs ''auto_download_enabled'', JBool (f_auto_download_enabled f)),
      (qs ''last_refreshed_at'', JStr (re_iso E (f_last_refreshed_at f))),
      (qs ''last_success_refreshed_at'', JStr (re_iso E (f_last_success_refreshed_at f))),
      (qs ''last_error'', JStr (f_last_error f))]"

definition feedFromJson :: "repo_env \<Rightarrow> (qstring \<times> json) list \<Rightarrow> rss_feed" where
  "feedFromJson E ob = \<lparr>
     f_id = j_string (json_field ''id'' ob), f_title = j_string (json_field ''title'' ob),
     f_url = j_string (json_field ''url'' ob), f_enabled = j_bool True (json_field ''enabled'' ob),
     f_auto_download_enabled = j_bool False (json_field ''auto_download_enabled'' ob),
     f_last_refreshed_at = re_from_iso E (j_string (json_field ''last_refreshed_at'' ob)),
     f_last_success_refreshed_at = re_from_iso E (j_string (json_field ''last_success_refreshed_at'' ob)),
     f_last_error = j_string (json_field ''last_error'' ob)\<rparr>"

fun decision_int :: "auto_decision \<Rightarrow> int" where
  "decision_int adUnknown = 0"
| "decision_int adQueued = 1"
| "decision_int adSkipped = 2"
| "decision_int adSucceeded = 3"
| "decision_int adFailed = 4"

definition decision_of :: "int \<Rightarrow> auto_decision" where
  \<comment> \<open>the cast; a number outside the enumeration has no name and is read as \<open>kUnknown\<close>\<close>
  "decision_of n = (if n = 1 then adQueued else if n = 2 then adSkipped else if n = 3 then adSucceeded
                    else if n = 4 then adFailed else adUnknown)"

definition itemToJson :: "repo_env \<Rightarrow> rss_item \<Rightarrow> json" where
  "itemToJson E it = JObj (
     [(qs ''id'', JStr (i_id it)), (qs ''feed_id'', JStr (i_feed_id it)), (qs ''title'', JStr (i_title it)),
      (qs ''link'', JStr (i_link it)), (qs ''guid'', JStr (i_guid it)), (qs ''summary'', JStr (i_summary it)),
      (qs ''published_at'', JStr (re_iso E (i_published_at it))), (qs ''magnet'', JStr (i_magnet it)),
      (qs ''torrent_url'', JStr (i_torrent_url it)), (qs ''read'', JBool (i_read it)),
      (qs ''ignored'', JBool (i_ignored it)), (qs ''downloaded'', JBool (i_downloaded it)),
      (qs ''accepted'', JBool (i_accepted it)),
      (qs ''last_auto_decision'', JNum (decision_int (i_decision it))),
      (qs ''last_auto_reason_code'', JStr (i_reason_code it)),
      (qs ''last_auto_reason_text'', JStr (i_reason_text it)),
      (qs ''last_attempt_at'', JStr (re_iso E (i_last_attempt_at it))),
      (qs ''last_success_at'', JStr (re_iso E (i_last_success_at it))),
      (qs ''retry_count'', JNum (i_retry_count it))] @
     (if i_download_save_path it = [] then []
      else [(qs ''download_save_path'', JStr (i_download_save_path it))]))"

definition itemFromJson :: "repo_env \<Rightarrow> (qstring \<times> json) list \<Rightarrow> rss_item" where
  "itemFromJson E ob = \<lparr>
     i_id = j_string (json_field ''id'' ob), i_feed_id = j_string (json_field ''feed_id'' ob),
     i_title = j_string (json_field ''title'' ob), i_link = j_string (json_field ''link'' ob),
     i_guid = j_string (json_field ''guid'' ob), i_summary = j_string (json_field ''summary'' ob),
     i_published_at = re_from_iso E (j_string (json_field ''published_at'' ob)),
     i_magnet = j_string (json_field ''magnet'' ob), i_torrent_url = j_string (json_field ''torrent_url'' ob),
     i_read = j_bool False (json_field ''read'' ob), i_ignored = j_bool False (json_field ''ignored'' ob),
     i_downloaded = j_bool False (json_field ''downloaded'' ob),
     i_accepted = j_bool False (json_field ''accepted'' ob),
     i_queued = False, i_waitlisted = False,
     i_decision = decision_of (j_int 0 (json_field ''last_auto_decision'' ob)),
     i_reason_code = j_string (json_field ''last_auto_reason_code'' ob),
     i_reason_text = j_string (json_field ''last_auto_reason_text'' ob),
     i_last_attempt_at = re_from_iso E (j_string (json_field ''last_attempt_at'' ob)),
     i_last_success_at = re_from_iso E (j_string (json_field ''last_success_at'' ob)),
     i_retry_count = j_int 0 (json_field ''retry_count'' ob),
     i_download_save_path = j_string (json_field ''download_save_path'' ob)\<rparr>"

definition strings_json :: "qstring list \<Rightarrow> json" where
  "strings_json xs = JArr (map JStr xs)"

definition ruleToJson :: "rss_rule \<Rightarrow> json" where
  "ruleToJson r = JObj
     [(qs ''id'', JStr (r_id r)), (qs ''name'', JStr (r_name r)),
      (qs ''feed_ids'', strings_json (r_feed_ids r)), (qs ''include_keywords'', strings_json (r_include r)),
      (qs ''exclude_keywords'', strings_json (r_exclude r)), (qs ''use_regex'', JBool (r_use_regex r)),
      (qs ''enabled'', JBool (r_enabled r)), (qs ''save_path'', JStr (r_save_path r)),
      (qs ''category'', JStr (r_category r)), (qs ''tags_csv'', JStr (r_tags_csv r))]"

definition ruleFromJson :: "(qstring \<times> json) list \<Rightarrow> rss_rule" where
  "ruleFromJson ob = \<lparr>
     r_id = j_string (json_field ''id'' ob), r_name = j_string (json_field ''name'' ob),
     r_feed_ids = map j_string (j_array (json_field ''feed_ids'' ob)),
     r_include = map j_string (j_array (json_field ''include_keywords'' ob)),
     r_exclude = map j_string (j_array (json_field ''exclude_keywords'' ob)),
     r_use_regex = j_bool False (json_field ''use_regex'' ob),
     r_enabled = j_bool False (json_field ''enabled'' ob),
     r_save_path = j_string (json_field ''save_path'' ob), r_category = j_string (json_field ''category'' ob),
     r_tags_csv = j_string (json_field ''tags_csv'' ob)\<rparr>"

section \<open>Envelopes\<close>

definition kRssJsonVersion :: int where "kRssJsonVersion = 1"

definition saveEnvelope :: "repo_env \<Rightarrow> qstring \<Rightarrow> json list \<Rightarrow> disk \<Rightarrow> bool \<times> disk" where
  "saveEnvelope E path arr d =
     (let payload = jc_compact (re_json E) (JArr arr);
          envelope = JObj [(qs ''version'', JNum kRssJsonVersion),
                           (qs ''checksum'', JStr (sha256Hex (re_json E) payload)),
                           (qs ''data'', JArr arr)] in
      case writeWholeFileWithBackup (re_files E) path (jc_indented (re_json E) envelope) d of
        (e, d') \<Rightarrow> (isOk e, d'))"

definition envelope_array :: "json \<Rightarrow> json list" where
  \<comment> \<open>a wrong checksum is only logged\<close>
  "envelope_array doc =
     (case doc of JObj env \<Rightarrow> j_array (json_field ''data'' env) | JArr arr \<Rightarrow> arr | _ \<Rightarrow> [])"

definition loadEnvelope ::
  "repo_env \<Rightarrow> qstring \<Rightarrow> ((qstring \<times> json) list \<Rightarrow> 'a) \<Rightarrow> disk \<Rightarrow> 'a list" where
  "loadEnvelope E path from_json d =
     (let result = readWholeFileWithRecovery (re_files E) d path in
      if hasError (rr_error result) \<or> rr_data result = [] then []
      else case jc_parse (re_json E) (rr_data result) of
             None \<Rightarrow> []
           | Some doc \<Rightarrow> map from_json (List.map_filter j_object (envelope_array doc)))"

definition feedsPath :: "repo_env \<Rightarrow> qstring" where "feedsPath E = re_path E (qs ''rss_feeds.json'')"
definition itemsPath :: "repo_env \<Rightarrow> qstring" where "itemsPath E = re_path E (qs ''rss_items.json'')"
definition rulesPath :: "repo_env \<Rightarrow> qstring" where "rulesPath E = re_path E (qs ''rss_rules.json'')"
definition settingsPath :: "repo_env \<Rightarrow> qstring" where "settingsPath E = re_path E (qs ''rss_settings.json'')"

definition loadFeeds :: "repo_env \<Rightarrow> disk \<Rightarrow> rss_feed list" where
  "loadFeeds E = loadEnvelope E (feedsPath E) (feedFromJson E)"

definition loadItems :: "repo_env \<Rightarrow> disk \<Rightarrow> rss_item list" where
  "loadItems E = loadEnvelope E (itemsPath E) (itemFromJson E)"

definition loadRules :: "repo_env \<Rightarrow> disk \<Rightarrow> rss_rule list" where
  "loadRules E = loadEnvelope E (rulesPath E) ruleFromJson"

definition saveFeeds :: "repo_env \<Rightarrow> rss_feed list \<Rightarrow> disk \<Rightarrow> bool \<times> disk" where
  "saveFeeds E feeds = saveEnvelope E (feedsPath E) (map (feedToJson E) feeds)"

definition saveItems :: "repo_env \<Rightarrow> rss_item list \<Rightarrow> disk \<Rightarrow> bool \<times> disk" where
  "saveItems E items = saveEnvelope E (itemsPath E) (map (itemToJson E) items)"

definition saveRules :: "repo_env \<Rightarrow> rss_rule list \<Rightarrow> disk \<Rightarrow> bool \<times> disk" where
  "saveRules E rules = saveEnvelope E (rulesPath E) (map ruleToJson rules)"

definition settings_from_json :: "(qstring \<times> json) list \<Rightarrow> rss_settings" where
  "settings_from_json ob = \<lparr>
     g_global_auto_download = j_bool False (json_field ''global_auto_download'' ob),
     g_refresh_interval_minutes = clamp (j_int 30 (json_field ''refresh_interval_minutes'' ob)) 5 1440,
     g_max_auto_downloads_per_refresh = clamp (j_int 10 (json_field ''max_auto_downloads_per_refresh'' ob)) 1 100,
     g_max_concurrent_auto_downloads = clamp (j_int 3 (json_field ''max_concurrent_auto_downloads'' ob)) 1 50,
     g_max_auto_download_backlog = clamp (j_int 50 (json_field ''max_auto_download_backlog'' ob)) 1 500,
     g_history_max_items = clamp (j_int 5000 (json_field ''history_max_items'' ob)) 100 100000,
     g_history_max_age_days = clamp (j_int 90 (json_field ''history_max_age_days'' ob)) 0 3650,
     g_external_player_command = trimmed (j_string (json_field ''external_player_command'' ob))\<rparr>"

definition loadRssSettings :: "repo_env \<Rightarrow> disk \<Rightarrow> rss_settings" where
  "loadRssSettings E d =
     (let result = readWholeFileWithRecovery (re_files E) d (settingsPath E) in
      if hasError (rr_error result) \<or> rr_data result = [] then default_rss_settings
      else case jc_parse (re_json E) (rr_data result) of
             Some (JObj ob) \<Rightarrow> settings_from_json ob
           | _ \<Rightarrow> default_rss_settings)"

definition rssSettingsToJson :: "rss_settings \<Rightarrow> json" where
  "rssSettingsToJson s = JObj
     [(qs ''global_auto_download'', JBool (g_global_auto_download s)),
      (qs ''refresh_interval_minutes'', JNum (g_refresh_interval_minutes s)),
      (qs ''max_auto_downloads_per_refresh'', JNum (g_max_auto_downloads_per_refresh s)),
      (qs ''max_concurrent_auto_downloads'', JNum (g_max_concurrent_auto_downloads s)),
      (qs ''max_auto_download_backlog'', JNum (g_max_auto_download_backlog s)),
      (qs ''history_max_items'', JNum (g_history_max_items s)),
      (qs ''history_max_age_days'', JNum (g_history_max_age_days s)),
      (qs ''external_player_command'', JStr (trimmed (g_external_player_command s)))]"

definition saveRssSettings :: "repo_env \<Rightarrow> rss_settings \<Rightarrow> disk \<Rightarrow> bool \<times> disk" where
  "saveRssSettings E s d =
     (case writeWholeFileWithBackup (re_files E) (settingsPath E)
             (jc_indented (re_json E) (rssSettingsToJson s)) d of
        (e, d') \<Rightarrow> (isOk e, d'))"


section \<open>The state of the service on disk\<close>

definition save_rss :: "repo_env \<Rightarrow> rss_disk \<Rightarrow> disk \<Rightarrow> disk" where
  \<comment> \<open>the four calls of \<open>RssService::saveState\<close>\<close>
  "save_rss E dk d =
     (let d1 = snd (saveFeeds E (dk_feeds dk) d); d2 = snd (saveItems E (dk_items dk) d1);
          d3 = snd (saveRules E (dk_rules dk) d2) in
      snd (saveRssSettings E (dk_settings dk) d3))"

definition load_rss :: "repo_env \<Rightarrow> disk \<Rightarrow> rss_disk" where
  "load_rss E d =
     \<lparr>dk_feeds = loadFeeds E d, dk_items = loadItems E d, dk_rules = loadRules E d,
      dk_settings = loadRssSettings E d\<rparr>"

definition sec :: "qdatetime \<Rightarrow> qdatetime" where
  "sec d = map_option (\<lambda>ms. ms div 1000 * 1000) d"

definition repo_ok :: "repo_env \<Rightarrow> bool" where
  "repo_ok E \<longleftrightarrow> codec_ok (re_json E) \<and> re_files E = no_faults \<and>
     (\<forall>d. re_from_iso E (re_iso E d) = sec d) \<and>
     (let names = [qs ''rss_feeds.json'', qs ''rss_items.json'', qs ''rss_rules.json'', qs ''rss_settings.json''] in
      distinct (concat (map (\<lambda>n. [re_path E n, bak_of (re_path E n), bak2_of (re_path E n)]) names)))"

definition stored_feed :: "rss_feed \<Rightarrow> rss_feed" where
  "stored_feed f = f\<lparr>f_last_refreshed_at := sec (f_last_refreshed_at f),
                     f_last_success_refreshed_at := sec (f_last_success_refreshed_at f)\<rparr>"

definition stored_item :: "rss_item \<Rightarrow> rss_item" where
  "stored_item it = it\<lparr>i_queued := False, i_waitlisted := False,
     i_published_at := sec (i_published_at it), i_last_attempt_at := sec (i_last_attempt_at it),
     i_last_success_at := sec (i_last_success_at it)\<rparr>"

definition rss_settings_in_range :: "rss_settings \<Rightarrow> bool" where
  "rss_settings_in_range s \<longleftrightarrow>
     5 \<le> g_refresh_interval_minutes s \<and> g_refresh_interval_minutes s \<le> 1440 \<and>
     1 \<le> g_max_auto_downloads_per_refresh s \<and> g_max_auto_downloads_per_refresh s \<le> 100 \<and>
     1 \<le> g_max_concurrent_auto_downloads s \<and> g_max_concurrent_auto_downloads s \<le> 50 \<and>
     1 \<le> g_max_auto_download_backlog s \<and> g_max_auto_download_backlog s \<le> 500 \<and>
     100 \<le> g_history_max_items s \<and> g_history_max_items s \<le> 100000 \<and>
     0 \<le> g_history_max_age_days s \<and> g_history_max_age_days s \<le> 3650"

lemma feed_json:
  "(\<And>d. re_from_iso E (re_iso E d) = sec d) \<Longrightarrow>
   map_option (feedFromJson E) (j_object (feedToJson E f)) = Some (stored_feed f)"
  by (cases f) (simp add: feedToJson_def feedFromJson_def stored_feed_def)

lemma decision_int_of [simp]: "decision_of (decision_int a) = a" "j_int 0 (JNum (decision_int a)) = decision_int a"
  by (cases a; simp add: decision_of_def)+

lemma json_field_append:
  "json_field k (xs @ ys) = (if qs k \<in> fst ` set xs then json_field k xs else json_field k ys)"
  by (induction k xs rule: json_field.induct) auto

lemma itemFromJson_sel:
  "i_id (itemFromJson E ob) = j_string (json_field ''id'' ob)"
  "i_feed_id (itemFromJson E ob) = j_string (json_field ''feed_id'' ob)"
  "i_title (itemFromJson E ob) = j_string (json_field ''title'' ob)"
  "i_link (itemFromJson E ob) = j_string (json_field ''link'' ob)"
  "i_guid (itemFromJson E ob) = j_string (json_field ''guid'' ob)"
  "i_summary (itemFromJson E ob) = j_string (json_field ''summary'' ob)"
  "i_published_at (itemFromJson E ob) = re_from_iso E (j_string (json_field ''published_at'' ob))"
  "i_magnet (itemFromJson E ob) = j_string (json_field ''magnet'' ob)"
  "i_torrent_url (itemFromJson E ob) = j_string (json_field ''torrent_url'' ob)"
  "i_read (itemFromJson E ob) = j_bool False (json_field ''read'' ob)"
  "i_ignored (itemFromJson E ob) = j_bool False (json_field ''ignored'' ob)"
  "i_downloaded (itemFromJson E ob) = j_bool False (json_field ''downloaded'' ob)"
  "i_accepted (itemFromJson E ob) = j_bool False (json_field ''accepted'' ob)"
  "i_queued (itemFromJson E ob) = False"
  "i_waitlisted (itemFromJson E ob) = False"
  "i_decision (itemFromJson E ob) = decision_of (j_int 0 (json_field ''last_auto_decision'' ob))"
  "i_reason_code (itemFromJson E ob) = j_string (json_field ''last_auto_reason_code'' ob)"
  "i_reason_text (itemFromJson E ob) = j_string (json_field ''last_auto_reason_text'' ob)"
  "i_last_attempt_at (itemFromJson E ob) = re_from_iso E (j_string (json_field ''last_attempt_at'' ob))"
  "i_last_success_at (itemFromJson E ob) = re_from_iso E (j_string (json_field ''last_success_at'' ob))"
  "i_retry_count (itemFromJson E ob) = j_int 0 (json_field ''retry_count'' ob)"
  "i_download_save_path (itemFromJson E ob) = j_string (json_field ''download_save_path'' ob)"
  by (simp_all add: itemFromJson_def)

lemma item_json:
  assumes "\<And>d. re_from_iso E (re_iso E d) = sec d" and "- 2147483648 \<le> i_retry_count it" "i_retry_count it < 2147483648"
  shows "map_option (itemFromJson E) (j_object (itemToJson E it)) = Some (stored_item it)"
proof -
  have last: "j_string (json_field ''download_save_path''
      (if i_download_save_path it = [] then [] else [(qs ''download_save_path'', JStr (i_download_save_path it))])) =
      i_download_save_path it"
    by simp
  have retry: "j_int 0 (JNum (i_retry_count it)) = i_retry_count it" using assms by simp
  show ?thesis
    unfolding itemToJson_def j_object.simps option.map option.inject
    by (intro rss_item.equality)
      (simp_all add: itemFromJson_sel stored_item_def json_field_append assms(1) last retry del: j_int.simps)
qed

lemma rule_json: "map_option ruleFromJson (j_object (ruleToJson r)) = Some r"
  by (cases r) (simp add: ruleToJson_def ruleFromJson_def strings_json_def comp_def)

lemma settings_json:
  assumes "rss_settings_in_range s"
  shows "map_option settings_from_json (j_object (rssSettingsToJson s)) =
    Some (s\<lparr>g_external_player_command := trimmed (g_external_player_command s)\<rparr>)"
proof -
  have num: "clamp (j_int d (JNum n)) lo hi = n" if "lo \<le> n" "n \<le> hi" "- 2147483648 \<le> lo" "hi < 2147483648" for d n lo hi
    using that by simp
  show ?thesis
    using assms unfolding rss_settings_in_range_def rssSettingsToJson_def j_object.simps option.map option.inject
    by (intro rss_settings.equality) (simp_all add: settings_from_json_def num del: j_int.simps)
qed

lemma map_filter_stored:
  assumes "\<And>x. x \<in> set xs \<Longrightarrow> map_option f (j_object (g x)) = Some (h x)"
  shows "map f (List.map_filter j_object (map g xs)) = map h xs"
  using assms
proof (induction xs)
  case (Cons x xs)
  then obtain ob where "j_object (g x) = Some ob" "f ob = h x" by fastforce
  with Cons show ?case by (simp add: List.map_filter_def)
qed (simp add: List.map_filter_def)

lemma write_backup_paths:
  "snd (writeWholeFileWithBackup no_faults path data d) path = Some data"
  "q \<notin> {path, bak_of path, bak2_of path} \<Longrightarrow> snd (writeWholeFileWithBackup no_faults path data d) q = d q"
  by (auto simp: writeWholeFileWithBackup_def writeWholeFile_def backup_steps_def no_faults_def
      remove_file_def copy_file_def)

lemma load_document:
  assumes J: "codec_ok (re_json E)" and F: "re_files E = no_faults"
    and d: "d path = Some (jc_indented (re_json E) (JObj fs))"
  shows "jc_parse (re_json E) (rr_data (readWholeFileWithRecovery (re_files E) d path)) = Some (JObj fs)"
    "\<not> hasError (rr_error (readWholeFileWithRecovery (re_files E) d path))"
    "rr_data (readWholeFileWithRecovery (re_files E) d path) \<noteq> []"
  using J recovery_primary [of d path, OF d] by (simp_all add: codec_ok_def F)

lemma envelope_loads:
  assumes J: "codec_ok (re_json E)" and F: "re_files E = no_faults"
    and d: "d path = Some (jc_indented (re_json E) (JObj [(qs ''version'', v), (qs ''checksum'', c), (qs ''data'', JArr (map g xs))]))"
    and x: "\<And>x. x \<in> set xs \<Longrightarrow> map_option f (j_object (g x)) = Some (h x)"
  shows "loadEnvelope E path f d = map h xs"
  using load_document [where d = d and path = path, OF J F d] map_filter_stored [OF x]
  by (simp add: loadEnvelope_def Let_def envelope_array_def)

definition rss_disk_ok :: "rss_disk \<Rightarrow> bool" where
  \<comment> \<open>what the types and the service keep: retry counts are \<open>int\<close>, settings are in range\<close>
  "rss_disk_ok dk \<longleftrightarrow>
     list_all (\<lambda>it. - 2147483648 \<le> i_retry_count it \<and> i_retry_count it < 2147483648) (dk_items dk) \<and>
     rss_settings_in_range (dk_settings dk)"


definition sample_repo :: repo_env where
  "sample_repo =
     \<lparr>re_files = no_faults, re_json = sample_codec,
      re_iso = (\<lambda>d. case d of None \<Rightarrow> [] | Some ms \<Rightarrow> (if 0 \<le> ms div 1000 then 43 else 45) # replicate (nat \<bar>ms div 1000\<bar>) 48),
      re_from_iso = (\<lambda>s. case s of [] \<Rightarrow> None | c # cs \<Rightarrow> Some ((if c = 43 then 1 else - 1) * int (length cs) * 1000)),
      re_path = (\<lambda>n. n)\<rparr>"

lemma sample_repo_ok: "repo_ok sample_repo"
proof -
  have "re_from_iso sample_repo (re_iso sample_repo d) = sec d" for d
    by (cases d) (auto simp: sample_repo_def sec_def)
  moreover have "distinct (concat (map (\<lambda>n. [re_path sample_repo n, bak_of (re_path sample_repo n), bak2_of (re_path sample_repo n)])
      [qs ''rss_feeds.json'', qs ''rss_items.json'', qs ''rss_rules.json'', qs ''rss_settings.json'']))"
    by code_simp
  ultimately show ?thesis
    unfolding repo_ok_def Let_def by (simp add: sample_codec_ok sample_repo_def)
qed

definition sample_rss_disk :: rss_disk where
  "sample_rss_disk =
     \<lparr>dk_feeds = [default_feed\<lparr>f_id := qs ''f''\<rparr>],
      dk_items = [default_item\<lparr>i_id := qs ''a'', i_queued := True, i_published_at := Some 1500\<rparr>],
      dk_rules = [default_rule\<lparr>r_feed_ids := [qs ''f'']\<rparr>], dk_settings = default_rss_settings\<rparr>"


end
