(* ===== verification/AppTasks.thy ===== *)
theory AppTasks
  imports SessionWorker
begin

text \<open>
  The use cases of the application layer under \<open>app/\<close>: commands for one task and for many
  (\<open>task_control_command_use_case\<close>, \<open>task_batch_use_case\<close>), edits of the user data of a task
  (\<open>task_meta_command_use_case\<close>), the queries of the detail pages with their data transfer types
  (\<open>task_detail_query_use_case\<close>, \<open>task_query_mapper\<close>, \<open>core/task_query_dto.h\<close>), where a new task goes
  (\<open>core/save_path_policy\<close>, \<open>core/task_add_builder\<close>), and the timers
  (\<open>refresh_scheduler\<close>, \<open>task_persistence_coordinator\<close>, \<open>base/throttle\<close>, \<open>base/debounce\<close>, \<open>base/clock\<close>).
  A \<open>std::function\<close> that may be empty is an \<open>option\<close>; it acts on a state of any type.
\<close>

section \<open>Commands for one task\<close>

definition id_text :: "task_id \<Rightarrow> qstring" where
  \<comment> \<open>\<open>QUuid::toString()\<close>\<close>
  "id_text i = qs ''{'' @ taskIdKey i @ qs ''}''"

definition call :: "('a \<Rightarrow> 's \<Rightarrow> 's) option \<Rightarrow> 'a \<Rightarrow> 's \<Rightarrow> 's" where
  "call f x s = (case f of None \<Rightarrow> s | Some g \<Rightarrow> g x s)"

record 's control_use_case =
  cu_pause :: "(task_id \<Rightarrow> 's \<Rightarrow> 's) option"
  cu_resume :: "(task_id \<Rightarrow> 's \<Rightarrow> 's) option"
  cu_remove :: "(task_id \<times> bool \<Rightarrow> 's \<Rightarrow> 's) option"
  cu_connections :: "(task_id \<times> int \<Rightarrow> 's \<Rightarrow> 's) option"
  cu_force_start :: "(task_id \<Rightarrow> 's \<Rightarrow> 's) option"
  cu_force_recheck :: "(task_id \<Rightarrow> 's \<Rightarrow> 's) option"
  cu_force_reannounce :: "(task_id \<Rightarrow> 's \<Rightarrow> 's) option"
  cu_sequential :: "(task_id \<times> bool \<Rightarrow> 's \<Rightarrow> 's) option"
  cu_auto_managed :: "(task_id \<times> bool \<Rightarrow> 's \<Rightarrow> 's) option"
  cu_log :: "(qstring \<Rightarrow> 's \<Rightarrow> 's) option"

definition bool_text :: "bool \<Rightarrow> qstring" where
  "bool_text b = (if b then qs ''true'' else qs ''false'')"

definition uc_pauseTask :: "'s control_use_case \<Rightarrow> task_id \<Rightarrow> 's \<Rightarrow> 's" where
  "uc_pauseTask U i s =
     call (cu_log U) (qarg (qs ''Pause requested, waiting worker confirmation. taskId=%1'') (id_text i))
       (call (cu_pause U) i s)"

definition uc_resumeTask :: "'s control_use_case \<Rightarrow> task_id \<Rightarrow> 's \<Rightarrow> 's" where
  "uc_resumeTask U i s =
     call (cu_log U) (qarg (qs ''Resume requested, waiting worker confirmation. taskId=%1'') (id_text i))
       (call (cu_resume U) i s)"

definition uc_removeTask :: "'s control_use_case \<Rightarrow> task_id \<Rightarrow> bool \<Rightarrow> 's \<Rightarrow> 's" where
  "uc_removeTask U i removeFiles s =
     call (cu_log U) (qarg (qarg (qs ''Remove requested, waiting worker confirmation. taskId=%1 removeFiles=%2'')
         (id_text i)) (bool_text removeFiles))
       (call (cu_remove U) (i, removeFiles) s)"

definition uc_setTaskConnectionsLimit :: "'s control_use_case \<Rightarrow> task_id \<Rightarrow> int \<Rightarrow> 's \<Rightarrow> 's" where
  "uc_setTaskConnectionsLimit U i limit s =
     call (cu_log U) (qarg (qarg (qs ''Task connections limit updated. taskId=%1 limit=%2'') (id_text i)) (qnum limit))
       (call (cu_connections U) (i, limit) s)"

definition uc_forceStartTask :: "'s control_use_case \<Rightarrow> task_id \<Rightarrow> 's \<Rightarrow> 's" where
  "uc_forceStartTask U i s =
     call (cu_log U) (qarg (qs ''Force start requested. taskId=%1'') (id_text i)) (call (cu_force_start U) i s)"

definition uc_forceRecheckTask :: "'s control_use_case \<Rightarrow> task_id \<Rightarrow> 's \<Rightarrow> 's" where
  "uc_forceRecheckTask U i s =
     call (cu_log U) (qarg (qs ''Force recheck requested. taskId=%1'') (id_text i)) (call (cu_force_recheck U) i s)"

definition uc_forceReannounceTask :: "'s control_use_case \<Rightarrow> task_id \<Rightarrow> 's \<Rightarrow> 's" where
  "uc_forceReannounceTask U i s =
     call (cu_log U) (qarg (qs ''Force reannounce requested. taskId=%1'') (id_text i))
       (call (cu_force_reannounce U) i s)"

definition uc_setSequentialDownload :: "'s control_use_case \<Rightarrow> task_id \<Rightarrow> bool \<Rightarrow> 's \<Rightarrow> 's" where
  "uc_setSequentialDownload U i enabled s =
     call (cu_log U) (qarg (qarg (qs ''Sequential download changed. taskId=%1 enabled=%2'') (id_text i)) (bool_text enabled))
       (call (cu_sequential U) (i, enabled) s)"

definition uc_setAutoManagedTask :: "'s control_use_case \<Rightarrow> task_id \<Rightarrow> bool \<Rightarrow> 's \<Rightarrow> 's" where
  "uc_setAutoManagedTask U i enabled s =
     call (cu_log U) (qarg (qarg (qs ''Auto managed changed. taskId=%1 enabled=%2'') (id_text i)) (bool_text enabled))
       (call (cu_auto_managed U) (i, enabled) s)"

text \<open>The use case as the controller builds it: the callbacks queue the commands of the worker.\<close>

record app_log =
  al_session :: session
  al_info :: "qstring list"

definition upd_session :: "(session \<Rightarrow> session) \<Rightarrow> 'a app_log_scheme \<Rightarrow> 'a app_log_scheme" where
  "upd_session f s = s\<lparr>al_session := f (al_session s)\<rparr>"

definition controller_use_case :: "'a app_log_scheme control_use_case" where
  "controller_use_case =
     \<lparr>cu_pause = Some (\<lambda>i. upd_session (pauseTask i)),
      cu_resume = Some (\<lambda>i. upd_session (resumeTask i)),
      cu_remove = Some (\<lambda>(i, r). upd_session (removeTask i r)),
      cu_connections = Some (\<lambda>(i, n). upd_session (setTaskConnectionsLimit i n)),
      cu_force_start = Some (\<lambda>i. upd_session (forceStartTask i)),
      cu_force_recheck = Some (\<lambda>i. upd_session (forceRecheckTask i)),
      cu_force_reannounce = Some (\<lambda>i. upd_session (forceReannounceTask i)),
      cu_sequential = Some (\<lambda>(i, b). upd_session (setSequentialDownload i b)),
      cu_auto_managed = Some (\<lambda>(i, b). upd_session (setAutoManagedTask i b)),
      cu_log = Some (\<lambda>m s. s\<lparr>al_info := al_info s @ [m]\<rparr>)\<rparr>"

section \<open>Commands for many tasks\<close>

definition pauseAllActiveTasks :: "task_snapshot list option \<Rightarrow> session option \<Rightarrow> session option" where
  "pauseAllActiveTasks snaps worker =
     (case (worker, snaps) of
        (Some w, Some ss) \<Rightarrow>
          Some (fold (\<lambda>s. if s_status s = stDownloading \<or> s_status s = stSeeding
                          then pauseTask (s_taskId s) else (\<lambda>w. w)) ss w)
      | _ \<Rightarrow> worker)"

definition resumeAllPausedTasks :: "task_snapshot list option \<Rightarrow> session option \<Rightarrow> session option" where
  "resumeAllPausedTasks snaps worker =
     (case (worker, snaps) of
        (Some w, Some ss) \<Rightarrow>
          Some (fold (\<lambda>s. if s_status s = stPaused then resumeTask (s_taskId s) else (\<lambda>w. w)) ss w)
      | _ \<Rightarrow> worker)"

definition pauseByIds :: "task_id list \<Rightarrow> session option \<Rightarrow> session option" where
  "pauseByIds ids worker = map_option (fold pauseTask ids) worker"

definition resumeByIds :: "task_id list \<Rightarrow> session option \<Rightarrow> session option" where
  "resumeByIds ids worker = map_option (fold resumeTask ids) worker"

section \<open>Edits of user data\<close>

text \<open>The consumer is \<open>None\<close> when there is none; the second component collects the error log.\<close>

type_synonym 's consumer = "(task_event \<Rightarrow> 's \<Rightarrow> 's) option"
type_synonym 's logged = "'s \<times> qstring list"

definition log_error :: "string \<Rightarrow> err \<Rightarrow> 's logged \<Rightarrow> 's logged" where
  "log_error fmt e s = (fst s, snd s @ [qarg (qs fmt) (err_message e)])"

definition applyMeta ::
  "'s consumer \<Rightarrow> task_id \<Rightarrow> qstring \<Rightarrow> qstring \<Rightarrow> qstring \<Rightarrow> qstring \<Rightarrow> 's logged \<Rightarrow> bool \<times> 's logged" where
  "applyMeta consumer i name savePath category tagsCsv s =
     (case consumer of
        None \<Rightarrow> (False, s)
      | Some f \<Rightarrow>
          (True, f (default_event\<lparr>e_type := kUpsertMeta, e_taskId := i, e_name := name, e_savePath := savePath,
                      e_category := category, e_tags := tagsCsv\<rparr>) (fst s), snd s))"

definition moveTask :: "input_env \<Rightarrow> 's consumer \<Rightarrow> task_id \<Rightarrow> qstring \<Rightarrow> 's logged \<Rightarrow> bool \<times> 's logged" where
  "moveTask E consumer i targetPath s =
     (if hasError (validatePath E targetPath)
      then (False, log_error ''Move target path rejected: %1'' (validatePath E targetPath) s)
      else applyMeta consumer i [] targetPath [] [] s)"

definition renameTask :: "'s consumer \<Rightarrow> task_id \<Rightarrow> qstring \<Rightarrow> 's logged \<Rightarrow> bool \<times> 's logged" where
  "renameTask consumer i name s = applyMeta consumer i name [] [] [] s"

definition updateCategory :: "'s consumer \<Rightarrow> task_id \<Rightarrow> qstring \<Rightarrow> 's logged \<Rightarrow> bool \<times> 's logged" where
  "updateCategory consumer i category s =
     (if hasError (validateCategory category)
      then (False, log_error ''Category rejected: %1'' (validateCategory category) s)
      else applyMeta consumer i [] [] category [] s)"

definition updateTags :: "'s consumer \<Rightarrow> task_id \<Rightarrow> qstring list \<Rightarrow> 's logged \<Rightarrow> bool \<times> 's logged" where
  "updateTags consumer i tags s =
     (let csv = join (qs '','') tags in
      if hasError (validateTagsCsv csv)
      then (False, log_error ''Tags rejected: %1'' (validateTagsCsv csv) s)
      else applyMeta consumer i [] [] [] csv s)"

definition upsertMeta ::
  "'s consumer \<Rightarrow> task_id \<Rightarrow> qstring \<Rightarrow> qstring \<Rightarrow> qstring \<Rightarrow> qstring \<Rightarrow> 's logged \<Rightarrow> bool \<times> 's logged" where
  "upsertMeta consumer i name savePath category tagsCsv s = applyMeta consumer i name savePath category tagsCsv s"

section \<open>Where a new task goes\<close>

datatype content_layout = kOriginal | kCreateSubfolder | kNoSubfolder

record path_env =
  pe_clean :: "qstring \<Rightarrow> qstring"                    \<comment> \<open>\<open>QDir::cleanPath\<close>\<close>
  pe_file_path :: "qstring \<Rightarrow> qstring \<Rightarrow> qstring"      \<comment> \<open>\<open>QDir(dir).filePath(name)\<close>\<close>
  pe_download_dir :: qstring

definition setDefaultDownloadDir :: "qstring \<Rightarrow> qstring" where
  \<comment> \<open>the new \<open>default_dir_\<close>\<close>
  "setDefaultDownloadDir dir = trimmed dir"

definition resolve :: "path_env \<Rightarrow> qstring \<Rightarrow> qstring \<Rightarrow> qstring" where
  \<comment> \<open>\<open>ensureExists\<close> creates the directory that is returned\<close>
  "resolve P default_dir input =
     (let p1 = trimmed input; p2 = (if p1 = [] then default_dir else p1);
          p3 = (if p2 = [] then pe_file_path P (pe_download_dir P) (qs ''p2p'') else p2) in
      pe_clean P p3)"

fun applyLayout :: "path_env \<Rightarrow> qstring \<Rightarrow> qstring \<Rightarrow> content_layout \<Rightarrow> qstring" where
  "applyLayout P base name kCreateSubfolder = pe_file_path P base name"
| "applyLayout P base name kNoSubfolder = base"
| "applyLayout P base name kOriginal = base"

record task_add_input =
  ta_name :: qstring
  ta_savePath :: qstring
  ta_layout :: content_layout
  ta_startTorrent :: bool
  ta_stopCondition :: int
  ta_sequentialDownload :: bool
  ta_skipHashCheck :: bool
  ta_addToTopQueue :: bool
  ta_category :: qstring
  ta_tagsCsv :: qstring
  ta_fileWanted :: "int list"

record task_add_result =
  tr_opts :: add_torrent_options
  tr_finalSavePath :: qstring

definition buildTaskAdd :: "path_env \<Rightarrow> qstring \<Rightarrow> task_add_input \<Rightarrow> task_add_result" where
  "buildTaskAdd P default_dir inp =
     \<lparr>tr_opts =
        \<lparr>ao_file_priorities = map (\<lambda>w. if w \<noteq> 0 then 4 else 0) (ta_fileWanted inp),
         ao_start_torrent = ta_startTorrent inp, ao_stop_when_ready = (ta_stopCondition inp = 1),
         ao_sequential_download = ta_sequentialDownload inp, ao_skip_hash_check = ta_skipHashCheck inp,
         ao_add_to_top_queue = ta_addToTopQueue inp, ao_category = ta_category inp,
         ao_tags_csv = ta_tagsCsv inp\<rparr>,
      tr_finalSavePath = applyLayout P (resolve P default_dir (ta_savePath inp)) (ta_name inp) (ta_layout inp)\<rparr>"

section \<open>Data for the detail pages\<close>

datatype task_priority_dto =
  pdNotDownloaded | pdDoNotDownload | pdNormal | pdHigh | pdHighest | pdFileOrder

datatype task_tracker_status_dto = sdCannotConnect | sdNotWorking | sdWorking | sdUpdating

text \<open>The casts between the enumerations of the two layers go by number; both list the same names.\<close>

fun toDtoPriority :: "file_priority_level \<Rightarrow> task_priority_dto" where
  "toDtoPriority kNotDownloaded = pdNotDownloaded"
| "toDtoPriority kDoNotDownload = pdDoNotDownload"
| "toDtoPriority kNormal = pdNormal"
| "toDtoPriority kHigh = pdHigh"
| "toDtoPriority kHighest = pdHighest"
| "toDtoPriority kFileOrder = pdFileOrder"

fun mapTaskFilePriorityLevel :: "task_priority_dto \<Rightarrow> file_priority_level" where
  "mapTaskFilePriorityLevel pdNotDownloaded = kNotDownloaded"
| "mapTaskFilePriorityLevel pdDoNotDownload = kDoNotDownload"
| "mapTaskFilePriorityLevel pdNormal = kNormal"
| "mapTaskFilePriorityLevel pdHigh = kHigh"
| "mapTaskFilePriorityLevel pdHighest = kHighest"
| "mapTaskFilePriorityLevel pdFileOrder = kFileOrder"

fun toDtoStatus :: "tracker_status \<Rightarrow> task_tracker_status_dto" where
  "toDtoStatus kCannotConnect = sdCannotConnect"
| "toDtoStatus kNotWorking = sdNotWorking"
| "toDtoStatus kWorking = sdWorking"
| "toDtoStatus kUpdating = sdUpdating"

record task_file_entry_dto =
  fd_fileIndex :: int
  fd_logicalPath :: qstring
  fd_sizeBytes :: int
  fd_downloadedBytes :: int
  fd_progress01 :: real
  fd_availability :: real
  fd_priority :: task_priority_dto

record task_tracker_endpoint_dto =
  ed_ip :: qstring
  ed_port :: int
  ed_btProtocol :: qstring
  ed_status :: task_tracker_status_dto
  ed_users :: int
  ed_seeds :: int
  ed_downloads :: int
  ed_nextAnnounceSec :: int
  ed_minAnnounceSec :: int
  ed_message :: qstring

record task_tracker_row_dto =
  rd_url :: qstring
  rd_tier :: int
  rd_btProtocol :: qstring
  rd_status :: task_tracker_status_dto
  rd_users :: int
  rd_seeds :: int
  rd_downloads :: int
  rd_nextAnnounceSec :: int
  rd_minAnnounceSec :: int
  rd_message :: qstring
  rd_readOnly :: bool
  rd_endpoints :: "task_tracker_endpoint_dto list"

record task_tracker_snapshot_dto =
  ts_fixedRows :: "task_tracker_row_dto list"
  ts_trackers :: "task_tracker_row_dto list"

record task_peer_dto =
  pd_ip :: qstring
  pd_port :: int
  pd_client :: qstring
  pd_progress :: real
  pd_downloadRate :: int
  pd_uploadRate :: int
  pd_totalDownloaded :: int
  pd_totalUploaded :: int
  pd_flags :: qstring
  pd_connection :: qstring

record task_web_seed_dto =
  wd_url :: qstring
  wd_type :: qstring

definition mapTaskFiles :: "file_entry_snapshot list \<Rightarrow> task_file_entry_dto list" where
  "mapTaskFiles = map (\<lambda>src.
     \<lparr>fd_fileIndex = fe_fileIndex src, fd_logicalPath = fe_logicalPath src,
      fd_sizeBytes = fe_sizeBytes src, fd_downloadedBytes = fe_downloadedBytes src,
      fd_progress01 = fe_progress01 src, fd_availability = fe_availability src,
      fd_priority = toDtoPriority (fe_priority src)\<rparr>)"

definition mapEndpoints :: "tracker_endpoint_snapshot list \<Rightarrow> task_tracker_endpoint_dto list" where
  "mapEndpoints = map (\<lambda>src.
     \<lparr>ed_ip = te_ip src, ed_port = te_port src, ed_btProtocol = te_btProtocol src,
      ed_status = toDtoStatus (te_status src), ed_users = te_users src,
      ed_seeds = te_seeds src, ed_downloads = te_downloads src,
      ed_nextAnnounceSec = te_nextAnnounceSec src, ed_minAnnounceSec = te_minAnnounceSec src,
      ed_message = te_message src\<rparr>)"

definition mapRows :: "tracker_row_snapshot list \<Rightarrow> task_tracker_row_dto list" where
  "mapRows = map (\<lambda>src.
     \<lparr>rd_url = tr_url src, rd_tier = tr_tier src, rd_btProtocol = tr_btProtocol src,
      rd_status = toDtoStatus (tr_status src), rd_users = tr_users src,
      rd_seeds = tr_seeds src, rd_downloads = tr_downloads src,
      rd_nextAnnounceSec = tr_nextAnnounceSec src, rd_minAnnounceSec = tr_minAnnounceSec src,
      rd_message = tr_message src, rd_readOnly = tr_readOnly src,
      rd_endpoints = mapEndpoints (tr_endpoints src)\<rparr>)"

definition mapTaskTrackers :: "task_tracker_snapshot \<Rightarrow> task_tracker_snapshot_dto" where
  "mapTaskTrackers src =
     \<lparr>ts_fixedRows = mapRows (tt_fixedRows src), ts_trackers = mapRows (tt_trackers src)\<rparr>"

definition mapTaskPeers :: "peer_snapshot list \<Rightarrow> task_peer_dto list" where
  "mapTaskPeers = map (\<lambda>src.
     \<lparr>pd_ip = ps_ip src, pd_port = ps_port src, pd_client = ps_client src,
      pd_progress = ps_progress src, pd_downloadRate = ps_downloadRate src,
      pd_uploadRate = ps_uploadRate src, pd_totalDownloaded = ps_totalDownloaded src,
      pd_totalUploaded = ps_totalUploaded src, pd_flags = ps_flags src,
      pd_connection = ps_connection src\<rparr>)"

definition mapTaskWebSeeds :: "web_seed_snapshot list \<Rightarrow> task_web_seed_dto list" where
  "mapTaskWebSeeds = map (\<lambda>src. \<lparr>wd_url = ws_url src, wd_type = ws_type src\<rparr>)"

text \<open>
  The queries: the worker's answer is an argument, \<open>None\<close> when there is no worker; the pipeline is
  \<open>None\<close> when there is none.
\<close>

record ui_copy_payload =
  uc_name :: qstring
  uc_infoHashV1 :: qstring
  uc_infoHashV2 :: qstring
  uc_magnet :: qstring
  uc_torrentId :: qstring
  uc_comment :: qstring

definition queryCopyPayload :: "store option \<Rightarrow> task_id \<Rightarrow> copy_payload option \<Rightarrow> ui_copy_payload" where
  "queryCopyPayload pl i answer =
     (case answer of
        None \<Rightarrow> \<lparr>uc_name = [], uc_infoHashV1 = [], uc_infoHashV2 = [], uc_magnet = [], uc_torrentId = [], uc_comment = []\<rparr>
      | Some payload \<Rightarrow>
          \<lparr>uc_name = (case pl of None \<Rightarrow> [] | Some st \<Rightarrow>
                        (case service_snapshot st i of Some s \<Rightarrow> s_name s | None \<Rightarrow> [])),
           uc_infoHashV1 = cp_infoHashV1 payload, uc_infoHashV2 = cp_infoHashV2 payload,
           uc_magnet = cp_magnet payload,
           uc_torrentId = (if cp_torrentId payload = [] then taskIdKey i else cp_torrentId payload),
           uc_comment = cp_comment payload\<rparr>)"

definition uc_queryTaskFiles :: "file_entry_snapshot list option \<Rightarrow> task_file_entry_dto list" where
  "uc_queryTaskFiles answer = (case answer of None \<Rightarrow> [] | Some x \<Rightarrow> mapTaskFiles x)"

definition uc_queryTaskTrackers :: "task_tracker_snapshot option \<Rightarrow> task_tracker_snapshot_dto" where
  "uc_queryTaskTrackers answer =
     (case answer of None \<Rightarrow> \<lparr>ts_fixedRows = [], ts_trackers = []\<rparr> | Some x \<Rightarrow> mapTaskTrackers x)"

definition uc_queryTaskPeers :: "peer_snapshot list option \<Rightarrow> task_peer_dto list" where
  "uc_queryTaskPeers answer = (case answer of None \<Rightarrow> [] | Some x \<Rightarrow> mapTaskPeers x)"

definition uc_queryTaskWebSeeds :: "web_seed_snapshot list option \<Rightarrow> task_web_seed_dto list" where
  "uc_queryTaskWebSeeds answer = (case answer of None \<Rightarrow> [] | Some x \<Rightarrow> mapTaskWebSeeds x)"

lemma priority_cast [simp]: "mapTaskFilePriorityLevel (toDtoPriority p) = p"
  by (cases p) simp_all

section \<open>Timers\<close>

record refresh_scheduler =
  rf_interval :: int
  rf_pending :: bool
  rf_active :: bool        \<comment> \<open>the single-shot timer runs\<close>
  rf_fn :: bool            \<comment> \<open>a refresh function is set\<close>
  rf_fired :: nat          \<comment> \<open>how often it was called\<close>

definition new_refresh_scheduler :: "int \<Rightarrow> bool \<Rightarrow> refresh_scheduler" where
  "new_refresh_scheduler ms fn = \<lparr>rf_interval = ms, rf_pending = False, rf_active = False, rf_fn = fn, rf_fired = 0\<rparr>"

definition requestRefresh :: "refresh_scheduler \<Rightarrow> refresh_scheduler" where
  "requestRefresh r = r\<lparr>rf_pending := True, rf_active := True\<rparr>"

definition refresh_timeout :: "refresh_scheduler \<Rightarrow> refresh_scheduler" where
  \<comment> \<open>the timer, if it runs, stops and its handler is called\<close>
  "refresh_timeout r =
     (if \<not> rf_active r then r
      else let r1 = r\<lparr>rf_active := False\<rparr> in
        if \<not> rf_pending r1 \<or> \<not> rf_fn r1 then r1
        else r1\<lparr>rf_pending := False, rf_fired := rf_fired r1 + 1\<rparr>)"

definition rf_setInterval :: "int \<Rightarrow> refresh_scheduler \<Rightarrow> refresh_scheduler" where
  "rf_setInterval ms r = r\<lparr>rf_interval := ms\<rparr>"

definition resumeIntervalFromTaskIntervalMs :: "int \<Rightarrow> int" where
  \<comment> \<open>the settings keep the interval at most 60000, far from the overflow of the product\<close>
  "resumeIntervalFromTaskIntervalMs n = clamp (max 2000 n * 10) 30000 300000"

record persistence_timers =
  pt_intervalMs :: int
  pt_saveResume :: bool                \<comment> \<open>a function that saves the resume data is set\<close>
  pt_taskTimer :: "int option"         \<comment> \<open>the interval of the timer, once it exists\<close>
  pt_resumeTimer :: "int option"

definition setAutoSaveIntervalMs :: "int \<Rightarrow> persistence_timers \<Rightarrow> persistence_timers" where
  "setAutoSaveIntervalMs n p =
     (let ms = max 2000 n in
      p\<lparr>pt_intervalMs := ms, pt_taskTimer := map_option (\<lambda>_. ms) (pt_taskTimer p),
        pt_resumeTimer := (if pt_saveResume p then map_option (\<lambda>_. resumeIntervalFromTaskIntervalMs ms) (pt_resumeTimer p)
                           else pt_resumeTimer p)\<rparr>)"

definition startAutoSave :: "persistence_timers \<Rightarrow> persistence_timers" where
  "startAutoSave p =
     p\<lparr>pt_taskTimer := Some (pt_intervalMs p),
       pt_resumeTimer := (if pt_saveResume p then Some (resumeIntervalFromTaskIntervalMs (pt_intervalMs p))
                          else pt_resumeTimer p)\<rparr>"

definition saveNow :: "('s \<Rightarrow> 's) option \<Rightarrow> ('s \<Rightarrow> 's) option \<Rightarrow> 's \<Rightarrow> 's" where
  "saveNow saveTasks saveResume s =
     (let s1 = (case saveTasks of None \<Rightarrow> s | Some f \<Rightarrow> f s) in (case saveResume of None \<Rightarrow> s1 | Some f \<Rightarrow> f s1))"

definition saveTasksNow :: "('s \<Rightarrow> 's) option \<Rightarrow> 's \<Rightarrow> 's" where
  "saveTasksNow saveTasks s = (case saveTasks of None \<Rightarrow> s | Some f \<Rightarrow> f s)"

record throttler =
  th_interval_ms :: int
  th_last_fired_ms :: int
  th_has_fired :: bool

definition new_throttler :: "int \<Rightarrow> throttler" where
  "new_throttler ms = \<lparr>th_interval_ms = (if ms > 0 then ms else 1), th_last_fired_ms = 0, th_has_fired = False\<rparr>"

definition shouldFire :: "int \<Rightarrow> throttler \<Rightarrow> bool" where
  "shouldFire now t \<longleftrightarrow> (if \<not> th_has_fired t then True else now - th_last_fired_ms t \<ge> th_interval_ms t)"

definition markFired :: "int \<Rightarrow> throttler \<Rightarrow> throttler" where
  "markFired now t = t\<lparr>th_last_fired_ms := now, th_has_fired := True\<rparr>"

definition th_reset :: "throttler \<Rightarrow> throttler" where
  "th_reset t = t\<lparr>th_last_fired_ms := 0, th_has_fired := False\<rparr>"

record 'f debouncer =
  db_delay_ms :: int
  db_pending :: "'f option"
  db_timer :: "int option"      \<comment> \<open>the interval of the timer while it runs\<close>

definition new_debouncer :: "int \<Rightarrow> 'f debouncer" where
  "new_debouncer ms = \<lparr>db_delay_ms = (if ms > 0 then ms else 1), db_pending = None, db_timer = None\<rparr>"

definition schedule :: "'f \<Rightarrow> 'f debouncer \<Rightarrow> 'f debouncer" where
  "schedule fn d = d\<lparr>db_pending := Some fn, db_timer := Some (sint (word_of_int (db_delay_ms d) :: 32 word))\<rparr>"

definition db_cancel :: "'f debouncer \<Rightarrow> 'f debouncer" where
  "db_cancel d = d\<lparr>db_pending := None, db_timer := None\<rparr>"

definition setDelay :: "int \<Rightarrow> 'f debouncer \<Rightarrow> 'f debouncer" where
  "setDelay ms d = d\<lparr>db_delay_ms := (if ms > 0 then ms else 1)\<rparr>"

definition onTimeout :: "'f debouncer \<Rightarrow> 'f option \<times> 'f debouncer" where
  \<comment> \<open>what is called, if the timer runs out\<close>
  "onTimeout d =
     (if db_timer d = None then (None, d)
      else (db_pending d, d\<lparr>db_pending := None, db_timer := None\<rparr>))"

definition clock_nowMs :: "int option \<Rightarrow> int \<Rightarrow> int" where
  \<comment> \<open>the reading of the provider, if there is one, or the system time\<close>
  "clock_nowMs provided currentMs = (case provided of Some t \<Rightarrow> t | None \<Rightarrow> currentMs)"

section \<open>What the use cases do\<close>

datatype meta_cmd =
    MoveTask qstring | RenameTask qstring | UpdateCategory qstring | UpdateTags "qstring list"
  | UpsertMeta qstring qstring qstring qstring

fun run_meta :: "input_env \<Rightarrow> 's consumer \<Rightarrow> task_id \<Rightarrow> meta_cmd \<Rightarrow> 's logged \<Rightarrow> bool \<times> 's logged" where
  "run_meta E f i (MoveTask p) = moveTask E f i p"
| "run_meta E f i (RenameTask n) = renameTask f i n"
| "run_meta E f i (UpdateCategory c) = updateCategory f i c"
| "run_meta E f i (UpdateTags ts) = updateTags f i ts"
| "run_meta E f i (UpsertMeta n p c t) = upsertMeta f i n p c t"

fun meta_error :: "input_env \<Rightarrow> meta_cmd \<Rightarrow> err" where
  "meta_error E (MoveTask p) = validatePath E p"
| "meta_error E (RenameTask n) = Error0"
| "meta_error E (UpdateCategory c) = validateCategory c"
| "meta_error E (UpdateTags ts) = validateTagsCsv (join (qs '','') ts)"
| "meta_error E (UpsertMeta n p c t) = Error0"

text \<open>The new values for name, path, category and tags; an empty one keeps the old value.\<close>

fun meta_values :: "meta_cmd \<Rightarrow> qstring \<times> qstring \<times> qstring \<times> qstring" where
  "meta_values (MoveTask p) = ([], p, [], [])"
| "meta_values (RenameTask n) = (n, [], [], [])"
| "meta_values (UpdateCategory c) = ([], [], c, [])"
| "meta_values (UpdateTags ts) = ([], [], [], join (qs '','') ts)"
| "meta_values (UpsertMeta n p c t) = (n, p, c, t)"

fun edited :: "qstring \<times> qstring \<times> qstring \<times> qstring \<Rightarrow> task_snapshot \<Rightarrow> task_snapshot" where
  "edited (n, p, c, t) s = s\<lparr>s_name := str_or n (s_name s), s_savePath := str_or p (s_savePath s),
     s_category := str_or c (s_category s), s_tags := str_or t (s_tags s)\<rparr>"

lemma hasError_Error0 [simp]: "\<not> hasError Error0"
  by (simp add: hasError_def isSuccess_def Error0_def)

lemmas meta_use_case_defs = moveTask_def renameTask_def updateCategory_def updateTags_def upsertMeta_def

lemma run_meta_rejected:
  "hasError (meta_error E c) \<Longrightarrow> \<exists>m. run_meta E f i c s = (False, fst s, snd s @ [m])"
  by (cases c) (simp_all add: meta_use_case_defs log_error_def Let_def)

lemma run_meta_accepted:
  "\<not> hasError (meta_error E c) \<Longrightarrow>
   run_meta E f i c s = (case meta_values c of (n, p, k, t) \<Rightarrow> applyMeta f i n p k t s)"
  by (cases c) (simp_all add: meta_use_case_defs Let_def)

lemma snapshot_applyEvent:
  "snapshot (applyEvent clk e st) k =
     (if k = e_taskId e then task_step (clk, e) (snapshot st k) else snapshot st k)"
  using snapshot_store_step [of "(clk, e)" st k] by (simp add: store_step_def event_key_def)

lemma upsert_event_step:
  "task_step (clk, default_event\<lparr>e_type := kUpsertMeta, e_taskId := i, e_name := n, e_savePath := p,
       e_category := c, e_tags := t\<rparr>) (Some s) =
   Some ((edited (n, p, c, t) s)\<lparr>s_lastUpdatedMs := snd clk\<rparr>)"
  by (simp add: apply_payload_def apply_upsert_meta_def default_event_def str_or_def num_or_def
      pickEventTimeOrNow_def isValidMs_def invalidMs_def)


text \<open>The refresh scheduler: every request is answered, and many requests by one refresh.\<close>

datatype rf_op = RfRequest | RfTimeout | RfInterval int

fun rf_step :: "rf_op \<Rightarrow> refresh_scheduler \<Rightarrow> refresh_scheduler" where
  "rf_step RfRequest = requestRefresh"
| "rf_step RfTimeout = refresh_timeout"
| "rf_step (RfInterval ms) = rf_setInterval ms"

lemmas rf_defs = requestRefresh_def refresh_timeout_def rf_setInterval_def new_refresh_scheduler_def Let_def

lemma rf_run_inv:
  assumes "rf_fn r" and "rf_pending r = rf_active r"
  shows "(let r' = fold rf_step ops r in rf_fn r' \<and> rf_pending r' = rf_active r' \<and>
     rf_fired r' + (if rf_pending r' then 1 else 0) \<le>
       rf_fired r + (if rf_pending r then 1 else 0) + count_list ops RfRequest)"
  using assms
proof (induction ops arbitrary: r)
  case (Cons x ops)
  have "rf_fn (rf_step x r)" "rf_pending (rf_step x r) = rf_active (rf_step x r)"
    using Cons.prems by (cases x; simp add: rf_defs)+
  from Cons.IH [OF this] Cons.prems show ?case
    by (cases x) (auto simp: rf_defs split: if_splits)
qed (simp add: Let_def)

text \<open>
  The refresh scheduler never loses a request and never refreshes in vain: in every run of requests,
  timeouts and changes of the interval, a request leaves the timer running, the timeout after it calls the
  refresh function once, a timeout without a request does not, and there are no more refreshes than requests.
\<close>

theorem refresh_never_lost:
  "let r = fold rf_step ops (new_refresh_scheduler ms True) in
     rf_pending r = rf_active r \<and> rf_pending (requestRefresh r) \<and> rf_active (requestRefresh r) \<and>
     rf_fired (refresh_timeout (requestRefresh r)) = rf_fired r + 1 \<and>
     rf_fired (refresh_timeout r) = rf_fired r + (if rf_pending r then 1 else 0) \<and>
     \<not> rf_pending (refresh_timeout r) \<and>
     rf_fired r + (if rf_pending r then 1 else 0) \<le> count_list ops RfRequest"
proof -
  define r where "r = fold rf_step ops (new_refresh_scheduler ms True)"
  have new: "rf_fn (new_refresh_scheduler ms True)" "\<not> rf_pending (new_refresh_scheduler ms True)"
    "\<not> rf_active (new_refresh_scheduler ms True)" "rf_fired (new_refresh_scheduler ms True) = 0"
    by (simp_all add: new_refresh_scheduler_def)
  have "rf_fn r \<and> rf_pending r = rf_active r \<and>
      rf_fired r + (if rf_pending r then 1 else 0) \<le> count_list ops RfRequest"
    using rf_run_inv [OF new(1), of ops] new unfolding r_def [symmetric] by (auto simp: Let_def)
  then show ?thesis
    unfolding r_def [symmetric] by (auto simp: Let_def requestRefresh_def refresh_timeout_def split: if_splits)
qed

text \<open>A debouncer calls at most the last function scheduled; a throttler keeps its distance.\<close>

lemma debounce_last: "fst (onTimeout (schedule f d)) = Some f" "fst (onTimeout (db_cancel d)) = None"
  "fst (onTimeout (snd (onTimeout d))) = None"
  by (simp_all add: onTimeout_def schedule_def db_cancel_def)

lemma throttle_distance:
  "shouldFire t2 (markFired t1 th) \<longleftrightarrow> t1 + th_interval_ms th \<le> t2"
  by (auto simp: shouldFire_def markFired_def)

lemma resume_interval_bounds:
  "30000 \<le> resumeIntervalFromTaskIntervalMs n" "resumeIntervalFromTaskIntervalMs n \<le> 300000"
  by (simp_all add: resumeIntervalFromTaskIntervalMs_def clamp_bounds)

definition sample_task :: task_snapshot where
  "sample_task = default_snapshot\<lparr>s_taskId := uid 1, s_category := qs ''old''\<rparr>"

definition plain_input :: input_env where
  "plain_input = \<lparr>in_lower = ascii_lower, in_fold = ascii_lower1, in_scheme = (\<lambda>_. None), in_clean = (\<lambda>p. p)\<rparr>"


end
