(* ===== verification/TaskRestore.thy ===== *)
theory TaskRestore
  imports AppTasks RssRepository
begin

text \<open>
  The task list across restarts: \<open>savePersistedTasks\<close>, \<open>saveResumeData\<close> and \<open>loadPersistedTasks\<close> of
  \<open>app_controller.cc\<close>. The state is what these functions touch: the queue of the worker, the task
  store, the magnet links known per task, the last text written, the timers that pause a task later,
  and the disk. The order of the hash map of the loaded tasks and the listing of the resume directory
  are arguments, the listing empty where the directory does not exist.
\<close>

section \<open>The state\<close>

record restore_env =
  pv_files :: file_env
  pv_json :: json_codec
  pv_lt :: lt_env
  pv_paths :: path_env
  pv_clock :: clock                            \<comment> \<open>every event of the restoration reads this time\<close>
  pv_uuid :: "qstring \<Rightarrow> task_id"              \<comment> \<open>\<open>QUuid::fromString\<close> of the key in braces, the null id on failure\<close>
  pv_tasks_path :: qstring
  pv_resume_path :: "qstring \<Rightarrow> qstring"       \<comment> \<open>the resume file of a task key\<close>
  pv_resume_dir :: qstring
  pv_order :: "(qstring \<times> (qstring \<times> json) list) list \<Rightarrow> (qstring \<times> (qstring \<times> json) list) list"

record app_tasks =
  pz_session :: session
  pz_store :: store
  pz_magnets :: "(qstring \<times> qstring) list"    \<comment> \<open>\<open>knownTaskMagnets_\<close>\<close>
  pz_last :: bytes                             \<comment> \<open>\<open>lastPersistedTasksJson_\<close>\<close>
  pz_timers :: "task_id list"                  \<comment> \<open>tasks a single-shot timer will pause\<close>
  pz_disk :: disk
  pz_default_dir :: qstring
  pz_restore_paused :: bool                    \<comment> \<open>\<open>restoreStartPaused_\<close>\<close>

definition kTasksJsonVersion :: int where "kTasksJsonVersion = 1"

fun status_int :: "task_status \<Rightarrow> int" where
  "status_int stUnknown = 0"
| "status_int stQueued = 1"
| "status_int stChecking = 2"
| "status_int stDownloading = 3"
| "status_int stSeeding = 4"
| "status_int stPaused = 5"
| "status_int stFinished = 6"
| "status_int stError = 7"

definition upsertKnownTaskMagnet :: "task_id \<Rightarrow> qstring \<Rightarrow> app_tasks \<Rightarrow> app_tasks" where
  "upsertKnownTaskMagnet i magnet st =
     (if isNull i \<or> trimmed magnet = [] then st
      else st\<lparr>pz_magnets := AList.update (taskIdKey i) (trimmed magnet) (pz_magnets st)\<rparr>)"

definition applyTaskMetaUpdate ::
  "restore_env \<Rightarrow> task_id \<Rightarrow> qstring \<Rightarrow> qstring \<Rightarrow> qstring \<Rightarrow> qstring \<Rightarrow> app_tasks \<Rightarrow> app_tasks" where
  "applyTaskMetaUpdate E i name savePath category tagsCsv st =
     st\<lparr>pz_store := fst (snd (upsertMeta (Some (service_consume (pv_clock E))) i name savePath category tagsCsv
                              (pz_store st, [])))\<rparr>"

section \<open>Saving\<close>

definition task_json :: "app_tasks \<Rightarrow> task_snapshot \<Rightarrow> (qstring \<times> json) list" where
  "task_json st s =
     [(qs ''task_id'', JStr (taskIdKey (s_taskId s)))] @
     (case map_of (pz_magnets st) (taskIdKey (s_taskId s)) of
        None \<Rightarrow> []
      | Some m \<Rightarrow> if trimmed m = [] then [] else [(qs ''magnet'', JStr m)]) @
     [(qs ''name'', JStr (s_name s)), (qs ''save_path'', JStr (s_savePath s)),
      (qs ''category'', JStr (s_category s)), (qs ''tags'', JStr (s_tags s)),
      (qs ''status'', JNum (status_int (s_status s))), (qs ''last_updated_ms'', JNum (s_lastUpdatedMs s))]"

definition tasks_json :: "restore_env \<Rightarrow> app_tasks \<Rightarrow> bytes" where
  "tasks_json E st =
     (let arr = JArr (map (\<lambda>s. JObj (task_json st s)) (service_snapshots (pz_store st)));
          payload = jc_compact (pv_json E) arr in
      jc_indented (pv_json E)
        (JObj [(qs ''version'', JNum kTasksJsonVersion), (qs ''checksum'', JStr (sha256Hex (pv_json E) payload)),
               (qs ''tasks'', arr)]))"

definition savePersistedTasks :: "restore_env \<Rightarrow> app_tasks \<Rightarrow> app_tasks" where
  "savePersistedTasks E st =
     (let out = tasks_json E st in
      if out = pz_last st then st
      else case writeWholeFileWithBackup (pv_files E) (pv_tasks_path E) out (pz_disk st) of
             (e, d) \<Rightarrow> if hasError e then st\<lparr>pz_disk := d\<rparr> else st\<lparr>pz_disk := d, pz_last := out\<rparr>)"

definition saveResumeData :: "restore_env \<Rightarrow> promise \<Rightarrow> qstring list \<Rightarrow> app_tasks \<Rightarrow> app_tasks" where
  \<comment> \<open>the listing is that of the directory after the worker has answered\<close>
  "saveResumeData E p listing st =
     (if pv_resume_dir E = [] then st
      else let snaps = service_snapshots (pz_store st);
               st1 = (if snaps \<noteq> [] then st\<lparr>pz_session := saveAllResumeData (pv_resume_dir E) p (pz_session st)\<rparr> else st);
               active = map (\<lambda>s. taskIdKey (s_taskId s)) snaps in
        st1\<lparr>pz_disk := fold (\<lambda>k d. if k \<in> set active then d else remove_file (pv_files E) (pv_resume_path E k) d)
              listing (pz_disk st1)\<rparr>)"

section \<open>Loading\<close>

definition tasks_array :: "restore_env \<Rightarrow> json \<Rightarrow> json list option" where
  \<comment> \<open>\<open>None\<close> when the stored checksum is not that of the tasks\<close>
  "tasks_array E doc =
     (case doc of
        JObj env \<Rightarrow>
          (let arr = j_array (json_field ''tasks'' env);
               stored = trimmed (j_string (json_field ''checksum'' env)) in
           if stored \<noteq> [] \<and> sha256Hex (pv_json E) (jc_compact (pv_json E) (JArr arr)) \<noteq> stored then None
           else Some arr)
      | JArr arr \<Rightarrow> Some arr
      | _ \<Rightarrow> Some [])"

definition meta_by_key :: "json list \<Rightarrow> (qstring \<times> (qstring \<times> json) list) list" where
  "meta_by_key arr =
     fold (\<lambda>fs m. let key = trimmed (j_string (json_field ''task_id'' fs)) in
             if key = [] then m else AList.update key fs m)
       (List.map_filter j_object arr) []"

definition load_meta :: "restore_env \<Rightarrow> disk \<Rightarrow> (qstring \<times> (qstring \<times> json) list) list" where
  "load_meta E d =
     (let result = readWholeFileWithRecovery (pv_files E) d (pv_tasks_path E) in
      if hasError (rr_error result) \<or> rr_data result = [] then []
      else case jc_parse (pv_json E) (rr_data result) of
             None \<Rightarrow> []
           | Some doc \<Rightarrow> (case tasks_array E doc of None \<Rightarrow> [] | Some arr \<Rightarrow> meta_by_key arr))"

definition should_pause :: "bool \<Rightarrow> (qstring \<times> json) list \<Rightarrow> bool" where
  \<comment> \<open>the cast to the 8-bit enumeration takes the last byte\<close>
  "should_pause start_paused fs =
     (let n = j_int (- 1) (json_field ''status'' fs) in
      if 0 \<le> n then n mod 256 \<in> {status_int stPaused, status_int stFinished, status_int stError} else start_paused)"

definition field :: "string \<Rightarrow> (qstring \<times> json) list \<Rightarrow> qstring" where
  "field key fs = trimmed (j_string (json_field key fs))"

fun restore_resume ::
  "restore_env \<Rightarrow> (qstring \<times> (qstring \<times> json) list) list \<Rightarrow> qstring list \<Rightarrow> qstring list \<times> app_tasks \<Rightarrow>
   qstring list \<times> app_tasks" where
  \<comment> \<open>phase 2: the resume files, and the keys restored from them\<close>
  "restore_resume E meta [] acc = acc"
| "restore_resume E meta (key # ks) (restored, st) =
     restore_resume E meta ks
       (case map_of meta key of
          None \<Rightarrow> (restored, st)
        | Some fs \<Rightarrow>
            (case readWholeFile (pv_files E) (pz_disk st) (pv_resume_path E key) of
               (data, e) \<Rightarrow>
                 if hasError e \<or> data = [] then (restored, st)
                 else
                   let st1 = st\<lparr>pz_session := addFromResumeData data (should_pause (pz_restore_paused st) fs) (pz_session st)\<rparr>;
                       i = pv_uuid E key in
                   (restored @ [key],
                    if isNull i then st1
                    else applyTaskMetaUpdate E i (field ''name'' fs) (field ''save_path'' fs) (field ''category'' fs)
                           (field ''tags'' fs)
                           (if field ''magnet'' fs \<noteq> [] then upsertKnownTaskMagnet i (field ''magnet'' fs) st1 else st1))))"

fun restore_magnets ::
  "restore_env \<Rightarrow> qstring list \<Rightarrow> (qstring \<times> (qstring \<times> json) list) list \<Rightarrow> app_tasks \<Rightarrow> app_tasks" where
  \<comment> \<open>phase 3: the magnet links of the tasks that are left\<close>
  "restore_magnets E restored [] st = st"
| "restore_magnets E restored ((key, fs) # ms) st =
     restore_magnets E restored ms
       (if key \<in> set restored \<or> field ''magnet'' fs = [] then st
        else case lt_parse_magnet (pv_lt E) (field ''magnet'' fs) of
               Inl _ \<Rightarrow> st
             | Inr atp \<Rightarrow>
                 let i = task_of_hashes (pv_lt E) (at_info_hashes atp);
                     st1 = upsertKnownTaskMagnet i (field ''magnet'' fs) st;
                     st2 = st1\<lparr>pz_session := addMagnet (field ''magnet'' fs)
                             (resolve (pv_paths E) (pz_default_dir st1) (field ''save_path'' fs)) [] (pz_session st1)\<rparr>;
                     st3 = (if should_pause (pz_restore_paused st2) fs then st2\<lparr>pz_timers := pz_timers st2 @ [i]\<rparr> else st2) in
                 applyTaskMetaUpdate E i (field ''name'' fs) (field ''save_path'' fs) (field ''category'' fs)
                   (field ''tags'' fs) st3)"

definition loadPersistedTasks :: "restore_env \<Rightarrow> qstring list \<Rightarrow> app_tasks \<Rightarrow> app_tasks" where
  "loadPersistedTasks E listing st =
     (let meta = load_meta E (pz_disk st);
          (restored, st1) = restore_resume E meta listing ([], st) in
      restore_magnets E restored (pv_order E meta) st1)"

section \<open>What a restart restores\<close>

definition restore_env_ok :: "restore_env \<Rightarrow> bool" where
  "restore_env_ok E \<longleftrightarrow> codec_ok (pv_json E) \<and> pv_files E = no_faults \<and> (\<forall>ms. mset (pv_order E ms) = mset ms)"

definition last_on_disk :: "restore_env \<Rightarrow> app_tasks \<Rightarrow> bool" where
  \<comment> \<open>the text remembered as written is the one on the disk\<close>
  "last_on_disk E st \<longleftrightarrow> pz_last st = [] \<or> pz_disk st (pv_tasks_path E) = Some (pz_last st)"

definition tasks_ok :: "app_tasks \<Rightarrow> bool" where
  \<comment> \<open>the tasks of the store have their own identifiers, of 16 bytes\<close>
  "tasks_ok st \<longleftrightarrow> distinct (map s_taskId (snapshots (pz_store st))) \<and>
     list_all (\<lambda>s. length (s_taskId s) = 16) (snapshots (pz_store st))"

abbreviation key_of :: "task_snapshot \<Rightarrow> qstring" where
  "key_of s \<equiv> taskIdKey (s_taskId s)"

definition stopped :: "task_snapshot \<Rightarrow> bool" where
  "stopped s \<longleftrightarrow> s_status s = stPaused \<or> s_status s = stFinished \<or> s_status s = stError"

definition resume_command :: "restore_env \<Rightarrow> app_tasks \<Rightarrow> disk \<Rightarrow> qstring \<Rightarrow> cmd option" where
  \<comment> \<open>what restores a task from its resume file\<close>
  "resume_command E st d key =
     (case (List.find (\<lambda>s. key_of s = key) (snapshots (pz_store st)), d (pv_resume_path E key)) of
        (Some s, Some data) \<Rightarrow> if data = [] then None else Some (AddFromResumeDataCmd data (stopped s))
      | _ \<Rightarrow> None)"

definition magnet_restore ::
  "restore_env \<Rightarrow> app_tasks \<Rightarrow> qstring \<Rightarrow> qstring set \<Rightarrow> task_snapshot \<Rightarrow> (cmd \<times> task_id option) option" where
  \<comment> \<open>what restores a task that was not resumed from its magnet link: the command, and the task to pause later\<close>
  "magnet_restore E st dir resumed s =
     (case map_of (pz_magnets st) (key_of s) of
        None \<Rightarrow> None
      | Some m \<Rightarrow>
          if key_of s \<in> resumed \<or> trimmed m = [] then None
          else case lt_parse_magnet (pv_lt E) (trimmed m) of
                 Inl _ \<Rightarrow> None
               | Inr atp \<Rightarrow>
                   Some (AddMagnetCmd (trimmed m) (resolve (pv_paths E) dir (trimmed (s_savePath s))) [],
                         if stopped s then Some (task_of_hashes (pv_lt E) (at_info_hashes atp)) else None))"

lemma hex_digit_no_space:
  assumes "d < 16"
  shows "\<not> is_space (hex_digit d)"
proof -
  have "unat d < 16" using assms by (simp add: word_less_nat_alt)
  then have "d \<in> set (map of_nat [0..<16])"
    by (metis atLeastLessThan_iff imageI list.set_map of_nat_unat set_upt ucast_id zero_le)
  then show ?thesis
    by (simp add: upt_conv_Cons hex_digit_def) (elim disjE; simp add: is_space_def)
qed

lemma hex_bytes_no_space: "list_all (\<lambda>c. \<not> is_space c) (hex_bytes b)"
  by (induction b) (simp_all add: hex_bytes_def hex2_def hex_digit_no_space high_nibble low_nibble)

lemma trimmed_no_space: "list_all (\<lambda>c. \<not> is_space c) s \<Longrightarrow> trimmed s = s"
proof -
  have drop: "list_all (\<lambda>c. \<not> is_space c) s \<Longrightarrow> dropWhile is_space s = s" for s
    by (cases s) simp_all
  show "list_all (\<lambda>c. \<not> is_space c) s \<Longrightarrow> trimmed s = s"
    by (simp add: trimmed_def drop)
qed

lemma taskIdKey_text [simp]: "trimmed (taskIdKey i) = taskIdKey i" "taskIdKey i \<noteq> []"
proof -
  have "\<not> is_space 0x2D" by (simp add: is_space_def)
  then show "trimmed (taskIdKey i) = taskIdKey i"
    by (intro trimmed_no_space) (simp add: taskIdKey_def hex_bytes_no_space)
qed (simp add: taskIdKey_def)

lemma distinct_keys: "tasks_ok st \<Longrightarrow> distinct (map key_of (snapshots (pz_store st)))"
  by (auto simp: tasks_ok_def distinct_map inj_on_def list_all_iff dest!: taskIdKey_inj)

lemma status_int_stopped: "status_int x \<in> {status_int stPaused, status_int stFinished, status_int stError} \<longleftrightarrow>
    x = stPaused \<or> x = stFinished \<or> x = stError"
  by (cases x) simp_all

lemma status_int_j [simp]: "j_int d (JNum (status_int x)) = status_int x" "0 \<le> status_int x"
  "status_int x mod 256 = status_int x"
  by (cases x; simp)+

lemma task_json_fields:
  "json_field ''task_id'' (task_json st s) = JStr (key_of s)"
  "json_field ''save_path'' (task_json st s) = JStr (s_savePath s)"
  "json_field ''status'' (task_json st s) = JNum (status_int (s_status s))"
  by (cases "map_of (pz_magnets st) (key_of s)"; simp add: task_json_def qs_def; fail)+

lemma task_json_magnet:
  "field ''magnet'' (task_json st s) =
     (case map_of (pz_magnets st) (key_of s) of None \<Rightarrow> [] | Some m \<Rightarrow> trimmed m)"
  by (cases "map_of (pz_magnets st) (key_of s)") (simp_all add: field_def task_json_def qs_def)

lemma should_pause_saved: "should_pause b (task_json st s) = stopped s"
  using status_int_stopped [of "s_status s"]
  by (simp add: should_pause_def task_json_fields stopped_def Let_def del: j_int.simps)

lemma map_filter_objects: "List.map_filter j_object (map (\<lambda>s. JObj (f s)) xs) = map f xs"
  by (induction xs) (simp_all add: List.map_filter_def)

lemma AList_update_new: "k \<notin> fst ` set m \<Longrightarrow> AList.update k v m = m @ [(k, v)]"
  by (induction m) auto

lemma meta_by_key_saved:
  assumes "distinct (map k xs)" and "\<And>x. x \<in> set xs \<Longrightarrow> json_field ''task_id'' (f x) = JStr (k x) \<and> trimmed (k x) = k x \<and> k x \<noteq> []"
  shows "meta_by_key (map (\<lambda>s. JObj (f s)) xs) = map (\<lambda>x. (k x, f x)) xs"
proof -
  have "fold (\<lambda>fs m. let key = trimmed (j_string (json_field ''task_id'' fs)) in
             if key = [] then m else AList.update key fs m) (map f xs) m = m @ map (\<lambda>x. (k x, f x)) xs"
    if "k ` set xs \<inter> fst ` set m = {}" for m
    using assms that
  proof (induction xs arbitrary: m)
    case (Cons x xs)
    have new: "AList.update (k x) (f x) m = m @ [(k x, f x)]"
      using Cons.prems(3) by (intro AList_update_new) auto
    have "k ` set xs \<inter> fst ` set (m @ [(k x, f x)]) = {}"
      using Cons.prems(1,3) by auto
    with Cons.IH [of "m @ [(k x, f x)]"] Cons.prems(1,2) new show ?case by simp
  qed simp
  from this [of "[]"] show ?thesis by (simp add: meta_by_key_def map_filter_objects)
qed

definition saved_fields :: "app_tasks \<Rightarrow> (qstring \<times> (qstring \<times> json) list) list" where
  "saved_fields st = map (\<lambda>s. (key_of s, task_json st s)) (snapshots (pz_store st))"

lemma load_after_save:
  assumes "restore_env_ok E" and "last_on_disk E st" and "tasks_ok st"
  shows "load_meta E (pz_disk (savePersistedTasks E st)) = saved_fields st"
proof -
  let ?arr = "map (\<lambda>s. JObj (task_json st s)) (snapshots (pz_store st))"
  obtain c where out: "tasks_json E st = jc_indented (pv_json E)
      (JObj [(qs ''version'', JNum kTasksJsonVersion), (qs ''checksum'', JStr c), (qs ''tasks'', JArr ?arr)])"
    and c: "c = sha256Hex (pv_json E) (jc_compact (pv_json E) (JArr ?arr))"
    by (simp add: tasks_json_def service_snapshots_def Let_def)
  have J: "codec_ok (pv_json E)" and F: "pv_files E = no_faults" using assms(1) by (simp_all add: restore_env_ok_def)
  have ne: "tasks_json E st \<noteq> []" using J by (simp add: out codec_ok_def)
  have err: "\<not> hasError (fst (writeWholeFileWithBackup no_faults p d m))" for p d m
    by (simp add: writeWholeFileWithBackup_def writeWholeFile_def no_faults_def)
  have disk: "pz_disk (savePersistedTasks E st) (pv_tasks_path E) = Some (tasks_json E st)"
    using assms(2) ne write_backup_paths(1) [of "pv_tasks_path E" "tasks_json E st" "pz_disk st"]
      err [of "pv_tasks_path E" "tasks_json E st" "pz_disk st"]
    by (auto simp: savePersistedTasks_def Let_def F last_on_disk_def split: prod.splits)
  have "meta_by_key ?arr = saved_fields st"
    unfolding saved_fields_def
    by (rule meta_by_key_saved [OF distinct_keys [OF assms(3)]]) (simp add: task_json_fields)
  then show ?thesis
    using J recovery_primary [of "pz_disk (savePersistedTasks E st)" "pv_tasks_path E", OF disk ne]
    by (simp add: load_meta_def F Let_def out codec_ok_def tasks_array_def c qs_def sha256Hex_def)
qed

text \<open>What the two phases add to the queue.\<close>

lemma upsertKnownTaskMagnet_other [simp]:
  "pz_session (upsertKnownTaskMagnet i m st) = pz_session st" "pz_disk (upsertKnownTaskMagnet i m st) = pz_disk st"
  "pz_timers (upsertKnownTaskMagnet i m st) = pz_timers st"
  "pz_default_dir (upsertKnownTaskMagnet i m st) = pz_default_dir st"
  "pz_restore_paused (upsertKnownTaskMagnet i m st) = pz_restore_paused st"
  by (simp_all add: upsertKnownTaskMagnet_def)

lemma applyTaskMetaUpdate_other [simp]:
  "pz_session (applyTaskMetaUpdate E i n p c t st) = pz_session st" "pz_disk (applyTaskMetaUpdate E i n p c t st) = pz_disk st"
  "pz_timers (applyTaskMetaUpdate E i n p c t st) = pz_timers st"
  "pz_default_dir (applyTaskMetaUpdate E i n p c t st) = pz_default_dir st"
  "pz_restore_paused (applyTaskMetaUpdate E i n p c t st) = pz_restore_paused st"
  by (simp_all add: applyTaskMetaUpdate_def)

definition resume_step ::
  "restore_env \<Rightarrow> (qstring \<times> (qstring \<times> json) list) list \<Rightarrow> disk \<Rightarrow> bool \<Rightarrow> qstring \<Rightarrow> cmd option" where
  "resume_step E meta d b key =
     (case map_of meta key of
        None \<Rightarrow> None
      | Some fs \<Rightarrow> (case readWholeFile (pv_files E) d (pv_resume_path E key) of
                     (data, e) \<Rightarrow> if hasError e \<or> data = [] then None
                                  else Some (AddFromResumeDataCmd data (should_pause b fs))))"

lemma restore_resume_adds:
  "restore_resume E meta ks (r, st) = (r', st') \<Longrightarrow>
   r' = r @ filter (\<lambda>k. resume_step E meta (pz_disk st) (pz_restore_paused st) k \<noteq> None) ks \<and>
   cmds (pz_session st') = cmds (pz_session st) @
     List.map_filter (resume_step E meta (pz_disk st) (pz_restore_paused st)) ks \<and>
   pz_disk st' = pz_disk st \<and> pz_timers st' = pz_timers st \<and> pz_default_dir st' = pz_default_dir st \<and>
   pz_restore_paused st' = pz_restore_paused st"
proof (induction ks arbitrary: r st)
  case (Cons k ks)
  show ?case
  proof (cases "resume_step E meta (pz_disk st) (pz_restore_paused st) k")
    case None
    then have "restore_resume E meta (k # ks) (r, st) = restore_resume E meta ks (r, st)"
      by (auto simp: resume_step_def split: option.splits prod.splits if_splits)
    with Cons.IH [of r st] Cons.prems None show ?thesis by (simp add: List.map_filter_simps)
  next
    case (Some c)
    then obtain st1 where "restore_resume E meta (k # ks) (r, st) = restore_resume E meta ks (r @ [k], st1)"
      and "cmds (pz_session st1) = cmds (pz_session st) @ [c]" "pz_disk st1 = pz_disk st" "pz_timers st1 = pz_timers st"
        "pz_default_dir st1 = pz_default_dir st" "pz_restore_paused st1 = pz_restore_paused st"
      by (auto simp: resume_step_def addFromResumeData_def enqueue_cmd_def Let_def
          split: option.splits prod.splits if_splits)
    with Cons.IH [of "r @ [k]" st1] Cons.prems Some show ?thesis by (simp add: List.map_filter_simps)
  qed
qed (simp add: List.map_filter_simps)

definition magnet_step ::
  "restore_env \<Rightarrow> qstring set \<Rightarrow> qstring \<Rightarrow> bool \<Rightarrow> qstring \<times> (qstring \<times> json) list \<Rightarrow> (cmd \<times> task_id option) option" where
  "magnet_step E restored dir b kf =
     (case kf of (key, fs) \<Rightarrow>
        if key \<in> restored \<or> field ''magnet'' fs = [] then None
        else case lt_parse_magnet (pv_lt E) (field ''magnet'' fs) of
               Inl _ \<Rightarrow> None
             | Inr atp \<Rightarrow> Some (AddMagnetCmd (field ''magnet'' fs) (resolve (pv_paths E) dir (field ''save_path'' fs)) [],
                 if should_pause b fs then Some (task_of_hashes (pv_lt E) (at_info_hashes atp)) else None))"

lemma restore_magnets_adds:
  "cmds (pz_session (restore_magnets E r ms st)) = cmds (pz_session st) @
     map fst (List.map_filter (magnet_step E (set r) (pz_default_dir st) (pz_restore_paused st)) ms) \<and>
   pz_timers (restore_magnets E r ms st) = pz_timers st @
     List.map_filter snd (List.map_filter (magnet_step E (set r) (pz_default_dir st) (pz_restore_paused st)) ms)"
proof (induction ms arbitrary: st)
  case (Cons m ms)
  obtain key fs where m: "m = (key, fs)" by (cases m)
  show ?case
  proof (cases "magnet_step E (set r) (pz_default_dir st) (pz_restore_paused st) m")
    case None
    then have "restore_magnets E r (m # ms) st = restore_magnets E r ms st"
      by (auto simp: m magnet_step_def split: sum.splits if_splits)
    with Cons.IH [of st] None show ?thesis by (simp add: List.map_filter_simps)
  next
    case (Some ct)
    then obtain st1 where "restore_magnets E r (m # ms) st = restore_magnets E r ms st1"
      and "cmds (pz_session st1) = cmds (pz_session st) @ [fst ct]"
        "pz_timers st1 = pz_timers st @ (case snd ct of None \<Rightarrow> [] | Some i \<Rightarrow> [i])"
        "pz_default_dir st1 = pz_default_dir st" "pz_restore_paused st1 = pz_restore_paused st"
      by (auto simp: m magnet_step_def addMagnet_def enqueue_cmd_def Let_def split: sum.splits if_splits)
    with Cons.IH [of st1] Some show ?thesis by (simp add: List.map_filter_simps split: option.split)
  qed
qed (simp add: List.map_filter_simps)

lemma mset_map_filter: "mset xs = mset ys \<Longrightarrow> mset (List.map_filter f xs) = mset (List.map_filter f ys)"
  by (simp add: List.map_filter_def)

lemma map_filter_map: "List.map_filter f (map g xs) = List.map_filter (\<lambda>x. f (g x)) xs"
  by (simp add: List.map_filter_def filter_map comp_def)

lemma map_filter_fold: "map fst (List.map_filter f xs) = List.map_filter (\<lambda>x. map_option fst (f x)) xs"
  by (induction xs) (auto simp: List.map_filter_simps split: option.split)

lemma saved_fields_find:
  "map_of (saved_fields st) key = map_option (task_json st) (List.find (\<lambda>s. key_of s = key) (snapshots (pz_store st)))"
proof -
  have "map_of (map (\<lambda>s. (key_of s, task_json st s)) xs) key = map_option (task_json st) (List.find (\<lambda>s. key_of s = key) xs)" for xs
    by (induction xs) simp_all
  then show ?thesis by (simp add: saved_fields_def)
qed

lemma resume_step_saved:
  "pv_files E = no_faults \<Longrightarrow> resume_step E (saved_fields st) d b = resume_command E st d"
  by (auto simp: fun_eq_iff resume_step_def resume_command_def saved_fields_find should_pause_saved read_no_faults
      split: option.split)

lemma magnet_step_saved:
  "magnet_step E r dir b (key_of s, task_json st s) = magnet_restore E st dir r s"
proof -
  have p: "field ''save_path'' (task_json st s) = trimmed (s_savePath s)"
    by (simp add: field_def task_json_fields)
  show ?thesis
    by (cases "map_of (pz_magnets st) (key_of s)")
      (simp_all add: magnet_step_def magnet_restore_def task_json_magnet should_pause_saved p split: sum.split)
qed


text \<open>A task with a resume file that was running, and a paused one with a magnet link only.\<close>

definition sample_restore :: "lt_env \<Rightarrow> restore_env" where
  "sample_restore L =
     \<lparr>pv_files = no_faults, pv_json = sample_codec,
      pv_lt = L\<lparr>lt_parse_magnet := (\<lambda>_. Inr (lt_default_params L)), lt_sha1 := (\<lambda>b. b)\<rparr>,
      pv_paths = \<lparr>pe_clean = (\<lambda>p. p), pe_file_path = (\<lambda>d n. d @ n), pe_download_dir = qs ''dl''\<rparr>,
      pv_clock = (5, 6), pv_uuid = (\<lambda>_. null_id), pv_tasks_path = qs ''t'', pv_resume_path = (\<lambda>k. k @ qs ''.rd''),
      pv_resume_dir = qs ''r'', pv_order = rev\<rparr>"

definition sample_tasks :: "session \<Rightarrow> app_tasks" where
  "sample_tasks s =
     \<lparr>pz_session = s\<lparr>cmds := []\<rparr>,
      pz_store = [(uid 1, default_snapshot\<lparr>s_taskId := uid 1, s_status := stSeeding\<rparr>),
                  (uid 2, default_snapshot\<lparr>s_taskId := uid 2, s_status := stPaused, s_savePath := qs '' p''\<rparr>)],
      pz_magnets = [(taskIdKey (uid 2), qs ''m'')], pz_last = [], pz_timers = [],
      pz_disk = [taskIdKey (uid 1) @ qs ''.rd'' \<mapsto> [7], taskIdKey (uid 3) @ qs ''.rd'' \<mapsto> [8]], pz_default_dir = [],
      pz_restore_paused = True\<rparr>"

lemma sample_restore_ok: "restore_env_ok (sample_restore L)" "last_on_disk (sample_restore L) (sample_tasks s)"
  "tasks_ok (sample_tasks s)"
  by (simp_all add: restore_env_ok_def sample_restore_def sample_codec_ok last_on_disk_def sample_tasks_def tasks_ok_def
      snapshots_def default_snapshot_def)

lemma savePersistedTasks_other:
  assumes "q \<notin> {pv_tasks_path E, bak_of (pv_tasks_path E), bak2_of (pv_tasks_path E)}" and "pv_files E = no_faults"
  shows "pz_disk (savePersistedTasks E st) q = pz_disk st q"
proof -
  obtain e d where w: "writeWholeFileWithBackup no_faults (pv_tasks_path E) (tasks_json E st) (pz_disk st) = (e, d)"
    by fastforce
  with write_backup_paths(2) [OF assms(1), of "tasks_json E st" "pz_disk st"] assms(2) show ?thesis
    by (simp add: savePersistedTasks_def Let_def)
qed

lemma sample_keys:
  "taskIdKey (uid 1) \<noteq> taskIdKey (uid 3)" "taskIdKey (uid 2) \<noteq> taskIdKey (uid 3)" "taskIdKey (uid 1) \<noteq> taskIdKey (uid 2)"
  by code_simp+

lemma sample_resume_disk:
  "pz_disk (savePersistedTasks (sample_restore L) (sample_tasks s)) (taskIdKey (uid 1) @ qs ''.rd'') = Some [7]"
proof -
  have "taskIdKey (uid 1) @ qs ''.rd'' \<notin> {qs ''t'', bak_of (qs ''t''), bak2_of (qs ''t'')}" by code_simp
  then have "pz_disk (savePersistedTasks (sample_restore L) (sample_tasks s)) (taskIdKey (uid 1) @ qs ''.rd'') =
      pz_disk (sample_tasks s) (taskIdKey (uid 1) @ qs ''.rd'')"
    by (intro savePersistedTasks_other) (simp_all add: sample_restore_def)
  with sample_keys show ?thesis by (simp add: sample_tasks_def)
qed

definition restarted :: "lt_env \<Rightarrow> session \<Rightarrow> app_tasks" where
  \<comment> \<open>a new process with the disk the old one has saved\<close>
  "restarted L s = (sample_tasks s)\<lparr>pz_store := [], pz_magnets := [],
     pz_disk := pz_disk (savePersistedTasks (sample_restore L) (sample_tasks s))\<rparr>"


end
