(* ===== verification/AppPolicy.thy ===== *)
theory AppPolicy
  imports TaskRestore AppSettings Tracker
begin

text \<open>
  What \<open>app_controller.cc\<close> does on its own: the seeding policy, the action after the downloads, the timed
  action, the runtime settings it hands to the worker and the built-in tracker, and the watch on the
  IP filter file. Commands for the operating system and the end of the program are a trace of effects;
  the branch of the code for systems other than Windows is modelled. Doubles are reals.
\<close>

section \<open>The state\<close>

datatype app_effect = Quit | Launch qstring "qstring list"

record policy_env =
  pl_input :: input_env
  pl_launch :: "qstring \<Rightarrow> qstring list \<Rightarrow> bool"      \<comment> \<open>\<open>QProcess::startDetached\<close> succeeds\<close>
  pl_regular_file :: "qstring \<Rightarrow> qstring option"      \<comment> \<open>the absolute path of an existing regular file\<close>
  pl_can_watch :: "qstring \<Rightarrow> bool"                   \<comment> \<open>\<open>QFileSystemWatcher::addPath\<close> succeeds\<close>
  pl_listen :: "bind_address \<Rightarrow> 16 word \<Rightarrow> 16 word option"

record policy =
  po_settings :: app_settings            \<comment> \<open>\<open>cachedAppSettings_\<close>\<close>
  po_timer :: "int option"               \<comment> \<open>the timed action: the interval while its timer runs\<close>
  po_post_triggered :: bool              \<comment> \<open>\<open>postDownloadActionTriggered_\<close>\<close>
  po_unlimited :: bool
  po_target :: real
  po_max_minutes :: int
  po_connections :: int                  \<comment> \<open>\<open>perTorrentConnectionsLimit_\<close>\<close>
  po_ratio_stopped :: "qstring set"      \<comment> \<open>\<open>autoStoppedBySeedRatio_\<close>\<close>
  po_time_stopped :: "qstring set"       \<comment> \<open>\<open>autoStoppedBySeedTime_\<close>\<close>
  po_default_dir :: qstring
  po_session :: session
  po_tracker :: tracker
  po_watched :: "qstring list"           \<comment> \<open>the files the watcher of the IP filter watches\<close>
  po_effects :: "app_effect list"

definition effect :: "app_effect list \<Rightarrow> policy \<Rightarrow> policy" where
  "effect es po = po\<lparr>po_effects := po_effects po @ es\<rparr>"

definition shell :: "string \<Rightarrow> app_effect" where
  "shell command = Launch (qs ''/bin/sh'') [qs ''-c'', qs command]"

fun launched :: "policy_env \<Rightarrow> app_effect \<Rightarrow> bool" where
  "launched E (Launch command args) = pl_launch E command args"
| "launched E Quit = True"

section \<open>The timed action\<close>

definition timed_action :: "policy_env \<Rightarrow> policy \<Rightarrow> qstring" where
  "timed_action E po = in_lower (pl_input E) (trimmed (as_timed_action (po_settings po)))"

definition scheduleTimedAction :: "policy_env \<Rightarrow> policy \<Rightarrow> policy" where
  "scheduleTimedAction E po =
     (let delayMinutes = as_timed_action_delay_minutes (po_settings po) in
      if timed_action E po = qs ''none'' \<or> delayMinutes \<le> 0 then po\<lparr>po_timer := None\<rparr>
      else po\<lparr>po_timer := Some (delayMinutes * 60 * 1000)\<rparr>)"

definition executeTimedAction :: "policy_env \<Rightarrow> policy \<Rightarrow> policy" where
  "executeTimedAction E po =
     (let action = timed_action E po in
      if action = qs ''quit_app'' then effect [Quit] po
      else if action = qs ''shutdown''
      then let c = shell ''shutdown -h now'' in effect (if launched E c then [c, Quit] else [c]) po
      else po)"

definition timed_timeout :: "policy_env \<Rightarrow> policy \<Rightarrow> policy" where
  \<comment> \<open>the single-shot timer, if it runs\<close>
  "timed_timeout E po = (if po_timer po = None then po else executeTimedAction E (po\<lparr>po_timer := None\<rparr>))"

section \<open>The action after the downloads\<close>

definition executePostDownloadAction :: "policy_env \<Rightarrow> qstring \<Rightarrow> policy \<Rightarrow> policy" where
  "executePostDownloadAction E action po =
     (if action = qs ''none'' \<or> action = [] then po
      else if action = qs ''quit_app'' then effect [Quit] po
      else
        let c = (if action = qs ''suspend'' then Some (shell ''systemctl suspend'')
                 else if action = qs ''hibernate'' then Some (shell ''systemctl hibernate'')
                 else if action = qs ''poweroff'' then Some (shell ''systemctl poweroff'') else None) in
        case c of
          None \<Rightarrow> po
        | Some e \<Rightarrow> effect (if launched E e \<and> action = qs ''poweroff'' then [e, Quit] else [e]) po)"

definition timed_enabled :: "policy_env \<Rightarrow> policy \<Rightarrow> bool" where
  "timed_enabled E po \<longleftrightarrow> timed_action E po \<noteq> qs ''none'' \<and> 0 < as_timed_action_delay_minutes (po_settings po)"

definition post_action :: "policy_env \<Rightarrow> policy \<Rightarrow> qstring" where
  "post_action E po = in_lower (pl_input E) (trimmed (as_download_complete_action (po_settings po)))"

definition maybeRunPostDownloadAction :: "policy_env \<Rightarrow> task_snapshot list \<Rightarrow> policy \<Rightarrow> policy" where
  "maybeRunPostDownloadAction E snaps po =
     (if timed_enabled E po then po\<lparr>po_post_triggered := False\<rparr>
      else if snaps = [] then po\<lparr>po_post_triggered := False\<rparr>
      else if \<not> list_all (\<lambda>s. isFinished (s_status s)) snaps then po\<lparr>po_post_triggered := False\<rparr>
      else if po_post_triggered po then po
      else executePostDownloadAction E (post_action E po) (po\<lparr>po_post_triggered := True\<rparr>))"

section \<open>The seeding policy\<close>

definition seed_ratio :: "task_snapshot \<Rightarrow> real" where
  "seed_ratio s = of_int (s_uploadedBytes s) / of_int (s_downloadedBytes s)"

definition seeding_minutes :: "int \<Rightarrow> task_snapshot \<Rightarrow> int" where
  \<comment> \<open>the division of C++ truncates\<close>
  "seeding_minutes now s =
     (let d = now - s_completedOnMs s in if 0 \<le> d then d div 60000 else - ((- d) div 60000))"

definition seed_step :: "int \<Rightarrow> task_snapshot \<Rightarrow> policy \<Rightarrow> policy" where
  "seed_step now s po =
     (let key = taskIdKey (s_taskId s) in
      if s_status s \<noteq> stSeeding
      then po\<lparr>po_ratio_stopped := po_ratio_stopped po - {key}, po_time_stopped := po_time_stopped po - {key}\<rparr>
      else if po_unlimited po then po
      else if s_downloadedBytes s > 0 \<and> seed_ratio s \<ge> po_target po \<and> key \<notin> po_ratio_stopped po
      then po\<lparr>po_ratio_stopped := insert key (po_ratio_stopped po), po_session := pauseTask (s_taskId s) (po_session po)\<rparr>
      else if po_max_minutes po > 0 \<and> s_completedOnMs s > 0 \<and> seeding_minutes now s \<ge> po_max_minutes po \<and>
              key \<notin> po_time_stopped po
      then po\<lparr>po_time_stopped := insert key (po_time_stopped po), po_session := pauseTask (s_taskId s) (po_session po)\<rparr>
      else po)"

definition applySeedingPolicy :: "policy_env \<Rightarrow> int \<Rightarrow> task_snapshot list \<Rightarrow> policy \<Rightarrow> policy" where
  "applySeedingPolicy E now snaps po = maybeRunPostDownloadAction E snaps (fold (seed_step now) snaps po)"

definition seedPolicyChanged :: "bool \<Rightarrow> real \<Rightarrow> policy \<Rightarrow> policy" where
  \<comment> \<open>the callback of the window\<close>
  "seedPolicyChanged unlimited ratio po =
     po\<lparr>po_unlimited := unlimited, po_target := ratio, po_ratio_stopped := {}\<rparr>"

section \<open>Runtime settings\<close>

definition builtin_config :: "(qstring \<Rightarrow> qstring) \<Rightarrow> app_settings \<Rightarrow> bool \<times> 16 word \<times> qstring" where
  "builtin_config lc s =
     (let port = word_of_int (clamp (as_builtin_tracker_port s) 0 65535) :: 16 word;
          listen = clamp (as_listen_port s) 0 65535;
          monitor = clamp (as_monitor_port s) 0 65535;
          conflict = (as_builtin_tracker_enabled s \<and> port \<noteq> 0 \<and>
                      (port = word_of_int listen \<or> (0 < monitor \<and> port = word_of_int monitor))) in
      (as_builtin_tracker_enabled s \<and> \<not> conflict, port,
       normalizeBuiltinTrackerBindMode lc (as_builtin_tracker_bind_mode s)))"

definition applyBuiltinHttpTrackerFromSettings :: "policy_env \<Rightarrow> app_settings \<Rightarrow> policy \<Rightarrow> policy" where
  "applyBuiltinHttpTrackerFromSettings E s po =
     (case builtin_config (in_lower (pl_input E)) s of
        (enabled, port, mode) \<Rightarrow>
          po\<lparr>po_tracker := applyConfig (in_lower (pl_input E)) (pl_listen E) enabled port mode (po_tracker po)\<rparr>)"

definition runtime_of :: "app_settings \<Rightarrow> runtime_settings" where
  "runtime_of s =
     \<lparr>rs_download_rate_limit_kib = as_download_rate_limit_kib s, rs_upload_rate_limit_kib = as_upload_rate_limit_kib s,
      rs_connections_limit = as_connections_limit s, rs_upload_slots_limit = as_upload_slots_limit s,
      rs_per_torrent_upload_slots_limit = as_per_torrent_upload_slots_limit s,
      rs_listen_port = as_listen_port s, rs_listen_port_forwarding = as_listen_port_forwarding s,
      rs_active_downloads = as_active_downloads s, rs_active_seeds = as_active_seeds s,
      rs_active_limit = as_active_limit s, rs_max_active_checking = as_max_active_checking s,
      rs_auto_manage_prefer_seeds = as_auto_manage_prefer_seeds s,
      rs_dont_count_slow_torrents = as_dont_count_slow_torrents s,
      rs_slow_torrent_dl_rate_threshold = as_slow_torrent_dl_rate_threshold s,
      rs_slow_torrent_ul_rate_threshold = as_slow_torrent_ul_rate_threshold s,
      rs_slow_torrent_inactive_timer = as_slow_torrent_inactive_timer s,
      rs_enable_dht = as_enable_dht s, rs_enable_upnp = as_enable_upnp s, rs_enable_natpmp = as_enable_natpmp s,
      rs_enable_lsd = as_enable_lsd s, rs_proxy_enabled = as_proxy_enabled s, rs_proxy_type = as_proxy_type s,
      rs_proxy_host = as_proxy_host s, rs_proxy_port = as_proxy_port s, rs_proxy_username = as_proxy_username s,
      rs_proxy_password = as_proxy_password s, rs_encryption_mode = as_encryption_mode s,
      rs_ip_filter_enabled = as_ip_filter_enabled s, rs_ip_filter_path = as_ip_filter_path s,
      rs_monitor_port = as_monitor_port s\<rparr>"

definition applyRuntimeSettingsFromConfig :: "policy_env \<Rightarrow> app_settings \<Rightarrow> policy \<Rightarrow> policy" where
  \<comment> \<open>the request headers passed on to the feeds and the search page are left out\<close>
  "applyRuntimeSettingsFromConfig E s po =
     applyBuiltinHttpTrackerFromSettings E s
       (po\<lparr>po_settings := s, po_post_triggered := False, po_default_dir := setDefaultDownloadDir (as_default_download_dir s),
           po_unlimited := as_seed_unlimited s, po_target := as_seed_target_ratio s, po_max_minutes := as_seed_max_minutes s,
           po_connections := as_per_torrent_connections_limit s, po_ratio_stopped := {}, po_time_stopped := {},
           po_session := setDefaultPerTorrentConnectionsLimit (as_per_torrent_connections_limit s)
             (applyRuntimeSettings (runtime_of s) (po_session po))\<rparr>)"

definition syncIpFilterFileWatcher :: "policy_env \<Rightarrow> policy \<Rightarrow> policy" where
  "syncIpFilterFileWatcher E po =
     (let s = po_settings po; path = trimmed (as_ip_filter_path s) in
      po\<lparr>po_watched :=
          (if \<not> as_ip_filter_enabled s \<or> path = [] then []
           else case pl_regular_file E path of
                  None \<Rightarrow> []
                | Some full \<Rightarrow> if pl_can_watch E full then [full] else [])\<rparr>)"

definition ipFilterFileChanged :: "policy_env \<Rightarrow> bool \<Rightarrow> app_settings \<Rightarrow> policy \<Rightarrow> policy" where
  \<comment> \<open>the settings are those the store holds then\<close>
  "ipFilterFileChanged E shuttingDown s po =
     (if shuttingDown then po else syncIpFilterFileWatcher E (applyRuntimeSettingsFromConfig E s po))"

section \<open>The built-in tracker keeps off the ports of the session\<close>

lemma builtin_never_on_session_port:
  assumes "builtin_config lc s = (True, port, mode)" and "port \<noteq> 0"
  shows "uint port \<noteq> clamp (as_listen_port s) 0 65535" and "0 < as_monitor_port s \<Longrightarrow> uint port \<noteq> clamp (as_monitor_port s) 0 65535"
proof -
  have "port \<noteq> word_of_int (clamp (as_listen_port s) 0 65535)"
    and m: "0 < clamp (as_monitor_port s) 0 65535 \<Longrightarrow> port \<noteq> word_of_int (clamp (as_monitor_port s) 0 65535)"
    using assms unfolding builtin_config_def Let_def by auto
  then show "uint port \<noteq> clamp (as_listen_port s) 0 65535" by (metis word_of_int_uint)
  assume "0 < as_monitor_port s"
  then have "0 < clamp (as_monitor_port s) 0 65535" by (simp add: clamp_def)
  from m [OF this] show "uint port \<noteq> clamp (as_monitor_port s) 0 65535" by (metis word_of_int_uint)
qed

lemma timed_action_once: "po_timer (timed_timeout E po) = None" "timed_timeout E (timed_timeout E po) = timed_timeout E po"
  by (simp_all add: timed_timeout_def executeTimedAction_def effect_def Let_def)

section \<open>Which tasks the seeding policy stops\<close>

definition by_ratio :: "policy \<Rightarrow> task_snapshot \<Rightarrow> bool" where
  "by_ratio po s \<longleftrightarrow> s_status s = stSeeding \<and> \<not> po_unlimited po \<and> 0 < s_downloadedBytes s \<and>
     po_target po \<le> seed_ratio s \<and> key_of s \<notin> po_ratio_stopped po"

definition by_time :: "int \<Rightarrow> policy \<Rightarrow> task_snapshot \<Rightarrow> bool" where
  "by_time now po s \<longleftrightarrow> s_status s = stSeeding \<and> \<not> po_unlimited po \<and> \<not> by_ratio po s \<and> 0 < po_max_minutes po \<and>
     0 < s_completedOnMs s \<and> po_max_minutes po \<le> seeding_minutes now s \<and> key_of s \<notin> po_time_stopped po"

lemma seed_step_cases:
  "cmds (po_session (seed_step now s po)) =
     cmds (po_session po) @ (if by_ratio po s \<or> by_time now po s then [PauseCmd (s_taskId s)] else [])"
  "po_ratio_stopped (seed_step now s po) =
     (if s_status s \<noteq> stSeeding then po_ratio_stopped po - {key_of s}
      else if by_ratio po s then insert (key_of s) (po_ratio_stopped po) else po_ratio_stopped po)"
  "po_time_stopped (seed_step now s po) =
     (if s_status s \<noteq> stSeeding then po_time_stopped po - {key_of s}
      else if by_time now po s then insert (key_of s) (po_time_stopped po) else po_time_stopped po)"
  by (auto simp: seed_step_def by_ratio_def by_time_def pauseTask_def enqueue_cmd_def Let_def)

lemma seed_step_settings [simp]:
  "po_unlimited (seed_step now s po) = po_unlimited po" "po_target (seed_step now s po) = po_target po"
  "po_max_minutes (seed_step now s po) = po_max_minutes po" "po_effects (seed_step now s po) = po_effects po"
  "po_settings (seed_step now s po) = po_settings po" "po_post_triggered (seed_step now s po) = po_post_triggered po"
  by (auto simp: seed_step_def Let_def)

lemma seed_step_other:
  "key_of t \<noteq> key_of s \<Longrightarrow> by_ratio (seed_step now s po) t = by_ratio po t"
  "key_of t \<noteq> key_of s \<Longrightarrow> by_time now (seed_step now s po) t = by_time now po t"
  by (auto simp: by_ratio_def by_time_def seed_step_cases)

lemma seed_fold_other:
  "k \<notin> key_of ` set snaps \<Longrightarrow>
   (k \<in> po_ratio_stopped (fold (seed_step now) snaps po) \<longleftrightarrow> k \<in> po_ratio_stopped po) \<and>
   (k \<in> po_time_stopped (fold (seed_step now) snaps po) \<longleftrightarrow> k \<in> po_time_stopped po)"
  by (induction snaps arbitrary: po) (simp_all add: seed_step_cases)

lemma seed_fold_stops_other:
  "key_of t \<notin> key_of ` set snaps \<Longrightarrow>
   by_ratio (fold (seed_step now) snaps po) t = by_ratio po t \<and> by_time now (fold (seed_step now) snaps po) t = by_time now po t"
  by (induction snaps arbitrary: po) (simp_all add: seed_step_other)

lemma seed_fold_settings [simp]:
  "po_effects (fold (seed_step now) snaps po) = po_effects po" "po_settings (fold (seed_step now) snaps po) = po_settings po"
  "po_post_triggered (fold (seed_step now) snaps po) = po_post_triggered po"
  by (induction snaps arbitrary: po) simp_all

lemma seed_fold_sets:
  assumes "distinct (map key_of snaps)" and "s \<in> set snaps"
  shows "key_of s \<in> po_ratio_stopped (fold (seed_step now) snaps po) \<longleftrightarrow>
      s_status s = stSeeding \<and> (key_of s \<in> po_ratio_stopped po \<or> by_ratio po s)"
    and "key_of s \<in> po_time_stopped (fold (seed_step now) snaps po) \<longleftrightarrow>
      s_status s = stSeeding \<and> (key_of s \<in> po_time_stopped po \<or> by_time now po s)"
proof -
  obtain xs ys where l: "snaps = xs @ s # ys" using assms(2) by (meson split_list)
  have new: "key_of s \<notin> key_of ` set xs" "key_of s \<notin> key_of ` set ys" using assms(1) l by auto
  let ?a = "fold (seed_step now) xs po"
  have "key_of s \<in> po_ratio_stopped (fold (seed_step now) snaps po) \<longleftrightarrow> key_of s \<in> po_ratio_stopped (seed_step now s ?a)"
    "key_of s \<in> po_time_stopped (fold (seed_step now) snaps po) \<longleftrightarrow> key_of s \<in> po_time_stopped (seed_step now s ?a)"
    using seed_fold_other [OF new(2), of now "seed_step now s ?a"] by (simp_all add: l)
  then show "key_of s \<in> po_ratio_stopped (fold (seed_step now) snaps po) \<longleftrightarrow>
      s_status s = stSeeding \<and> (key_of s \<in> po_ratio_stopped po \<or> by_ratio po s)"
    and "key_of s \<in> po_time_stopped (fold (seed_step now) snaps po) \<longleftrightarrow>
      s_status s = stSeeding \<and> (key_of s \<in> po_time_stopped po \<or> by_time now po s)"
    using seed_fold_other [OF new(1), of now po] seed_fold_stops_other [OF new(1), of now po]
    by (simp_all add: seed_step_cases)
qed

lemma seed_fold_cmds:
  "distinct (map key_of snaps) \<Longrightarrow>
   cmds (po_session (fold (seed_step now) snaps po)) = cmds (po_session po) @
      map (\<lambda>s. PauseCmd (s_taskId s)) (filter (\<lambda>s. by_ratio po s \<or> by_time now po s) snaps)"
proof (induction snaps arbitrary: po)
  case (Cons s snaps)
  have d: "distinct (map key_of snaps)" and "key_of s \<notin> key_of ` set snaps" using Cons.prems by simp_all
  then have new: "key_of t \<noteq> key_of s" if "t \<in> set snaps" for t using that by (metis imageI)
  let ?po = "seed_step now s po"
  have "filter (\<lambda>t. by_ratio ?po t \<or> by_time now ?po t) snaps = filter (\<lambda>t. by_ratio po t \<or> by_time now po t) snaps"
    by (rule filter_cong) (simp_all add: seed_step_other new)
  with Cons.IH [OF d, of ?po] show ?case by (simp add: seed_step_cases(1))
qed simp

definition post_effects :: "policy_env \<Rightarrow> policy \<Rightarrow> app_effect list" where
  \<comment> \<open>what the configured action does\<close>
  "post_effects E po =
     po_effects (executePostDownloadAction E (post_action E po) (po\<lparr>po_effects := []\<rparr>))"

lemma executePost_effects:
  "po_effects (executePostDownloadAction E act po) =
     po_effects po @ po_effects (executePostDownloadAction E act (po\<lparr>po_effects := []\<rparr>))"
  "po_settings (executePostDownloadAction E act po) = po_settings po"
  "po_session (executePostDownloadAction E act po) = po_session po"
  "po_ratio_stopped (executePostDownloadAction E act po) = po_ratio_stopped po"
  "po_time_stopped (executePostDownloadAction E act po) = po_time_stopped po"
  "po_post_triggered (executePostDownloadAction E act po) = po_post_triggered po"
  by (simp_all add: executePostDownloadAction_def effect_def Let_def)

definition all_done :: "policy_env \<Rightarrow> policy \<Rightarrow> task_snapshot list \<Rightarrow> bool" where
  "all_done E po snaps \<longleftrightarrow> \<not> timed_enabled E po \<and> snaps \<noteq> [] \<and> list_all (\<lambda>s. isFinished (s_status s)) snaps"

lemma executePost_cong:
  "po_settings po = po_settings po' \<Longrightarrow>
   po_effects (executePostDownloadAction E act (po\<lparr>po_effects := []\<rparr>)) = po_effects (executePostDownloadAction E act (po'\<lparr>po_effects := []\<rparr>))"
  by (simp add: executePostDownloadAction_def effect_def Let_def)

lemma maybeRun_step:
  "po_effects (maybeRunPostDownloadAction E snaps po) =
     po_effects po @ (if all_done E po snaps \<and> \<not> po_post_triggered po then post_effects E po else [])"
  "po_post_triggered (maybeRunPostDownloadAction E snaps po) = all_done E po snaps"
  "po_settings (maybeRunPostDownloadAction E snaps po) = po_settings po"
  "po_session (maybeRunPostDownloadAction E snaps po) = po_session po"
  "po_ratio_stopped (maybeRunPostDownloadAction E snaps po) = po_ratio_stopped po"
  "po_time_stopped (maybeRunPostDownloadAction E snaps po) = po_time_stopped po"
  using executePost_effects [of E "post_action E po" "po\<lparr>po_post_triggered := True\<rparr>"]
    executePost_cong [of "po\<lparr>po_post_triggered := True\<rparr>" po E "post_action E po"]
  by (auto simp: maybeRunPostDownloadAction_def all_done_def post_effects_def)

text \<open>
  C11. One round of the seeding policy pauses exactly the seeding tasks whose ratio has reached the target, or
  which have seeded for the set time, in the order of the list and once each, and none when seeding is unlimited. The
  marks it leaves are those of the tasks that still seed: a task is not stopped again for the same reason
  until it has left the seeding state.
\<close>

theorem seeding_stops_exact:
  assumes "distinct (map key_of snaps)"
  shows "let po' = applySeedingPolicy E now snaps po in
     cmds (po_session po') = cmds (po_session po) @
       map (\<lambda>s. PauseCmd (s_taskId s)) (filter (\<lambda>s. by_ratio po s \<or> by_time now po s) snaps) \<and>
     list_all (\<lambda>s. (key_of s \<in> po_ratio_stopped po' \<longleftrightarrow> s_status s = stSeeding \<and> (key_of s \<in> po_ratio_stopped po \<or> by_ratio po s)) \<and>
       (key_of s \<in> po_time_stopped po' \<longleftrightarrow> s_status s = stSeeding \<and> (key_of s \<in> po_time_stopped po \<or> by_time now po s)) \<and>
       \<not> (by_ratio po s \<and> by_ratio po' s) \<and> \<not> (by_time now po s \<and> by_time later po' s)) snaps"
  using seed_fold_cmds [OF assms, of now po] seed_fold_sets [OF assms, of _ now po]
  by (simp add: applySeedingPolicy_def maybeRun_step Let_def list_all_iff) (auto simp: by_ratio_def by_time_def applySeedingPolicy_def maybeRun_step)

theorem seeding_stops_exact_witness:
  "\<forall>po E. map (\<lambda>c. c = PauseCmd (uid 1)) (drop (length (cmds (po_session po))) (cmds (po_session
     (applySeedingPolicy E 9 [default_snapshot\<lparr>s_taskId := uid 1, s_status := stSeeding, s_downloadedBytes := 2, s_uploadedBytes := 3\<rparr>,
        default_snapshot\<lparr>s_taskId := uid 2, s_status := stSeeding, s_downloadedBytes := 2, s_uploadedBytes := 2\<rparr>]
       (po\<lparr>po_unlimited := False, po_target := 3 / 2, po_max_minutes := 0, po_ratio_stopped := {}\<rparr>))))) = [True]"
proof (intro allI)
  fix po E
  let ?a = "default_snapshot\<lparr>s_taskId := uid 1, s_status := stSeeding, s_downloadedBytes := 2, s_uploadedBytes := 3\<rparr>"
  let ?b = "default_snapshot\<lparr>s_taskId := uid 2, s_status := stSeeding, s_downloadedBytes := 2, s_uploadedBytes := 2\<rparr>"
  have "distinct (map key_of [?a, ?b])" using sample_keys by simp
  from seeding_stops_exact [OF this, of E 9 "po\<lparr>po_unlimited := False, po_target := 3 / 2, po_max_minutes := 0, po_ratio_stopped := {}\<rparr>"]
  show "map (\<lambda>c. c = PauseCmd (uid 1)) (drop (length (cmds (po_session po))) (cmds (po_session (applySeedingPolicy E 9 [?a, ?b]
       (po\<lparr>po_unlimited := False, po_target := 3 / 2, po_max_minutes := 0, po_ratio_stopped := {}\<rparr>))))) = [True]"
    by (simp add: Let_def by_ratio_def by_time_def seed_ratio_def)
qed

section \<open>When the action after the downloads runs\<close>

lemma all_done_cong: "po_settings po = po_settings po' \<Longrightarrow> all_done E po = all_done E po'"
  by (simp add: fun_eq_iff all_done_def timed_enabled_def timed_action_def)

lemma post_effects_cong: "po_settings po = po_settings po' \<Longrightarrow> post_effects E po = post_effects E po'"
  using executePost_cong [of po po' E "post_action E po"] by (simp add: post_effects_def post_action_def)

lemma applySeedingPolicy_post:
  "po_effects (applySeedingPolicy E now snaps po) =
     po_effects po @ (if all_done E po snaps \<and> \<not> po_post_triggered po then post_effects E po else [])"
  "po_post_triggered (applySeedingPolicy E now snaps po) = all_done E po snaps"
  "po_settings (applySeedingPolicy E now snaps po) = po_settings po"
  using all_done_cong [of "fold (seed_step now) snaps po" po E] post_effects_cong [of "fold (seed_step now) snaps po" po E]
  by (simp_all add: applySeedingPolicy_def maybeRun_step)


end
