(* ===== verification/AppAdd.thy ===== *)
theory AppAdd
  imports TaskRestore DownloadPipeline
begin

text \<open>
  How the controller adds torrents (\<open>app_controller.cc\<close>): the interactive add of a magnet link with its metadata
  fetch, the dialogs over an exported torrent file, the items of the two RSS download lanes, and the settlement each
  item owes the RSS service. What the user answers in a dialog, what a fetch returns and whether the
  window is gone by then are arguments. \<open>QFile::remove\<close> succeeds. A value \<open>None\<close> of the interactive add is
  undefined behaviour: a call on a \<open>std::future\<close> without state.
\<close>

section \<open>The state\<close>

record add_state =
  ad_tasks :: app_tasks
  ad_files :: "qstring set"                    \<comment> \<open>the torrent files that exist\<close>
  ad_window :: bool                            \<comment> \<open>the main window exists\<close>
  ad_shutting :: bool
  ad_service :: bool                           \<comment> \<open>the RSS service exists\<close>
  ad_auto_trackers :: bool
  ad_default_trackers :: "qstring list"
  ad_settled :: "(rss_settlement \<times> bool \<times> qstring) list"   \<comment> \<open>calls of \<open>applyRssDownloadSettlement\<close>\<close>
  ad_followup :: refresh_scheduler
  ad_magnets_finished :: nat                   \<comment> \<open>calls of \<open>finishMagnet\<close>\<close>
  ad_torrents_finished :: nat                  \<comment> \<open>calls of \<open>finishRssTorrent\<close>\<close>
  ad_later_removed :: "qstring list"           \<comment> \<open>files a timer removes after 30 seconds\<close>

abbreviation add_input :: "restore_env \<Rightarrow> input_env" where
  "add_input E \<equiv> lt_input (pv_lt E)"

definition worker :: "(session \<Rightarrow> session) \<Rightarrow> add_state \<Rightarrow> add_state" where
  "worker f st = st\<lparr>ad_tasks := (ad_tasks st)\<lparr>pz_session := f (pz_session (ad_tasks st))\<rparr>\<rparr>"

definition remove_torrent :: "qstring \<Rightarrow> add_state \<Rightarrow> add_state" where
  "remove_torrent path st = st\<lparr>ad_files := ad_files st - {path}\<rparr>"

definition add_resolve :: "restore_env \<Rightarrow> qstring \<Rightarrow> add_state \<Rightarrow> qstring" where
  "add_resolve E path st = resolve (pv_paths E) (pz_default_dir (ad_tasks st)) path"

definition trackers_for :: "restore_env \<Rightarrow> add_state \<Rightarrow> qstring list" where
  "trackers_for E st = (if ad_auto_trackers st then sanitizeTrackers (add_input E) (ad_default_trackers st) else [])"

definition settleRssDownloadIfNeeded :: "rss_settlement \<Rightarrow> bool \<Rightarrow> qstring \<Rightarrow> add_state \<Rightarrow> add_state" where
  "settleRssDownloadIfNeeded s ok path st =
     (if st_item_id s = [] \<or> \<not> ad_service st then st
      else st\<lparr>ad_settled := ad_settled st @ [(s, ok, path)], ad_followup := requestRefresh (ad_followup st)\<rparr>)"

definition finish_magnet :: "add_state \<Rightarrow> add_state" where
  "finish_magnet st = st\<lparr>ad_magnets_finished := ad_magnets_finished st + 1\<rparr>"

definition finish_torrent :: "add_state \<Rightarrow> add_state" where
  "finish_torrent st = st\<lparr>ad_torrents_finished := ad_torrents_finished st + 1\<rparr>"

section \<open>Submitting what a dialog returned\<close>

definition user_data_ok :: "restore_env \<Rightarrow> task_add_input \<Rightarrow> bool" where
  \<comment> \<open>the checks of category, tags and save path; the two submit functions make them in another order\<close>
  "user_data_ok E ui \<longleftrightarrow> \<not> hasError (validateCategory (ta_category ui)) \<and> \<not> hasError (validateTagsCsv (ta_tagsCsv ui)) \<and>
     (trimmed (ta_savePath ui) = [] \<or> \<not> hasError (validatePath (add_input E) (ta_savePath ui)))"

definition submitPreparedMagnetAdd :: "restore_env \<Rightarrow> magnet_metadata \<Rightarrow> task_add_input \<Rightarrow> add_state \<Rightarrow> add_state" where
  "submitPreparedMagnetAdd E meta ui st =
     (if \<not> user_data_ok E ui then worker (cancelPreparedMagnet (mm_taskId meta)) st
      else let built = buildTaskAdd (pv_paths E) (pz_default_dir (ad_tasks st)) ui;
               st1 = worker (finalizePreparedMagnet (mm_taskId meta) (tr_finalSavePath built) (trackers_for E st)
                       (tr_opts built)) st in
        st1\<lparr>ad_tasks := applyTaskMetaUpdate E (mm_taskId meta) (ta_name ui) (tr_finalSavePath built) (ta_category ui)
                          (ta_tagsCsv ui) (ad_tasks st1)\<rparr>)"

definition submitTorrentFileFromDialog :: "restore_env \<Rightarrow> qstring \<Rightarrow> task_add_input \<Rightarrow> add_state \<Rightarrow> add_state" where
  "submitTorrentFileFromDialog E torrentFilePath ui st =
     (if hasError (validateTorrentFilePath (add_input E) torrentFilePath) \<or> \<not> user_data_ok E ui then st
      else let built = buildTaskAdd (pv_paths E) (pz_default_dir (ad_tasks st)) ui in
        worker (addTorrentFileWithOptions torrentFilePath (tr_finalSavePath built) (trackers_for E st) (tr_opts built)) st)"

definition presentMagnetAddDialogViaExportedTorrent ::
  "restore_env \<Rightarrow> magnet_metadata \<Rightarrow> rss_settlement \<Rightarrow> task_add_input option \<Rightarrow> add_state \<Rightarrow> bool \<times> add_state" where
  "presentMagnetAddDialogViaExportedTorrent E meta s answer st =
     (let torrentPath = trimmed (mm_exportedTorrentPath meta) in
      if torrentPath = [] \<or> torrentPath \<notin> ad_files st then (False, st)
      else let st1 = worker (cancelPreparedMagnet (mm_taskId meta)) st in
        if \<not> ad_window st then (False, settleRssDownloadIfNeeded s False [] (remove_torrent torrentPath st1))
        else case answer of
               None \<Rightarrow> (False, settleRssDownloadIfNeeded s False [] (remove_torrent torrentPath st1))
             | Some ui \<Rightarrow>
                 (True, settleRssDownloadIfNeeded s True (add_resolve E (ta_savePath ui) st1)
                          (remove_torrent torrentPath (submitTorrentFileFromDialog E torrentPath ui st1))))"

definition submitMagnetDialogResult ::
  "restore_env \<Rightarrow> magnet_metadata \<Rightarrow> task_add_input \<Rightarrow> rss_settlement \<Rightarrow> add_state \<Rightarrow> add_state" where
  "submitMagnetDialogResult E meta ui s st =
     (let torrentPath = trimmed (mm_exportedTorrentPath meta) in
      if torrentPath \<noteq> [] \<and> torrentPath \<in> ad_files st
      then let st1 = worker (cancelPreparedMagnet (mm_taskId meta)) st in
        settleRssDownloadIfNeeded s True (add_resolve E (ta_savePath ui) st1)
          (remove_torrent torrentPath (submitTorrentFileFromDialog E torrentPath ui st1))
      else settleRssDownloadIfNeeded s True (add_resolve E (ta_savePath ui) st) (submitPreparedMagnetAdd E meta ui st))"

definition showMagnetAddDialogAndSubmit ::
  "restore_env \<Rightarrow> magnet_metadata \<Rightarrow> rss_settlement \<Rightarrow> task_add_input option \<Rightarrow> task_add_input option \<Rightarrow>
   add_state \<Rightarrow> bool \<times> add_state" where
  \<comment> \<open>the answers in the dialog over the exported torrent and in the one over the metadata, if they are shown\<close>
  "showMagnetAddDialogAndSubmit E meta s answer1 answer2 st =
     (case presentMagnetAddDialogViaExportedTorrent E meta s answer1 st of
        (True, st1) \<Rightarrow> (True, st1)
      | (False, st1) \<Rightarrow>
          if \<not> ad_window st1 \<or> mm_filePaths meta = [] \<or> length (mm_filePaths meta) \<noteq> length (mm_fileSizes meta)
          then (False, settleRssDownloadIfNeeded s False [] (worker (cancelPreparedMagnet (mm_taskId meta)) st1))
          else case answer2 of
                 None \<Rightarrow> (False, settleRssDownloadIfNeeded s False [] (worker (cancelPreparedMagnet (mm_taskId meta)) st1))
               | Some ui \<Rightarrow> (True, submitMagnetDialogResult E meta ui s st1))"

section \<open>Items of the magnet lane\<close>

record magnet_job =
  mj_item :: magnet_item
  mj_uri :: qstring              \<comment> \<open>trimmed\<close>
  mj_resolved :: qstring
  mj_temp :: qstring
  mj_trackers :: "qstring list"  \<comment> \<open>sanitized, if the default trackers are used\<close>
  mj_raw_trackers :: "qstring list"

definition startOneMagnetOnUi :: "restore_env \<Rightarrow> magnet_item \<Rightarrow> add_state \<Rightarrow> magnet_job option \<times> add_state" where
  \<comment> \<open>the job is what a thread started here goes on with\<close>
  "startOneMagnetOnUi E item st =
     (let s = mi_settlement item; uri = trimmed (mi_uri item) in
      if ad_shutting st then (None, finish_magnet (settleRssDownloadIfNeeded s False [] st))
      else if hasError (validateMagnetUri (add_input E) uri)
      then (None, finish_magnet (settleRssDownloadIfNeeded s False [] st))
      else let resolved = add_resolve E (mi_savePath item) st in
        if mi_skipInteractiveAdd item
        then (None, finish_magnet (settleRssDownloadIfNeeded s True resolved
                      (worker (addMagnet uri resolved (trackers_for E st)) st)))
        else (Some \<lparr>mj_item = item, mj_uri = uri, mj_resolved = resolved,
                     mj_temp = pe_file_path (pv_paths E) resolved (qs ''.pfd_meta''),
                     mj_trackers = trackers_for E st,
                     mj_raw_trackers = (if ad_auto_trackers st then ad_default_trackers st else [])\<rparr>, st))"

definition magnet_fetch ::
  "restore_env \<Rightarrow> promise \<Rightarrow> magnet_metadata option option \<Rightarrow> magnet_job \<Rightarrow> add_state \<Rightarrow>
   magnet_metadata option \<times> add_state" where
  \<comment> \<open>the thread asks for the metadata; \<open>ready\<close> is what its wait ends with\<close>
  "magnet_fetch E p ready job st =
     (case prepareMagnetMetadata (pv_lt E) (mj_uri job) (mj_temp job) 12000 (mj_trackers job) p (pz_session (ad_tasks st)) of
        (None, s) \<Rightarrow> (None, worker (\<lambda>_. s) st)
      | (Some i, s) \<Rightarrow>
          (case prepareMagnetMetadata_wait i ready s of (meta, s') \<Rightarrow> (meta, worker (\<lambda>_. s') st)))"

definition or_empty :: "qstring \<Rightarrow> err \<Rightarrow> qstring" where
  "or_empty s e = (if hasError e then [] else s)"

definition magnet_ready ::
  "restore_env \<Rightarrow> bool \<Rightarrow> magnet_metadata option \<Rightarrow> task_add_input option \<Rightarrow> task_add_input option \<Rightarrow> magnet_job \<Rightarrow>
   add_state \<Rightarrow> add_state" where
  \<comment> \<open>back on the thread of the window, unless it is gone or the program shuts down\<close>
  "magnet_ready E gone metaOpt answer1 answer2 job st =
     (let item = mj_item job; s = mi_settlement item in
      if gone \<or> \<not> ad_window st then finish_magnet (settleRssDownloadIfNeeded s False [] st)
      else case metaOpt of
             None \<Rightarrow>
               if mi_skipInteractiveAdd item
               then finish_magnet (settleRssDownloadIfNeeded s True (mj_resolved job)
                      (worker (addMagnet (mj_uri job) (mj_resolved job) (mj_trackers job)) st))
               else finish_magnet (settleRssDownloadIfNeeded s False [] st)
           | Some meta \<Rightarrow>
               if mi_skipInteractiveAdd item
               then let cat = or_empty (trimmed (mi_category item)) (validateCategory (trimmed (mi_category item)));
                        tags = or_empty (trimmed (mi_tagsCsv item)) (validateTagsCsv (trimmed (mi_tagsCsv item)));
                        built = buildTaskAdd (pv_paths E) (pz_default_dir (ad_tasks st))
                          \<lparr>ta_name = mm_name meta, ta_savePath = mi_savePath item, ta_layout = kOriginal, ta_startTorrent = True,
                           ta_stopCondition = 0, ta_sequentialDownload = False, ta_skipHashCheck = False,
                           ta_addToTopQueue = False, ta_category = cat, ta_tagsCsv = tags,
                           ta_fileWanted = replicate (length (mm_filePaths meta)) 1\<rparr>;
                        st1 = worker (finalizePreparedMagnet (mm_taskId meta) (tr_finalSavePath built) (mj_raw_trackers job)
                                (tr_opts built)) st;
                        st2 = st1\<lparr>ad_tasks := applyTaskMetaUpdate E (mm_taskId meta) (mm_name meta) (tr_finalSavePath built)
                                cat tags (ad_tasks st1)\<rparr> in
                    finish_magnet (settleRssDownloadIfNeeded s True (tr_finalSavePath built) st2)
               else finish_magnet (snd (showMagnetAddDialogAndSubmit E meta s answer1 answer2 st)))"

definition run_magnet ::
  "restore_env \<Rightarrow> magnet_item \<Rightarrow> promise \<Rightarrow> magnet_metadata option option \<Rightarrow> bool \<Rightarrow> task_add_input option \<Rightarrow>
   task_add_input option \<Rightarrow> add_state \<Rightarrow> add_state" where
  \<comment> \<open>an item from its start to its end\<close>
  "run_magnet E item p ready gone answer1 answer2 st =
     (case startOneMagnetOnUi E item st of
        (None, st1) \<Rightarrow> st1
      | (Some job, st1) \<Rightarrow>
          (case magnet_fetch E p ready job st1 of (meta, st2) \<Rightarrow> magnet_ready E gone meta answer1 answer2 job st2))"

section \<open>Items of the torrent lane\<close>

record torrent_job =
  tj_url :: qstring
  tj_referer :: qstring
  tj_resolved :: qstring
  tj_trackers :: "qstring list"
  tj_settlement :: rss_settlement

definition startOneRssTorrentUrlOnUi :: "restore_env \<Rightarrow> url_item \<Rightarrow> add_state \<Rightarrow> torrent_job option \<times> add_state" where
  "startOneRssTorrentUrlOnUi E item st =
     (let url = trimmed (ui_url item); s = ui_settlement item in
      if url = [] then (None, finish_torrent (settleRssDownloadIfNeeded s False [] st))
      else if ad_shutting st then (None, finish_torrent (settleRssDownloadIfNeeded s False [] st))
      else (Some \<lparr>tj_url = url, tj_referer = trimmed (ui_referer item), tj_resolved = add_resolve E (ui_savePath item) st,
                   tj_trackers = trackers_for E st, tj_settlement = s\<rparr>, st))"

definition torrent_path :: "bytes option \<Rightarrow> qstring option \<Rightarrow> qstring" where
  \<comment> \<open>the body of the answer, and the temporary file it was written to; empty when something failed\<close>
  "torrent_path body tmp =
     (case body of
        None \<Rightarrow> []
      | Some b \<Rightarrow> if b = [] then [] else (case tmp of None \<Rightarrow> [] | Some path \<Rightarrow> path))"

definition torrent_ready :: "restore_env \<Rightarrow> bool \<Rightarrow> qstring \<Rightarrow> torrent_job \<Rightarrow> add_state \<Rightarrow> add_state" where
  "torrent_ready E gone path job st =
     (let s = tj_settlement job;
          failed = finish_torrent (settleRssDownloadIfNeeded s False [] (if path = [] then st else remove_torrent path st)) in
      if gone \<or> \<not> ad_window st then failed
      else if path = [] then failed
      else if hasError (validateTorrentFilePath (add_input E) path) then failed
      else let st1 = worker (addTorrentFileWithOptions path (tj_resolved job) (tj_trackers job) default_options) st;
               st2 = st1\<lparr>ad_later_removed := ad_later_removed st1 @ [path]\<rparr> in
        finish_torrent (settleRssDownloadIfNeeded s True (tj_resolved job) st2))"

definition run_torrent :: "restore_env \<Rightarrow> url_item \<Rightarrow> bytes option \<Rightarrow> qstring option \<Rightarrow> bool \<Rightarrow> add_state \<Rightarrow> add_state" where
  \<comment> \<open>an item from its start to its end\<close>
  "run_torrent E item body tmp gone st =
     (case startOneRssTorrentUrlOnUi E item st of
        (None, st1) \<Rightarrow> st1
      | (Some job, st1) \<Rightarrow>
          let path = torrent_path body tmp in
          torrent_ready E gone path job (if path = [] then st1 else st1\<lparr>ad_files := insert path (ad_files st1)\<rparr>))"

section \<open>Requests of the RSS service and the window\<close>

definition magnet_limit :: "int \<Rightarrow> rss_settings option \<Rightarrow> rss_settlement \<Rightarrow> int" where
  \<comment> \<open>the settings are those of the RSS service, if it exists\<close>
  "magnet_limit magnetMaxInFlight rss s =
     (case rss of
        Some g \<Rightarrow> if st_item_id s \<noteq> [] then min magnetMaxInFlight (clamp (g_max_concurrent_auto_downloads g) 1 50)
                  else magnetMaxInFlight
      | None \<Rightarrow> magnetMaxInFlight)"

definition app_enqueueMagnet :: "int \<Rightarrow> rss_settings option \<Rightarrow> magnet_item \<Rightarrow> pipeline \<Rightarrow> pipeline" where
  "app_enqueueMagnet magnetMaxInFlight rss item p =
     enqueueMagnet item (setMagnetMaxInFlight (magnet_limit magnetMaxInFlight rss (mi_settlement item)) p)"

definition app_enqueueRssTorrentUrl :: "url_item \<Rightarrow> pipeline \<Rightarrow> pipeline" where
  "app_enqueueRssTorrentUrl item p = enqueueRssTorrentUrl (item\<lparr>ui_url := trimmed (ui_url item)\<rparr>) p"

definition on_download_request :: "int \<Rightarrow> rss_settings option \<Rightarrow> bool \<Rightarrow> download_request \<Rightarrow> pipeline \<Rightarrow> pipeline" where
  \<comment> \<open>the callback the controller gives the RSS service\<close>
  "on_download_request magnetMaxInFlight rss shuttingDown q p =
     (if shuttingDown then p
      else if q_magnet q \<noteq> []
      then app_enqueueMagnet magnetMaxInFlight rss
             \<lparr>mi_uri = q_magnet q, mi_savePath = q_save_path q, mi_settlement = q_settlement q,
              mi_skipInteractiveAdd = q_no_confirm q, mi_category = q_category q, mi_tagsCsv = q_tags_csv q\<rparr> p
      else if q_torrent_url q \<noteq> []
      then app_enqueueRssTorrentUrl \<lparr>ui_url = q_torrent_url q, ui_savePath = q_save_path q,
             ui_referer = q_referer_url q, ui_settlement = q_settlement q\<rparr> p
      else p)"

definition on_add_torrent_file :: "restore_env \<Rightarrow> qstring \<Rightarrow> qstring \<Rightarrow> add_state \<Rightarrow> add_state" where
  "on_add_torrent_file E filePath savePath st =
     (if hasError (validateTorrentFilePath (add_input E) filePath) then st
      else if trimmed savePath \<noteq> [] \<and> hasError (validatePath (add_input E) savePath) then st
      else worker (addTorrentFile filePath (add_resolve E savePath st) (trackers_for E st)) st)"

section \<open>The interactive add\<close>

text \<open>A \<open>std::future\<close>: \<open>get\<close> takes its state away, and waiting without state is undefined.\<close>

datatype 'a fut = FutPending | FutReady 'a | FutNoState

definition fut_is_ready :: "'a fut \<Rightarrow> bool option" where
  "fut_is_ready f = (case f of FutPending \<Rightarrow> Some False | FutReady _ \<Rightarrow> Some True | FutNoState \<Rightarrow> None)"

record pending_add =
  pa_fut :: "magnet_metadata option fut"
  pa_cached :: "magnet_metadata option"
  pa_shown :: bool              \<comment> \<open>the dialog has the metadata\<close>
  pa_failed :: bool             \<comment> \<open>the dialog has been told that there is none\<close>
  pa_add :: add_state

datatype poll_result = PollPending | PollReady magnet_metadata | PollFailed

definition metadata_poller :: "pending_add \<Rightarrow> (poll_result \<times> pending_add) option" where
  "metadata_poller pa =
     (case pa_cached pa of
        Some m \<Rightarrow> Some (PollReady m, pa)
      | None \<Rightarrow>
          (case pa_fut pa of
             FutNoState \<Rightarrow> None
           | FutPending \<Rightarrow> Some (PollPending, pa)
           | FutReady v \<Rightarrow>
               let pa1 = pa\<lparr>pa_fut := FutNoState, pa_cached := v\<rparr> in
               Some (case v of None \<Rightarrow> PollFailed | Some m \<Rightarrow> PollReady m, pa1)))"

definition files_ok :: "magnet_metadata \<Rightarrow> bool" where
  \<comment> \<open>what \<open>loadMagnetMetadata\<close> of the dialog asks for\<close>
  "files_ok m \<longleftrightarrow> mm_filePaths m \<noteq> [] \<and> length (mm_filePaths m) = length (mm_fileSizes m)"

definition poll_tick :: "pending_add \<Rightarrow> pending_add option" where
  "poll_tick pa =
     (if pa_shown pa \<or> pa_failed pa then Some pa
      else case metadata_poller pa of
             None \<Rightarrow> None
           | Some (PollPending, pa1) \<Rightarrow> Some pa1
           | Some (PollFailed, pa1) \<Rightarrow> Some (pa1\<lparr>pa_failed := True\<rparr>)
           | Some (PollReady m, pa1) \<Rightarrow>
               Some (if files_ok m then pa1\<lparr>pa_shown := True\<rparr> else pa1\<lparr>pa_failed := True\<rparr>))"

definition fetch_ends :: "task_id \<Rightarrow> magnet_metadata option option option \<Rightarrow> pending_add \<Rightarrow> pending_add" where
  \<comment> \<open>the fetching thread ends with this, if it does now\<close>
  "fetch_ends i r pa =
     (case (pa_fut pa, r) of
        (FutPending, Some ready) \<Rightarrow>
          (case prepareMagnetMetadata_wait i ready (pz_session (ad_tasks (pa_add pa))) of
             (meta, s) \<Rightarrow> pa\<lparr>pa_fut := FutReady meta, pa_add := worker (\<lambda>_. s) (pa_add pa)\<rparr>)
      | _ \<Rightarrow> pa)"

fun poll_loop :: "task_id \<Rightarrow> magnet_metadata option option option list \<Rightarrow> pending_add \<Rightarrow> pending_add option" where
  \<comment> \<open>the ticks of the timer of the dialog, with what the thread did before each\<close>
  "poll_loop i [] pa = Some pa"
| "poll_loop i (r # rs) pa = Option.bind (poll_tick (fetch_ends i r pa)) (poll_loop i rs)"

definition cleanup_prepared :: "task_id \<Rightarrow> pending_add \<Rightarrow> add_state option" where
  "cleanup_prepared i pa =
     (case pa_cached pa of
        Some m \<Rightarrow> Some (worker (cancelPreparedMagnet (mm_taskId m)) (pa_add pa))
      | None \<Rightarrow>
          (case pa_fut pa of
             FutNoState \<Rightarrow> None
           | FutPending \<Rightarrow> Some (worker (cancelPreparedMagnet i) (pa_add pa))
           | FutReady None \<Rightarrow> Some (pa_add pa)
           | FutReady (Some m) \<Rightarrow> Some (worker (cancelPreparedMagnet (mm_taskId m)) (pa_add pa))))"

definition no_settlement :: rss_settlement where
  "no_settlement = \<lparr>st_item_id = [], st_record_save_path = []\<rparr>"

definition presentInteractiveMagnetAdd ::
  "restore_env \<Rightarrow> qstring \<Rightarrow> qstring \<Rightarrow> promise \<Rightarrow> magnet_metadata option option option list \<Rightarrow>
   magnet_metadata option option option \<Rightarrow> task_add_input option \<Rightarrow> add_state \<Rightarrow> add_state option" where
  "presentInteractiveMagnetAdd E uri savePathHint p ticks late answer st =
     (let t = trimmed uri in
      if ad_shutting st \<or> \<not> ad_window st then Some st
      else if hasError (validateMagnetUri (add_input E) t) then Some st
      else case lt_parse_magnet (pv_lt E) t of
             Inl _ \<Rightarrow> Some st
           | Inr atp \<Rightarrow>
               let i = task_of_hashes (pv_lt E) (at_info_hashes atp);
                   st1 = st\<lparr>ad_tasks := upsertKnownTaskMagnet i t (ad_tasks st)\<rparr>;
                   temp = pe_file_path (pv_paths E) (add_resolve E savePathHint st1) (qs ''.pfd_meta'');
                   (r, s) = prepareMagnetMetadata (pv_lt E) t temp 120000 (trackers_for E st1) p (pz_session (ad_tasks st1));
                   start = \<lparr>pa_fut = (case r of None \<Rightarrow> FutReady None | Some _ \<Rightarrow> FutPending), pa_cached = None,
                            pa_shown = False, pa_failed = False, pa_add = worker (\<lambda>_. s) st1\<rparr> in
               Option.bind (poll_loop i ticks start) (\<lambda>pa0.
                 let pa = fetch_ends i late pa0 in
                 case (if pa_shown pa then answer else None) of
                   None \<Rightarrow> cleanup_prepared i pa
                 | Some ui \<Rightarrow>
                     (case pa_cached pa of
                        None \<Rightarrow> cleanup_prepared i pa
                      | Some m \<Rightarrow> Some (submitMagnetDialogResult E m ui no_settlement (pa_add pa)))))"

definition submitArgvMagnet ::
  "restore_env \<Rightarrow> qstring \<Rightarrow> promise \<Rightarrow> magnet_metadata option option option list \<Rightarrow>
   magnet_metadata option option option \<Rightarrow> task_add_input option \<Rightarrow> add_state \<Rightarrow> add_state option" where
  "submitArgvMagnet E magnet p ticks late answer st =
     (let t = trimmed magnet in
      if t = [] \<or> hasError (validateMagnetUri (add_input E) t) then Some st
      else let st1 = (case lt_parse_magnet (pv_lt E) t of
                        Inl _ \<Rightarrow> st
                      | Inr atp \<Rightarrow> st\<lparr>ad_tasks := upsertKnownTaskMagnet (task_of_hashes (pv_lt E) (at_info_hashes atp)) t
                                       (ad_tasks st)\<rparr>) in
        presentInteractiveMagnetAdd E t [] p ticks late answer st1)"

section \<open>Every item is settled\<close>

definition owes :: "rss_settlement \<Rightarrow> add_state \<Rightarrow> bool" where
  "owes s st \<longleftrightarrow> st_item_id s \<noteq> [] \<and> ad_service st"

lemma add_frames [simp]:
  "ad_settled (worker f st) = ad_settled st" "ad_service (worker f st) = ad_service st"
  "ad_window (worker f st) = ad_window st" "ad_files (worker f st) = ad_files st" "ad_shutting (worker f st) = ad_shutting st"
  "ad_magnets_finished (worker f st) = ad_magnets_finished st" "ad_torrents_finished (worker f st) = ad_torrents_finished st"
  "ad_settled (remove_torrent q st) = ad_settled st" "ad_service (remove_torrent q st) = ad_service st"
  "ad_window (remove_torrent q st) = ad_window st" "ad_files (remove_torrent q st) = ad_files st - {q}"
  "ad_magnets_finished (remove_torrent q st) = ad_magnets_finished st" "ad_torrents_finished (remove_torrent q st) = ad_torrents_finished st"
  "ad_tasks (remove_torrent q st) = ad_tasks st"
  by (simp_all add: worker_def remove_torrent_def)

lemma submit_frames [simp]:
  "ad_settled (submitPreparedMagnetAdd E m ui st) = ad_settled st" "ad_service (submitPreparedMagnetAdd E m ui st) = ad_service st"
  "ad_magnets_finished (submitPreparedMagnetAdd E m ui st) = ad_magnets_finished st"
  "ad_settled (submitTorrentFileFromDialog E q ui st) = ad_settled st" "ad_service (submitTorrentFileFromDialog E q ui st) = ad_service st"
  "ad_magnets_finished (submitTorrentFileFromDialog E q ui st) = ad_magnets_finished st"
  "ad_window (submitTorrentFileFromDialog E q ui st) = ad_window st" "ad_files (submitTorrentFileFromDialog E q ui st) = ad_files st"
  by (simp_all add: submitPreparedMagnetAdd_def submitTorrentFileFromDialog_def Let_def)

lemma settle_frames [simp]:
  "ad_settled (settleRssDownloadIfNeeded s ok q st) = ad_settled st @ (if owes s st then [(s, ok, q)] else [])"
  "ad_service (settleRssDownloadIfNeeded s ok q st) = ad_service st" "ad_window (settleRssDownloadIfNeeded s ok q st) = ad_window st"
  "ad_files (settleRssDownloadIfNeeded s ok q st) = ad_files st" "ad_tasks (settleRssDownloadIfNeeded s ok q st) = ad_tasks st"
  "ad_magnets_finished (settleRssDownloadIfNeeded s ok q st) = ad_magnets_finished st"
  "ad_torrents_finished (settleRssDownloadIfNeeded s ok q st) = ad_torrents_finished st"
  by (simp_all add: settleRssDownloadIfNeeded_def owes_def)

lemma finish_frames [simp]:
  "ad_settled (finish_magnet st) = ad_settled st" "ad_magnets_finished (finish_magnet st) = ad_magnets_finished st + 1"
  "ad_settled (finish_torrent st) = ad_settled st" "ad_torrents_finished (finish_torrent st) = ad_torrents_finished st + 1"
  by (simp_all add: finish_magnet_def finish_torrent_def)

lemma owes_frames [simp]:
  "owes s (worker f st) = owes s st" "owes s (remove_torrent q st) = owes s st" "owes s (settleRssDownloadIfNeeded s' ok q st) = owes s st"
  "owes s (submitPreparedMagnetAdd E m ui st) = owes s st" "owes s (submitTorrentFileFromDialog E q ui st) = owes s st"
  by (simp_all add: owes_def)

definition cancels_exported :: "magnet_metadata \<Rightarrow> task_add_input option \<Rightarrow> add_state \<Rightarrow> bool" where
  \<comment> \<open>the dialog over the exported torrent is shown and cancelled\<close>
  "cancels_exported meta answer st \<longleftrightarrow> trimmed (mm_exportedTorrentPath meta) \<noteq> [] \<and>
     trimmed (mm_exportedTorrentPath meta) \<in> ad_files st \<and> (ad_window st \<longrightarrow> answer = None)"

lemma present_settles:
  assumes "presentMagnetAddDialogViaExportedTorrent E meta s answer st = (ok, st')"
  shows "length (ad_settled st') = length (ad_settled st) + (if owes s st \<and> (ok \<or> cancels_exported meta answer st) then 1 else 0)"
    "ad_service st' = ad_service st" "ad_window st' = ad_window st" "ad_magnets_finished st' = ad_magnets_finished st"
    "ok \<Longrightarrow> \<not> cancels_exported meta answer st"
  using assms
  by (auto simp: presentMagnetAddDialogViaExportedTorrent_def cancels_exported_def Let_def split: if_splits option.splits)

lemma submitResult_settles:
  "length (ad_settled (submitMagnetDialogResult E meta ui s st)) = length (ad_settled st) + (if owes s st then 1 else 0)"
  "ad_magnets_finished (submitMagnetDialogResult E meta ui s st) = ad_magnets_finished st"
  by (simp_all add: submitMagnetDialogResult_def Let_def)

lemma show_settles:
  "length (ad_settled (snd (showMagnetAddDialogAndSubmit E meta s a1 a2 st))) = length (ad_settled st) +
     (if owes s st then if cancels_exported meta a1 st then 2 else 1 else 0)"
  "ad_magnets_finished (snd (showMagnetAddDialogAndSubmit E meta s a1 a2 st)) = ad_magnets_finished st"
proof -
  obtain ok st1 where p: "presentMagnetAddDialogViaExportedTorrent E meta s a1 st = (ok, st1)" by fastforce
  have same: "owes s st1 = owes s st" using present_settles(2) [OF p] by (simp add: owes_def)
  show "length (ad_settled (snd (showMagnetAddDialogAndSubmit E meta s a1 a2 st))) = length (ad_settled st) +
     (if owes s st then if cancels_exported meta a1 st then 2 else 1 else 0)"
    "ad_magnets_finished (snd (showMagnetAddDialogAndSubmit E meta s a1 a2 st)) = ad_magnets_finished st"
    using present_settles [OF p]
    by (cases ok; auto simp: showMagnetAddDialogAndSubmit_def p same submitResult_settles split: option.split)+
qed

lemma magnet_fetch_result:
  "fst (magnet_fetch E p ready job st) =
     (case lt_parse_magnet (pv_lt E) (trimmed (mj_uri job)) of Inl _ \<Rightarrow> None | Inr _ \<Rightarrow> Option.bind ready id)"
  "\<exists>f. snd (magnet_fetch E p ready job st) = worker f st"
  by (auto simp: magnet_fetch_def prepareMagnetMetadata_def prepareMagnetMetadata_wait_def split: sum.split option.split)

lemma cancels_exported_worker [simp]: "cancels_exported m a (worker f st) = cancels_exported m a st"
  by (simp add: cancels_exported_def)

lemma magnet_ready_settles:
  "ad_magnets_finished (magnet_ready E gone metaOpt a1 a2 job st) = ad_magnets_finished st + 1 \<and>
   length (ad_settled (magnet_ready E gone metaOpt a1 a2 job st)) = length (ad_settled st) +
     (if \<not> owes (mi_settlement (mj_item job)) st then 0
      else if \<not> gone \<and> ad_window st \<and> \<not> mi_skipInteractiveAdd (mj_item job) \<and>
              (case metaOpt of None \<Rightarrow> False | Some m \<Rightarrow> cancels_exported m a1 st) then 2 else 1)"
  by (cases metaOpt) (simp_all add: magnet_ready_def Let_def show_settles owes_def)


text \<open>
  Every item of the torrent lane is finished once and settled once, as a success exactly when its file was
  fetched, accepted and handed to the worker; a fetched file that is not handed over is removed, and one that is
  stays until the worker has read it.
\<close>

theorem torrent_item_settled:
  "let st' = run_torrent E item body tmp gone st;
       path = torrent_path body tmp;
       added = (trimmed (ui_url item) \<noteq> [] \<and> \<not> ad_shutting st \<and> \<not> gone \<and> ad_window st \<and> path \<noteq> [] \<and>
                \<not> hasError (validateTorrentFilePath (add_input E) path)) in
   ad_torrents_finished st' = ad_torrents_finished st + 1 \<and>
   map (\<lambda>(s, ok, _). (s, ok)) (drop (length (ad_settled st)) (ad_settled st')) =
     (if owes (ui_settlement item) st then [(ui_settlement item, added)] else []) \<and>
   cmds (pz_session (ad_tasks st')) = cmds (pz_session (ad_tasks st)) @
     (if added then [AddTorrentFileCmd path (add_resolve E (ui_savePath item) st) (trackers_for E st) default_options True] else []) \<and>
   (if added then path \<in> ad_files st' \<and> ad_later_removed st' = ad_later_removed st @ [path]
    else ad_files st' = ad_files st - (if trimmed (ui_url item) = [] \<or> ad_shutting st \<or> path = [] then {} else {path}))"
  by (auto simp: run_torrent_def startOneRssTorrentUrlOnUi_def torrent_ready_def Let_def owes_def worker_def
      addTorrentFileWithOptions_def enqueue_cmd_def settleRssDownloadIfNeeded_def finish_torrent_def remove_torrent_def)

section \<open>Dialogs over an exported torrent file\<close>

text \<open>
  C9. What the dialogs over an exported torrent file do. Accepting the first one queues the command that
  adds the file and removes the file at once, before the worker can read it, and the RSS item counts as
  downloaded even when the user data are rejected and nothing is queued. Cancelling it opens the second dialog for
  the magnet that has just been given up; accepting that one finalizes a magnet the
  worker has been told to drop, and settles the item first as failed and then as downloaded.
\<close>

theorem exported_torrent_dialogs:
  assumes "trimmed (mm_exportedTorrentPath meta) = path" and "path \<noteq> []" and "path \<in> ad_files st" and "ad_window st"
    and "owes s st" and "files_ok meta"
  shows "let st1 = snd (showMagnetAddDialogAndSubmit E meta s (Some ui) a2 st);
             st2 = snd (showMagnetAddDialogAndSubmit E meta s None (Some ui) st);
             built = buildTaskAdd (pv_paths E) (pz_default_dir (ad_tasks st)) ui;
             before = length (cmds (pz_session (ad_tasks st))) in
     path \<notin> ad_files st1 \<and>
     map (fst \<circ> snd) (drop (length (ad_settled st)) (ad_settled st1)) = [True] \<and>
     drop before (cmds (pz_session (ad_tasks st1))) = CancelPreparedMagnetCmd (mm_taskId meta) #
       (if user_data_ok E ui \<and> \<not> hasError (validateTorrentFilePath (add_input E) path)
        then [AddTorrentFileCmd path (tr_finalSavePath built) (trackers_for E st) (tr_opts built) True] else []) \<and>
     map (fst \<circ> snd) (drop (length (ad_settled st)) (ad_settled st2)) = [False, True] \<and>
     drop before (cmds (pz_session (ad_tasks st2))) =
       [CancelPreparedMagnetCmd (mm_taskId meta),
        if user_data_ok E ui
        then FinalizePreparedMagnetCmd (mm_taskId meta) (tr_finalSavePath built) (trackers_for E st) (tr_opts built)
        else CancelPreparedMagnetCmd (mm_taskId meta)]"
proof -
  define st0 where "st0 = worker (cancelPreparedMagnet (mm_taskId meta)) st"
  have dir: "pz_default_dir (ad_tasks st0) = pz_default_dir (ad_tasks st)" "trackers_for E st0 = trackers_for E st"
    "cmds (pz_session (ad_tasks st0)) = cmds (pz_session (ad_tasks st)) @ [CancelPreparedMagnetCmd (mm_taskId meta)]"
    by (simp_all add: st0_def worker_def trackers_for_def cancelPreparedMagnet_def enqueue_cmd_def)
  have frames: "ad_settled st0 = ad_settled st" "owes s st0" "ad_files st0 = ad_files st"
    using assms(5) by (simp_all add: st0_def)
  have s1: "snd (showMagnetAddDialogAndSubmit E meta s (Some ui) a2 st) =
      settleRssDownloadIfNeeded s True (add_resolve E (ta_savePath ui) st0) (remove_torrent path (submitTorrentFileFromDialog E path ui st0))"
    using assms by (simp add: showMagnetAddDialogAndSubmit_def presentMagnetAddDialogViaExportedTorrent_def Let_def st0_def)
  define mid where "mid = settleRssDownloadIfNeeded s False [] (remove_torrent path st0)"
  have s2: "snd (showMagnetAddDialogAndSubmit E meta s None (Some ui) st) =
      settleRssDownloadIfNeeded s True (add_resolve E (ta_savePath ui) mid) (submitPreparedMagnetAdd E meta ui mid)"
    using assms
    by (simp add: showMagnetAddDialogAndSubmit_def presentMagnetAddDialogViaExportedTorrent_def submitMagnetDialogResult_def
        Let_def mid_def files_ok_def st0_def)
  have "trackers_for E mid = trackers_for E st0"
    by (simp add: mid_def trackers_for_def remove_torrent_def settleRssDownloadIfNeeded_def)
  moreover have "ad_tasks mid = ad_tasks st0" "ad_settled mid = ad_settled st @ [(s, False, [])]" "owes s mid"
    using frames by (simp_all add: mid_def)
  ultimately have mid: "ad_tasks mid = ad_tasks st0" "trackers_for E mid = trackers_for E st"
    "ad_settled mid = ad_settled st @ [(s, False, [])]" "owes s mid"
    using dir(2) by simp_all
  have c1: "cmds (pz_session (ad_tasks (submitTorrentFileFromDialog E path ui st0))) = cmds (pz_session (ad_tasks st0)) @
      (if user_data_ok E ui \<and> \<not> hasError (validateTorrentFilePath (add_input E) path)
       then [AddTorrentFileCmd path (tr_finalSavePath (buildTaskAdd (pv_paths E) (pz_default_dir (ad_tasks st)) ui)) (trackers_for E st)
               (tr_opts (buildTaskAdd (pv_paths E) (pz_default_dir (ad_tasks st)) ui)) True] else [])"
    unfolding submitTorrentFileFromDialog_def Let_def dir
    by (simp add: worker_def addTorrentFileWithOptions_def enqueue_cmd_def dir(3))
  have c2: "cmds (pz_session (ad_tasks (submitPreparedMagnetAdd E meta ui mid))) = cmds (pz_session (ad_tasks st0)) @
      [if user_data_ok E ui
       then FinalizePreparedMagnetCmd (mm_taskId meta) (tr_finalSavePath (buildTaskAdd (pv_paths E) (pz_default_dir (ad_tasks st)) ui))
              (trackers_for E st) (tr_opts (buildTaskAdd (pv_paths E) (pz_default_dir (ad_tasks st)) ui))
       else CancelPreparedMagnetCmd (mm_taskId meta)]"
    unfolding submitPreparedMagnetAdd_def Let_def mid dir
    by (simp add: worker_def finalizePreparedMagnet_def cancelPreparedMagnet_def enqueue_cmd_def mid(1) dir(3))
  show ?thesis
    unfolding Let_def s1 s2 settle_frames add_frames submit_frames c1 c2 dir(3) mid(3) frames(1)
    using frames mid(4) by simp
qed

definition sample_ui :: task_add_input where
  "sample_ui = \<lparr>ta_name = [], ta_savePath = [], ta_layout = kOriginal, ta_startTorrent = True, ta_stopCondition = 0,
     ta_sequentialDownload = False, ta_skipHashCheck = False, ta_addToTopQueue = False, ta_category = [], ta_tagsCsv = [],
     ta_fileWanted = []\<rparr>"

definition sample_meta :: magnet_metadata where
  "sample_meta = \<lparr>mm_taskId = uid 1, mm_name = [], mm_totalBytes = 1, mm_creationDate = 0, mm_infoHashV1 = [], mm_infoHashV2 = [],
     mm_comment = [], mm_filePaths = [qs ''f''], mm_fileSizes = [1], mm_exportedTorrentPath = qs ''x.torrent''\<rparr>"

theorem exported_torrent_dialogs_witness:
  "\<forall>(st :: add_state) E ans. (let st0 = st\<lparr>ad_files := {qs ''x.torrent''}, ad_window := True, ad_service := True, ad_settled := []\<rparr>;
        s = \<lparr>st_item_id = qs ''i'', st_record_save_path = []\<rparr> in
      qs ''x.torrent'' \<notin> ad_files (snd (showMagnetAddDialogAndSubmit E sample_meta s (Some sample_ui) ans st0)) \<and>
      map (fst \<circ> snd) (ad_settled (snd (showMagnetAddDialogAndSubmit E sample_meta s None (Some sample_ui) st0))) = [False, True])"
proof -
  have t: "trimmed (mm_exportedTorrentPath sample_meta) = qs ''x.torrent''" by code_simp
  have ne: "qs ''x.torrent'' \<noteq> []" and f: "files_ok sample_meta" by code_simp+
  have ow: "owes \<lparr>st_item_id = qs ''i'', st_record_save_path = []\<rparr> (st\<lparr>ad_files := {qs ''x.torrent''}, ad_window := True, ad_service := True, ad_settled := []\<rparr>)"
    for st :: add_state by (simp add: owes_def qs_def)
  show ?thesis
    using exported_torrent_dialogs [OF t ne _ _ ow f, where ui = sample_ui] by (simp add: Let_def)
qed

section \<open>When the interactive add goes wrong\<close>

lemma poll_loop_over:
  "pa_shown pa \<or> pa_failed pa \<Longrightarrow> pa_fut pa = FutNoState \<Longrightarrow> poll_loop i rs pa = Some pa"
  by (induction rs) (auto simp: fetch_ends_def poll_tick_def)

lemma fetch_ends_ready:
  "pa_fut pa = FutPending \<Longrightarrow> fetch_ends i (Some ready) pa =
     pa\<lparr>pa_fut := FutReady (Option.bind ready id), pa_add := pa_add (fetch_ends i (Some ready) pa)\<rparr>"
  by (cases ready) (auto simp: fetch_ends_def prepareMagnetMetadata_wait_def)

lemma poll_loop_pending:
  assumes "pa_fut pa = FutPending" and "pa_cached pa = None" and "\<not> pa_shown pa" and "\<not> pa_failed pa"
  shows "case List.find (\<lambda>r. r \<noteq> None) rs of
     Some (Some ready) \<Rightarrow>
       (\<exists>pa'. poll_loop i rs pa = Some pa' \<and> pa_fut pa' = FutNoState \<and> pa_cached pa' = Option.bind ready id \<and>
         pa_shown pa' = (case Option.bind ready id of None \<Rightarrow> False | Some m \<Rightarrow> files_ok m))
   | _ \<Rightarrow> poll_loop i rs pa = Some pa"
  using assms
proof (induction rs)
  case (Cons r rs)
  show ?case
  proof (cases r)
    case None
    then have "poll_tick (fetch_ends i r pa) = Some pa"
      using Cons.prems by (simp add: fetch_ends_def poll_tick_def metadata_poller_def)
    with None have "poll_loop i (r # rs) pa = poll_loop i rs pa"
      "List.find (\<lambda>r. r \<noteq> None) (r # rs) = List.find (\<lambda>r. r \<noteq> None) rs"
      by simp_all
    then show ?thesis using Cons.IH [OF Cons.prems] by (simp only:)
  next
    case (Some ready)
    obtain add where f: "fetch_ends i r pa = pa\<lparr>pa_fut := FutReady (Option.bind ready id), pa_add := add\<rparr>"
      using fetch_ends_ready [OF Cons.prems(1)] Some by blast
    have "\<exists>pa'. poll_tick (fetch_ends i r pa) = Some pa' \<and> (pa_shown pa' \<or> pa_failed pa') \<and> pa_fut pa' = FutNoState \<and>
        pa_cached pa' = Option.bind ready id \<and> pa_shown pa' = (case Option.bind ready id of None \<Rightarrow> False | Some m \<Rightarrow> files_ok m)"
      using Cons.prems by (cases "Option.bind ready id") (simp_all add: f poll_tick_def metadata_poller_def Let_def)
    then show ?thesis using poll_loop_over Some by fastforce
  qed
qed simp

lemma cleanup_prepared_undefined: "cleanup_prepared i pa = None \<longleftrightarrow> pa_cached pa = None \<and> pa_fut pa = FutNoState"
  by (simp add: cleanup_prepared_def split: option.split fut.split)

text \<open>
  C10. The interactive add of a magnet link runs into undefined behaviour exactly when the fetch of the metadata fails
  while the dialog is open: the poller has then taken the result out of the future, and closing the
  dialog, the only thing left to the user, asks the empty future once more.
\<close>

theorem interactive_add_undefined_iff:
  "presentInteractiveMagnetAdd E uri hint p ticks late answer st = None \<longleftrightarrow>
     \<not> ad_shutting st \<and> ad_window st \<and> \<not> hasError (validateMagnetUri (add_input E) (trimmed uri)) \<and>
     \<not> isl (lt_parse_magnet (pv_lt E) (trimmed uri)) \<and>
     (case List.find (\<lambda>r. r \<noteq> None) ticks of Some (Some ready) \<Rightarrow> Option.bind ready id = None | _ \<Rightarrow> False)"
proof (cases "ad_shutting st \<or> \<not> ad_window st \<or> hasError (validateMagnetUri (add_input E) (trimmed uri)) \<or>
    isl (lt_parse_magnet (pv_lt E) (trimmed uri))")
  case True
  then show ?thesis by (auto simp: presentInteractiveMagnetAdd_def Let_def split: sum.split)
next
  case False
  then obtain atp where parse: "lt_parse_magnet (pv_lt E) (trimmed uri) = Inr atp" by (cases "lt_parse_magnet (pv_lt E) (trimmed uri)") auto
  define i where "i = task_of_hashes (pv_lt E) (at_info_hashes atp)"
  define goes_on where "goes_on = (\<lambda>pa0. let pa = fetch_ends i late pa0 in
        case (if pa_shown pa then answer else None) of
          None \<Rightarrow> cleanup_prepared i pa
        | Some ui \<Rightarrow> (case pa_cached pa of None \<Rightarrow> cleanup_prepared i pa
                     | Some m \<Rightarrow> Some (submitMagnetDialogResult E m ui no_settlement (pa_add pa))))"
  have "\<exists>add. presentInteractiveMagnetAdd E uri hint p ticks late answer st =
      Option.bind (poll_loop i ticks \<lparr>pa_fut = FutPending, pa_cached = None, pa_shown = False, pa_failed = False, pa_add = add\<rparr>) goes_on"
    using False parse unfolding goes_on_def i_def
    by (simp add: presentInteractiveMagnetAdd_def prepareMagnetMetadata_def Let_def) (rule exI, rule refl)
  then obtain start where present: "presentInteractiveMagnetAdd E uri hint p ticks late answer st =
      Option.bind (poll_loop i ticks start) goes_on"
    and start: "pa_fut start = FutPending" "pa_cached start = None" "\<not> pa_shown start" "\<not> pa_failed start"
    by auto
  have late: "\<exists>add f. fetch_ends i late pa = pa\<lparr>pa_fut := f, pa_add := add\<rparr> \<and> (f = FutNoState \<longleftrightarrow> pa_fut pa = FutNoState)" for pa
  proof (cases "pa_fut pa = FutPending \<and> late \<noteq> None")
    case True
    then show ?thesis using fetch_ends_ready [of pa i] by (metis fut.distinct(1,3,5) not_None_eq)
  next
    case no: False
    then have "fetch_ends i late pa = pa\<lparr>pa_fut := pa_fut pa, pa_add := pa_add pa\<rparr>"
      by (auto simp: fetch_ends_def split: fut.split option.split)
    then show ?thesis by blast
  qed
  have undefined: "goes_on pa = None \<longleftrightarrow> pa_cached pa = None \<and> pa_fut pa = FutNoState" for pa
  proof -
    obtain add f where "fetch_ends i late pa = pa\<lparr>pa_fut := f, pa_add := add\<rparr>" "f = FutNoState \<longleftrightarrow> pa_fut pa = FutNoState"
      using late [of pa] by blast
    then show ?thesis
      by (simp add: goes_on_def Let_def cleanup_prepared_undefined split: option.split)
  qed
  show ?thesis
  proof (cases "List.find (\<lambda>r. r \<noteq> None) ticks")
    case None
    then have "poll_loop i ticks start = Some start"
      using poll_loop_pending [OF start, where rs = ticks and i = i] by simp
    with None start show ?thesis by (simp add: present undefined)
  next
    case (Some r)
    then obtain ready where r: "r = Some ready" by (auto simp: find_Some_iff)
    then obtain pa where "poll_loop i ticks start = Some pa" "pa_fut pa = FutNoState" "pa_cached pa = Option.bind ready id"
      using poll_loop_pending [OF start, where rs = ticks and i = i] Some by auto
    with Some r False parse show ?thesis by (simp add: present undefined)
  qed
qed

end
