(* ===== verification/AppUi.thy ===== *)
theory AppUi
  imports TaskRestore AppSettings EventIngest
begin

text \<open>
  The callbacks between the window, the worker and the task store that \<open>app_controller.cc\<close> installs:
  commands and edits of the user, the default trackers, and the batches of alerts. Log lines are left out except
  those the use cases write; requests to redraw go through the refresh scheduler.
\<close>

section \<open>The state\<close>

datatype notice = AlreadyInList qstring | DownloadFinished qstring

record ui_state =
  us_tasks :: app_tasks
  us_locks :: locks
  us_refresh :: refresh_scheduler
  us_task_trackers :: "(qstring \<times> qstring list) list"    \<comment> \<open>\<open>taskTrackers_\<close>\<close>
  us_auto_trackers :: bool
  us_default_trackers :: "qstring list"
  us_tray :: bool                                        \<comment> \<open>the icon in the system tray exists\<close>
  us_notified :: "qstring set"                           \<comment> \<open>\<open>notifiedFinished_\<close>\<close>
  us_notices :: "notice list"
  us_info :: "qstring list"
  us_errors :: "qstring list"

definition us_worker :: "(session \<Rightarrow> session) \<Rightarrow> ui_state \<Rightarrow> ui_state" where
  "us_worker f st = st\<lparr>us_tasks := (us_tasks st)\<lparr>pz_session := f (pz_session (us_tasks st))\<rparr>\<rparr>"

definition control :: "(app_log \<Rightarrow> app_log) \<Rightarrow> ui_state \<Rightarrow> ui_state" where
  \<comment> \<open>a call of the control use case\<close>
  "control f st =
     (let l = f \<lparr>al_session = pz_session (us_tasks st), al_info = us_info st\<rparr> in
      st\<lparr>us_tasks := (us_tasks st)\<lparr>pz_session := al_session l\<rparr>, us_info := al_info l\<rparr>)"

definition edit :: "clock \<Rightarrow> (TaskPipeline.store consumer \<Rightarrow> TaskPipeline.store logged \<Rightarrow> bool \<times> TaskPipeline.store logged) \<Rightarrow> ui_state \<Rightarrow> bool \<times> ui_state" where
  \<comment> \<open>a call of the use case that edits user data\<close>
  "edit clk f st =
     (case f (Some (service_consume clk)) (pz_store (us_tasks st), us_errors st) of
        (ok, s, errors) \<Rightarrow> (ok, st\<lparr>us_tasks := (us_tasks st)\<lparr>pz_store := s\<rparr>, us_errors := errors\<rparr>))"

definition redraw :: "ui_state \<Rightarrow> ui_state" where
  "redraw st = st\<lparr>us_refresh := requestRefresh (us_refresh st)\<rparr>"

section \<open>Commands of the user\<close>

definition injectTransitionalStatus :: "clock \<Rightarrow> int \<Rightarrow> task_id \<Rightarrow> task_status \<Rightarrow> ui_state \<Rightarrow> ui_state" where
  "injectTransitionalStatus clk nowMs i status st =
     redraw (st\<lparr>us_tasks := (us_tasks st)\<lparr>pz_store := service_consume clk
         (default_event\<lparr>e_type := kStatusChanged, e_taskId := i, e_status := status\<rparr>) (pz_store (us_tasks st))\<rparr>,
       us_locks := lockProgressStatus i (nowMs + 1000) (us_locks st)\<rparr>)"

definition on_pause :: "clock \<Rightarrow> int \<Rightarrow> task_id \<Rightarrow> ui_state \<Rightarrow> ui_state" where
  "on_pause clk nowMs i st =
     injectTransitionalStatus clk nowMs i stPaused (control (uc_pauseTask controller_use_case i) st)"

definition on_resume :: "clock \<Rightarrow> int \<Rightarrow> task_id \<Rightarrow> ui_state \<Rightarrow> ui_state" where
  "on_resume clk nowMs i st =
     injectTransitionalStatus clk nowMs i stQueued (control (uc_resumeTask controller_use_case i) st)"

definition on_remove :: "task_id \<Rightarrow> bool \<Rightarrow> ui_state \<Rightarrow> ui_state" where
  "on_remove i removeFiles = control (uc_removeTask controller_use_case i removeFiles)"

definition on_add_tracker :: "input_env \<Rightarrow> task_id \<Rightarrow> qstring \<Rightarrow> ui_state \<Rightarrow> ui_state" where
  "on_add_tracker E i url st =
     (if hasError (validateTrackerUrl E url) then st else us_worker (addTaskTracker i (trimmed url)) st)"

definition on_edit_tracker :: "input_env \<Rightarrow> task_id \<Rightarrow> qstring \<Rightarrow> qstring \<Rightarrow> ui_state \<Rightarrow> ui_state" where
  "on_edit_tracker E i oldUrl newUrl st =
     (if hasError (validateTrackerUrl E newUrl) then st
      else us_worker (editTaskTracker i (trimmed oldUrl) (trimmed newUrl)) st)"

definition on_remove_tracker :: "task_id \<Rightarrow> qstring \<Rightarrow> ui_state \<Rightarrow> ui_state" where
  "on_remove_tracker i url = us_worker (removeTaskTracker i (trimmed url))"

definition on_reannounce_tracker :: "task_id \<Rightarrow> qstring \<Rightarrow> ui_state \<Rightarrow> ui_state" where
  "on_reannounce_tracker i url = us_worker (forceReannounceTracker i (trimmed url))"

definition on_edit_trackers :: "input_env \<Rightarrow> task_id \<Rightarrow> qstring list \<Rightarrow> ui_state \<Rightarrow> ui_state" where
  "on_edit_trackers E i trackers st =
     (if hasError (validateTrackerList E trackers) then st
      else let clean = sanitizeTrackers E trackers in
        us_worker (editTrackers i clean) (st\<lparr>us_task_trackers := AList.update (taskIdKey i) clean (us_task_trackers st)\<rparr>))"

definition on_query_task_trackers :: "task_id \<Rightarrow> ui_state \<Rightarrow> qstring list \<times> ui_state" where
  \<comment> \<open>\<open>operator[]\<close> inserts an empty list for a task it does not know\<close>
  "on_query_task_trackers i st =
     (case map_of (us_task_trackers st) (taskIdKey i) of
        Some xs \<Rightarrow> (xs, st)
      | None \<Rightarrow> ([], st\<lparr>us_task_trackers := AList.update (taskIdKey i) [] (us_task_trackers st)\<rparr>))"

definition on_default_trackers :: "input_env \<Rightarrow> bool \<Rightarrow> qstring list \<Rightarrow> ui_state \<Rightarrow> ui_state" where
  \<comment> \<open>the settings are saved afterwards\<close>
  "on_default_trackers E enabled trackers st =
     st\<lparr>us_auto_trackers := enabled,
        us_default_trackers := (if enabled then sanitizeTrackers E (normalizeTrackers trackers) else us_default_trackers st)\<rparr>"

definition on_move :: "input_env \<Rightarrow> clock \<Rightarrow> task_id \<Rightarrow> qstring \<Rightarrow> ui_state \<Rightarrow> ui_state" where
  "on_move E clk i targetPath st =
     (case edit clk (\<lambda>f. moveTask E f i targetPath) st of
        (ok, st1) \<Rightarrow> if \<not> ok then st1 else redraw (us_worker (moveStorage i targetPath) st1))"

definition on_rename :: "clock \<Rightarrow> task_id \<Rightarrow> qstring \<Rightarrow> ui_state \<Rightarrow> ui_state" where
  "on_rename clk i name st =
     (case edit clk (\<lambda>f. renameTask f i name) st of (ok, st1) \<Rightarrow> if \<not> ok then st1 else redraw st1)"

definition on_category :: "clock \<Rightarrow> task_id \<Rightarrow> qstring \<Rightarrow> ui_state \<Rightarrow> ui_state" where
  "on_category clk i category st =
     (case edit clk (\<lambda>f. updateCategory f i category) st of (ok, st1) \<Rightarrow> if \<not> ok then st1 else redraw st1)"

definition on_tags :: "clock \<Rightarrow> task_id \<Rightarrow> qstring list \<Rightarrow> ui_state \<Rightarrow> ui_state" where
  "on_tags clk i tags st =
     (case edit clk (\<lambda>f. updateTags f i tags) st of (ok, st1) \<Rightarrow> if \<not> ok then st1 else redraw st1)"

definition on_preview :: "task_id \<Rightarrow> ui_state \<Rightarrow> qstring option" where
  \<comment> \<open>the folder that is opened\<close>
  "on_preview i st =
     (case service_snapshot (pz_store (us_tasks st)) i of
        None \<Rightarrow> None
      | Some s \<Rightarrow> if s_savePath s = [] then None else Some (s_savePath s))"

section \<open>Batches of alerts\<close>

fun show_duplicates :: "TaskPipeline.store \<Rightarrow> task_id list \<Rightarrow> qstring list \<Rightarrow> notice list" where
  \<comment> \<open>each task once per batch; the keys shown so far\<close>
  "show_duplicates s [] seen = []"
| "show_duplicates s (i # is) seen =
     (if taskIdKey i \<in> set seen then show_duplicates s is seen
      else AlreadyInList (case service_snapshot s i of None \<Rightarrow> [] | Some t \<Rightarrow> s_name t) #
           show_duplicates s is (taskIdKey i # seen))"

definition notify_finished :: "task_snapshot \<Rightarrow> ui_state \<Rightarrow> ui_state" where
  "notify_finished s st =
     (let key = taskIdKey (s_taskId s) in
      if s_status s \<noteq> stFinished \<or> key \<in> us_notified st then st
      else st\<lparr>us_notified := insert key (us_notified st),
              us_notices := us_notices st @ [DownloadFinished (if s_name s = [] then take 8 key else s_name s)]\<rparr>)"

definition remember_magnets :: "lt_view list \<Rightarrow> app_tasks \<Rightarrow> app_tasks" where
  "remember_magnets views =
     fold (\<lambda>v t. if v_magnet v \<noteq> [] then upsertKnownTaskMagnet (v_taskId v) (v_magnet v) t else t) views"

definition on_alerts :: "int \<Rightarrow> (nat \<Rightarrow> clock) \<Rightarrow> lt_view list \<Rightarrow> ui_state \<Rightarrow> ui_state" where
  "on_alerts now clk views st =
     (let t1 = remember_magnets views (us_tasks st) in
      case ingest now clk views (Some (pz_store t1), us_locks st) of
        (result, ps, m) \<Rightarrow>
          let s = (case ps of None \<Rightarrow> pz_store t1 | Some s \<Rightarrow> s);
              t2 = t1\<lparr>pz_store := s,
                      pz_magnets := fold (\<lambda>i. AList.delete (taskIdKey i)) (removedTaskIds result) (pz_magnets t1)\<rparr>;
              st1 = st\<lparr>us_tasks := t2, us_locks := m,
                       us_notices := us_notices st @ show_duplicates s (duplicateRejectedTaskIds result) []\<rparr> in
          redraw (if us_tray st1 then fold notify_finished (service_snapshots s) st1 else st1))"

section \<open>A pause holds\<close>

lemma status_event_step:
  "\<exists>s'. task_step (clk, default_event\<lparr>e_type := kStatusChanged, e_taskId := i, e_status := stPaused\<rparr>) (Some s) = Some s' \<and>
     s_status s' = stPaused"
  by (simp add: apply_payload_def default_event_def apply_status_changed_def Let_def)

lemma control_pause:
  "us_locks (control (uc_pauseTask controller_use_case i) st) = us_locks st"
  "pz_store (us_tasks (control (uc_pauseTask controller_use_case i) st)) = pz_store (us_tasks st)"
  "cmds (pz_session (us_tasks (control (uc_pauseTask controller_use_case i) st))) = cmds (pz_session (us_tasks st)) @ [PauseCmd i]"
  by (simp_all add: control_def uc_pauseTask_def controller_use_case_def call_def upd_session_def pauseTask_def enqueue_cmd_def Let_def)

lemma on_pause_effect:
  assumes "service_snapshot (pz_store (us_tasks st)) i = Some s"
  shows "\<exists>s'. service_snapshot (pz_store (us_tasks (on_pause clk nowMs i st))) i = Some s' \<and> s_status s' = stPaused"
    "map_of (us_locks (on_pause clk nowMs i st)) (taskIdKey i) = Some (nowMs + 1000)"
    "cmds (pz_session (us_tasks (on_pause clk nowMs i st))) = cmds (pz_session (us_tasks st)) @ [PauseCmd i]"
proof -
  have step: "snapshot (service_consume clk (default_event\<lparr>e_type := kStatusChanged, e_taskId := i, e_status := stPaused\<rparr>)
      (pz_store (us_tasks st))) i =
    task_step (clk, default_event\<lparr>e_type := kStatusChanged, e_taskId := i, e_status := stPaused\<rparr>) (Some s)"
    using assms by (simp add: service_snapshot_def service_consume_def consume_def snapshot_applyEvent del: task_step.simps)
  obtain s' where "task_step (clk, default_event\<lparr>e_type := kStatusChanged, e_taskId := i, e_status := stPaused\<rparr>) (Some s) = Some s'"
    "s_status s' = stPaused"
    using status_event_step by blast
  with step show "\<exists>s'. service_snapshot (pz_store (us_tasks (on_pause clk nowMs i st))) i = Some s' \<and> s_status s' = stPaused"
    by (simp add: on_pause_def injectTransitionalStatus_def redraw_def control_pause service_snapshot_def del: task_step.simps)
  show "map_of (us_locks (on_pause clk nowMs i st)) (taskIdKey i) = Some (nowMs + 1000)"
    by (simp add: on_pause_def injectTransitionalStatus_def redraw_def lockProgressStatus_def update_conv')
  show "cmds (pz_session (us_tasks (on_pause clk nowMs i st))) = cmds (pz_session (us_tasks st)) @ [PauseCmd i]"
    by (simp add: on_pause_def injectTransitionalStatus_def redraw_def control_pause)
qed

lemma remember_magnets_store [simp]: "pz_store (remember_magnets views t) = pz_store t"
proof -
  have "pz_store (upsertKnownTaskMagnet i m t) = pz_store t" for i m t by (simp add: upsertKnownTaskMagnet_def)
  then show ?thesis by (induction views arbitrary: t) (simp_all add: remember_magnets_def)
qed

lemma notify_finished_frames [simp]:
  "us_tasks (fold notify_finished ss st) = us_tasks st" "us_locks (fold notify_finished ss st) = us_locks st"
  by (induction ss arbitrary: st) (simp_all add: notify_finished_def Let_def)

lemma on_alerts_frames:
  "pz_store (us_tasks (on_alerts now clk views st)) =
     (case fst (snd (ingest now clk views (Some (pz_store (us_tasks st)), us_locks st))) of
        None \<Rightarrow> pz_store (us_tasks st) | Some s \<Rightarrow> s)"
  "us_locks (on_alerts now clk views st) = snd (snd (ingest now clk views (Some (pz_store (us_tasks st)), us_locks st)))"
  by (auto simp: on_alerts_def redraw_def Let_def split: prod.split option.split)

definition quiet :: "task_id \<Rightarrow> lt_view list \<Rightarrow> bool" where
  \<comment> \<open>for this task the views are only reports of progress and rates\<close>
  "quiet i views \<longleftrightarrow> list_all (\<lambda>v. v_taskId v = i \<longrightarrow> v_type v = vtTaskProgress \<or> v_type v = vtTaskRate) views"

lemma on_alerts_keeps:
  assumes "map_of (us_locks st) (taskIdKey i) = Some t" and "now < t" and "quiet i views"
    and "service_snapshot (pz_store (us_tasks st)) i = Some s"
  shows "\<exists>s'. service_snapshot (pz_store (us_tasks (on_alerts now clk views st))) i = Some s' \<and> s_status s' = s_status s"
    "map_of (us_locks (on_alerts now clk views st)) (taskIdKey i) = Some t"
proof -
  have q: "v_type v = vtTaskProgress \<or> v_type v = vtTaskRate" if "v \<in> set views" "v_taskId v = i" for v
    using assms(3) that by (auto simp: quiet_def list_all_iff)
  from locked_status_survives_reports [where now = now and views = views and clk = clk, OF assms(1,2) q assms(4)]
  obtain st' m' s' where "snd (ingest now clk views (Some (pz_store (us_tasks st)), us_locks st)) = (Some st', m')"
    "service_snapshot st' i = Some s'" "s_status s' = s_status s" "map_of m' (taskIdKey i) = Some t" by blast
  then show "\<exists>s'. service_snapshot (pz_store (us_tasks (on_alerts now clk views st))) i = Some s' \<and> s_status s' = s_status s"
    "map_of (us_locks (on_alerts now clk views st)) (taskIdKey i) = Some t"
    by (simp_all add: on_alerts_frames)
qed

lemma on_alerts_run_keeps:
  assumes "map_of (us_locks st) (taskIdKey i) = Some t" and "list_all (\<lambda>(now, clk, views). now < t \<and> quiet i views) batches"
    and "service_snapshot (pz_store (us_tasks st)) i = Some s" and "s_status s = stPaused"
  shows "\<exists>s'. service_snapshot (pz_store (us_tasks (fold (\<lambda>(now, clk, views). on_alerts now clk views) batches st))) i = Some s' \<and>
     s_status s' = stPaused"
  using assms
proof (induction batches arbitrary: st s)
  case (Cons b bs)
  obtain now clk views where b: "b = (now, clk, views)" by (cases b)
  with Cons.prems have n: "now < t" "quiet i views" and rest: "list_all (\<lambda>(now, clk, views). now < t \<and> quiet i views) bs"
    by simp_all
  from on_alerts_keeps(1) [OF Cons.prems(1) n Cons.prems(3), where clk = clk] obtain s' where
    s': "service_snapshot (pz_store (us_tasks (on_alerts now clk views st))) i = Some s'" "s_status s' = stPaused"
    using Cons.prems(4) by auto
  from Cons.IH [OF on_alerts_keeps(2) [OF Cons.prems(1) n Cons.prems(3), where clk = clk] rest s'] show ?case
    by (simp add: b)
qed auto

text \<open>
  C7. When the user pauses a known task, the command is queued, the task is shown as paused at once, and stays so for a
  second: whatever batches of alerts arrive before the lock expires, as long as they hold only reports of progress
  and rates of this task and anything about others.
\<close>

theorem user_pause_holds:
  assumes "service_snapshot (pz_store (us_tasks st)) i = Some s"
    and "list_all (\<lambda>(now, _, views). now < nowMs + 1000 \<and> quiet i views) batches"
  shows "cmds (pz_session (us_tasks (on_pause clk nowMs i st))) = cmds (pz_session (us_tasks st)) @ [PauseCmd i] \<and>
     map_option s_status (service_snapshot (pz_store (us_tasks
       (fold (\<lambda>(now, clks, views). on_alerts now clks views) batches (on_pause clk nowMs i st)))) i) = Some stPaused"
proof -
  from on_pause_effect(1) [OF assms(1)] obtain s1 where
    s1: "service_snapshot (pz_store (us_tasks (on_pause clk nowMs i st))) i = Some s1" "s_status s1 = stPaused" by blast
  from on_alerts_run_keeps [OF on_pause_effect(2) [OF assms(1)] assms(2) s1] on_pause_effect(3) [OF assms(1)]
  show ?thesis by auto
qed

theorem user_pause_holds_witness:
  "\<forall>st. map_option s_status (service_snapshot (pz_store (us_tasks
      (on_alerts 500 (\<lambda>_. (0, 0)) [default_view\<lparr>v_type := vtTaskProgress, v_taskId := uid 1, v_status := stDownloading\<rparr>]
        (on_pause (0, 0) 0 (uid 1)
          (st\<lparr>us_tasks := (us_tasks st)\<lparr>pz_store := [(uid 1, default_snapshot\<lparr>s_status := stDownloading\<rparr>)]\<rparr>\<rparr>))))) (uid 1)) =
    Some stPaused"
proof
  fix st :: ui_state
  let ?st = "st\<lparr>us_tasks := (us_tasks st)\<lparr>pz_store := [(uid 1, default_snapshot\<lparr>s_status := stDownloading\<rparr>)]\<rparr>\<rparr>"
  let ?views = "[default_view\<lparr>v_type := vtTaskProgress, v_taskId := uid 1, v_status := stDownloading\<rparr>]"
  have "service_snapshot (pz_store (us_tasks ?st)) (uid 1) = Some (default_snapshot\<lparr>s_status := stDownloading\<rparr>)"
    by (simp add: service_snapshot_def snapshot_def)
  moreover have "list_all (\<lambda>(now, _, views). now < 0 + 1000 \<and> quiet (uid 1) views) [(500 :: int, \<lambda>_ :: nat. (0 :: int, 0 :: int), ?views)]"
    by (simp add: quiet_def)
  ultimately show "map_option s_status (service_snapshot (pz_store (us_tasks
      (on_alerts 500 (\<lambda>_. (0, 0)) ?views (on_pause (0, 0) 0 (uid 1) ?st)))) (uid 1)) = Some stPaused"
    using user_pause_holds [of ?st "uid 1" _ 0 "[(500, \<lambda>_. (0, 0), ?views)]" "(0, 0)"] by simp
qed

end
