(* ===== verification/Logger.thy ===== *)
theory Logger
  imports LogStore Files
begin

text \<open>
  The logger (\<open>core/logger.h\<close>, \<open>core/logger.cc\<close>): the level filter, the queue of the writer thread, the
  log file with its rotation, and the fatal exit. The disk is that of \<open>Files\<close>; the directory, the parts of
  a file name, the date, the printed time and which file operations fail are arguments. The entries also go to the log
  store of the null task. Handing a command to the writer and its work are separate steps, in any order.
\<close>

section \<open>The state\<close>

record log_env =
  lx_files :: file_env
  lx_rename :: "qstring \<Rightarrow> qstring \<Rightarrow> bool"      \<comment> \<open>\<open>QFile::rename\<close> works if it can\<close>
  lx_open :: "qstring \<Rightarrow> bool"                   \<comment> \<open>opening for appending works\<close>
  lx_write :: "qstring \<Rightarrow> nat \<Rightarrow> nat"          \<comment> \<open>how many of so many bytes reach the file\<close>
  lx_abs_dir :: "qstring \<Rightarrow> qstring"             \<comment> \<open>\<open>QFileInfo::absolutePath\<close>\<close>
  lx_base :: "qstring \<Rightarrow> qstring"                \<comment> \<open>\<open>completeBaseName\<close>\<close>
  lx_suffix :: "qstring \<Rightarrow> qstring"
  lx_file_path :: "qstring \<Rightarrow> qstring \<Rightarrow> qstring"
  lx_date :: qstring                            \<comment> \<open>today as \<open>yyyy-MM-dd\<close>\<close>
  lx_iso :: "int \<Rightarrow> qstring"                    \<comment> \<open>\<open>toString(Qt::ISODateWithMs)\<close>\<close>

datatype log_cmd =
    CmdLine qstring qstring bool | CmdReopen qstring | CmdFlushSync nat | CmdBarrier nat | CmdShutdown

record logger =
  lg_level :: log_level
  lg_enabled :: bool
  lg_configured :: qstring
  lg_max_size :: int
  lg_backups :: int
  lg_dropped :: nat
  lg_cmds :: "log_cmd list"
  lg_path :: qstring                  \<comment> \<open>\<open>log_file_path_\<close>\<close>
  lg_open :: bool                     \<comment> \<open>\<open>log_file_\<close> is there and open\<close>
  lg_disk :: disk
  lg_done :: "nat list"               \<comment> \<open>promises kept\<close>
  lg_stopped :: bool
  lg_entries :: "log_store option"    \<comment> \<open>\<open>None\<close>: an append never came back\<close>

definition kMaxAsyncCmds :: nat where "kMaxAsyncCmds = 8192"

section \<open>The file\<close>

definition datedLogPath :: "log_env \<Rightarrow> qstring \<Rightarrow> qstring" where
  "datedLogPath E raw_path =
     (if raw_path = [] then []
      else lx_file_path E (lx_abs_dir E raw_path)
             (lx_base E raw_path @ qs ''-'' @ lx_date E @
              (if lx_suffix E raw_path = [] then [] else qs ''.'' @ lx_suffix E raw_path)))"

definition closeLogFile :: "logger \<Rightarrow> logger" where
  "closeLogFile L = L\<lparr>lg_open := False, lg_path := []\<rparr>"

definition contents :: "disk \<Rightarrow> qstring \<Rightarrow> bytes" where
  "contents d p = (case d p of None \<Rightarrow> [] | Some b \<Rightarrow> b)"

definition open_append :: "log_env \<Rightarrow> qstring \<Rightarrow> logger \<Rightarrow> logger" where
  \<comment> \<open>a new \<open>QFile\<close> opened for appending, which creates the file\<close>
  "open_append E path L =
     (if lx_open E path
      then L\<lparr>lg_open := True, lg_path := path,
             lg_disk := (lg_disk L)(path \<mapsto> contents (lg_disk L) path)\<rparr>
      else L\<lparr>lg_open := False, lg_path := []\<rparr>)"

definition reopenFile :: "log_env \<Rightarrow> qstring \<Rightarrow> logger \<Rightarrow> logger" where
  "reopenFile E path L = (if path = [] then closeLogFile L else open_append E path (closeLogFile L))"

definition archive :: "qstring \<Rightarrow> nat \<Rightarrow> qstring" where
  "archive base i = qarg (qarg (qs ''%1.%2'') base) (qnum (int i))"

definition rename_file :: "log_env \<Rightarrow> qstring \<Rightarrow> qstring \<Rightarrow> disk \<Rightarrow> disk" where
  "rename_file E src dst d =
     (if d src \<noteq> None \<and> d dst = None \<and> lx_rename E src dst then d(dst := d src, src := None) else d)"

fun shift_archives :: "log_env \<Rightarrow> qstring \<Rightarrow> nat \<Rightarrow> disk \<Rightarrow> disk" where
  \<comment> \<open>the loop from this number down to 1\<close>
  "shift_archives E base 0 d = d"
| "shift_archives E base (Suc i) d =
     shift_archives E base i
       (if d (archive base (Suc i)) \<noteq> None
        then rename_file E (archive base (Suc i)) (archive base (Suc (Suc i)))
               (remove_file (lx_files E) (archive base (Suc (Suc i))) d)
        else d)"

definition rotateFiles :: "log_env \<Rightarrow> logger \<Rightarrow> logger" where
  "rotateFiles E L =
     (if lg_path L = [] \<or> lg_backups L \<le> 0 then L
      else let base = lg_path L; n = nat (lg_backups L);
               d1 = remove_file (lx_files E) (archive base n) (lg_disk L);
               d2 = shift_archives E base (n - 1) d1;
               first = base @ qs ''.1'';
               d3 = (if d2 base \<noteq> None then rename_file E base first (remove_file (lx_files E) first d2) else d2) in
        open_append E base (L\<lparr>lg_disk := d3\<rparr>))"

definition file_size :: "logger \<Rightarrow> int" where
  "file_size L = int (length (contents (lg_disk L) (lg_path L)))"

definition rotateIfNeeded :: "log_env \<Rightarrow> nat \<Rightarrow> logger \<Rightarrow> logger" where
  "rotateIfNeeded E next_write_bytes L =
     (if lg_max_size L \<le> 0 \<or> lg_backups L \<le> 0 \<or> \<not> lg_open L \<or> file_size L + int next_write_bytes \<le> lg_max_size L then L
      else rotateFiles E L)"

definition line_bytes :: "qstring \<Rightarrow> bytes" where
  "line_bytes line = to_utf8 line @ [10]"

definition append_bytes :: "log_env \<Rightarrow> bytes \<Rightarrow> logger \<Rightarrow> logger" where
  "append_bytes E b L =
     L\<lparr>lg_disk := (lg_disk L)(lg_path L \<mapsto> contents (lg_disk L) (lg_path L) @ take (lx_write E (lg_path L) (length b)) b)\<rparr>"

definition writeTextLine :: "log_env \<Rightarrow> qstring \<Rightarrow> logger \<Rightarrow> logger" where
  \<comment> \<open>flushing has no effect on what the file holds in the end\<close>
  "writeTextLine E line L =
     (if lg_path L = [] \<or> \<not> lg_open L then L
      else let L1 = rotateIfNeeded E (length (line_bytes line)) L in
        if lg_path L1 = [] \<or> \<not> lg_open L1 then L1 else append_bytes E (line_bytes line) L1)"

section \<open>The writer\<close>

definition write_to :: "log_env \<Rightarrow> qstring \<Rightarrow> qstring \<Rightarrow> logger \<Rightarrow> logger" where
  "write_to E path line L =
     writeTextLine E line (if path \<noteq> [] \<and> path \<noteq> lg_path L then reopenFile E path L else L)"

fun processOneCmd :: "log_env \<Rightarrow> log_cmd \<Rightarrow> logger \<Rightarrow> logger" where
  "processOneCmd E (CmdLine line path flush) L = write_to E path line L"
| "processOneCmd E (CmdReopen path) L = reopenFile E path L"
| "processOneCmd E (CmdFlushSync p) L = L\<lparr>lg_done := lg_done L @ [p]\<rparr>"
| "processOneCmd E (CmdBarrier p) L = L\<lparr>lg_done := lg_done L @ [p]\<rparr>"
| "processOneCmd E CmdShutdown L = L"

definition writer_turn :: "log_env \<Rightarrow> logger \<Rightarrow> logger" where
  \<comment> \<open>one turn of the loop; it waits while the queue is empty\<close>
  "writer_turn E L =
     (case lg_cmds L of
        [] \<Rightarrow> L
      | c # cs \<Rightarrow>
          if lg_stopped L then L
          else let L1 = L\<lparr>lg_cmds := cs\<rparr> in
            if c = CmdShutdown then (closeLogFile L1)\<lparr>lg_stopped := True\<rparr> else processOneCmd E c L1)"

section \<open>The calls\<close>

definition enqueueCmd :: "log_cmd \<Rightarrow> logger \<Rightarrow> logger" where
  "enqueueCmd c L = L\<lparr>lg_cmds := lg_cmds L @ [c]\<rparr>"

definition tryEnqueueLineToFile :: "qstring \<Rightarrow> qstring \<Rightarrow> bool \<Rightarrow> logger \<Rightarrow> bool \<times> logger" where
  "tryEnqueueLineToFile line path flush_disk L =
     (if kMaxAsyncCmds \<le> length (lg_cmds L) then (False, L\<lparr>lg_dropped := lg_dropped L + 1\<rparr>)
      else (True, enqueueCmd (CmdLine line path flush_disk) L))"

definition setLogLevel :: "log_level \<Rightarrow> logger \<Rightarrow> logger" where
  "setLogLevel level L = L\<lparr>lg_level := level\<rparr>"

definition setLogFilePath :: "log_env \<Rightarrow> qstring \<Rightarrow> logger \<Rightarrow> logger" where
  \<comment> \<open>the directory is created\<close>
  "setLogFilePath E path L =
     enqueueCmd (CmdReopen (datedLogPath E path)) (L\<lparr>lg_configured := path, lg_enabled := (path \<noteq> [])\<rparr>)"

definition setFileOutputEnabled :: "log_env \<Rightarrow> bool \<Rightarrow> logger \<Rightarrow> logger" where
  "setFileOutputEnabled E enabled L =
     (let L1 = L\<lparr>lg_enabled := enabled\<rparr> in
      if \<not> enabled then enqueueCmd (CmdReopen []) L1
      else let p = datedLogPath E (lg_configured L1) in if p \<noteq> [] then enqueueCmd (CmdReopen p) L1 else L1)"

definition setRotationPolicy :: "int \<Rightarrow> int \<Rightarrow> logger \<Rightarrow> logger" where
  "setRotationPolicy max_file_size_bytes max_backup_files L =
     L\<lparr>lg_max_size := max_file_size_bytes, lg_backups := max_backup_files\<rparr>"

definition formatIso8601 :: "log_env \<Rightarrow> int \<Rightarrow> qstring" where
  "formatIso8601 E ms = (if isValidMs ms then lx_iso E ms else [])"

definition qargs :: "qstring \<Rightarrow> qstring list \<Rightarrow> qstring" where
  \<comment> \<open>\<open>s.arg(a, b, \<dots>)\<close>: the lowest markers are replaced in one pass\<close>
  "qargs s args =
     (let ts = arg_tokens s in arg_render (map_of (zip (sort (remdups (arg_markers ts))) args)) ts)"

definition formatLine :: "log_env \<Rightarrow> log_entry \<Rightarrow> qstring" where
  "formatLine E entry =
     (let iso = formatIso8601 E (le_timestampMs entry);
          lvl = logLevelToString (le_level entry) in
      if le_detail entry = [] then qargs (qs ''[%1] [%2] %3'') [iso, lvl, le_message entry]
      else qargs (qs ''[%1] [%2] %3 | %4'') [iso, lvl, le_message entry, le_detail entry])"

definition basenameSourceFile :: "qstring \<Rightarrow> qstring" where
  \<comment> \<open>what follows the last slash or backslash; a null pointer counts as empty\<close>
  "basenameSourceFile path = rev (takeWhile (\<lambda>c. c \<noteq> 0x2F \<and> c \<noteq> 0x5C) (rev path))"

definition logDetail :: "qstring \<Rightarrow> int \<Rightarrow> qstring \<Rightarrow> qstring" where
  "logDetail path line func =
     qarg (qarg (qarg (qs ''%1:%2 %3'') (basenameSourceFile path)) (qnum line)) func"

definition store_entry :: "log_entry \<Rightarrow> logger \<Rightarrow> logger" where
  "store_entry entry L = L\<lparr>lg_entries := Option.bind (lg_entries L) (log_append kLogStoreCapacity entry)\<rparr>"

definition maybeEnqueueLineToFile :: "log_env \<Rightarrow> log_entry \<Rightarrow> logger \<Rightarrow> logger" where
  "maybeEnqueueLineToFile E entry L =
     (let p = datedLogPath E (lg_configured L) in
      if \<not> lg_enabled L \<or> p = [] then L
      else let line = formatLine E entry; (queued, L1) = tryEnqueueLineToFile line p (lvError \<le> le_level entry) L in
        if \<not> queued \<and> lvError \<le> le_level entry then write_to E p line L1 else L1)"

record log_call =
  lc_now :: int
  lc_level :: log_level
  lc_message :: qstring
  lc_file :: qstring
  lc_line :: int
  lc_func :: qstring

definition call_entry :: "log_call \<Rightarrow> log_entry" where
  \<comment> \<open>\<open>globalTaskId()\<close> is the null identifier\<close>
  "call_entry c = makeLogEntry (lc_now c) null_id (lc_level c) (lc_message c)
                    (logDetail (lc_file c) (lc_line c) (lc_func c))"

definition log_line :: "log_env \<Rightarrow> log_call \<Rightarrow> logger \<Rightarrow> logger" where
  "log_line E c L =
     (if lc_level c < lg_level L then L
      else maybeEnqueueLineToFile E (call_entry c) (store_entry (call_entry c) L))"

definition logFatal :: "log_env \<Rightarrow> log_call \<Rightarrow> nat \<Rightarrow> logger \<Rightarrow> logger" where
  \<comment> \<open>up to \<open>waitUntilWriterIdle\<close>, whose promise is the last argument; the process leaves once it is kept\<close>
  "logFatal E c barrier L =
     (let entry = call_entry (c\<lparr>lc_level := lvFatal\<rparr>); L1 = store_entry entry L;
          p = datedLogPath E (lg_configured L1) in
      if p = [] then L1
      else let line = formatLine E entry; (queued, L2) = tryEnqueueLineToFile line p True L1 in
        enqueueCmd (CmdBarrier barrier) (if queued then L2 else write_to E p line L2))"

definition log_flush :: "nat \<Rightarrow> logger \<Rightarrow> logger" where
  \<comment> \<open>the call returns once the promise is kept\<close>
  "log_flush p L = enqueueCmd (CmdFlushSync p) L"

definition globalSnapshot :: "nat \<Rightarrow> logger \<Rightarrow> log_entry list" where
  "globalSnapshot max_count L = (case lg_entries L of None \<Rightarrow> [] | Some st \<Rightarrow> log_snapshot kLogStoreCapacity null_id max_count st)"

definition clearGlobalLogs :: "(log_entry \<Rightarrow> log_entry) \<Rightarrow> logger \<Rightarrow> logger" where
  "clearGlobalLogs mv L = L\<lparr>lg_entries := Option.bind (lg_entries L) (log_clear kLogStoreCapacity mv null_id)\<rparr>"

section \<open>Names of archives\<close>

lemma arg_tokens_plain: "0x25 \<notin> set s \<Longrightarrow> arg_tokens (s @ t) = map Inl s @ arg_tokens t"
proof (induction s)
  case (Cons c s)
  then have "marker_at (c # s @ t) = None" by (auto simp: marker_at_def)
  with Cons show ?case by (simp add: arg_tokens.simps [of "c # s @ t"])
qed simp

lemma arg_render_plain [simp]: "arg_render f (map Inl s @ ts) = s @ arg_render f ts"
  by (induction s) simp_all

lemma arg_markers_plain [simp]: "arg_markers (map Inl s @ ts) = arg_markers ts"
  by (induction s) simp_all

lemma archive_tokens:
  "arg_tokens (qs ''%1.%2'') = [Inr (1, qs ''%1''), Inl 0x2E, Inr (2, qs ''%2'')]"
  "arg_tokens (qs ''.%2'') = [Inl 0x2E, Inr (2, qs ''%2'')]"
  by code_simp+

lemma archive_name:
  assumes "0x25 \<notin> set base"
  shows "archive base i = base @ qs ''.'' @ qnum (int i)"
proof -
  have "qarg (qs ''%1.%2'') base = base @ qs ''.%2''"
    by (simp add: qarg_def archive_tokens Let_def) (simp add: qs_def)
  moreover have "qarg (base @ qs ''.%2'') a = base @ qs ''.'' @ a" for a
    using assms by (simp add: qarg_def arg_tokens_plain archive_tokens Let_def) (simp add: qs_def)
  ultimately show ?thesis by (simp add: archive_def)
qed

definition digits_value :: "char list \<Rightarrow> nat" where
  "digits_value cs = foldl (\<lambda>a c. 10 * a + (of_char c - 48)) 0 cs"

lemma digits_value_digits [simp]: "digits_value (digits_of n) = n"
proof (induction n rule: less_induct)
  case (less n)
  show ?case
  proof (cases "n < 10")
    case True then show ?thesis by (simp add: digits_of.simps [of n] digits_value_def)
  next
    case False
    then have "digits_value (digits_of (n div 10)) = n div 10" using less [of "n div 10"] by simp
    with False show ?thesis by (simp add: digits_of.simps [of n] digits_value_def)
  qed
qed

lemma qnum_inj [simp]: "qnum (int i) = qnum (int j) \<longleftrightarrow> i = j"
  using digits_value_digits by (metis nat_int of_nat_less_0_iff qnum_def qs_inj show_int_def)

lemma archive_inj [simp]: "0x25 \<notin> set base \<Longrightarrow> archive base i = archive base j \<longleftrightarrow> i = j"
  by (simp add: archive_name)

lemma archive_not_base [simp]:
  "0x25 \<notin> set base \<Longrightarrow> archive base i \<noteq> base" "0x25 \<notin> set base \<Longrightarrow> base \<noteq> archive base i"
  by (simp_all add: archive_name qs_def)

lemma first_archive: "0x25 \<notin> set base \<Longrightarrow> base @ qs ''.1'' = archive base 1"
  by (simp add: archive_name qnum_def show_int_def digits_of.simps [of "Suc 0"] qs_def) code_simp

section \<open>Rotation\<close>

definition disk_works :: "log_env \<Rightarrow> bool" where
  "disk_works E \<longleftrightarrow> fe_remove (lx_files E) = (\<lambda>_. True) \<and> lx_rename E = (\<lambda>_ _. True) \<and>
     lx_open E = (\<lambda>_. True) \<and> lx_write E = (\<lambda>_ n. n)"

text \<open>The places a line passes through: the file itself is 0, then come the archives.\<close>

definition place :: "qstring \<Rightarrow> nat \<Rightarrow> qstring" where
  "place base i = (if i = 0 then base else archive base i)"

lemma place_inj [simp]: "0x25 \<notin> set base \<Longrightarrow> place base i = place base j \<longleftrightarrow> i = j"
  by (simp add: place_def)

lemma move_up:
  assumes "disk_works E" "d t = None" "s \<noteq> t"
  shows "(if d s \<noteq> None then rename_file E s t (remove_file (lx_files E) t d) else d) = d(t := d s, s := None)"
  using assms by (auto simp: disk_works_def rename_file_def remove_file_def fun_eq_iff)

lemma shift_archives_places:
  assumes "disk_works E" "0x25 \<notin> set base" "d (place base (Suc k)) = None"
  shows "(\<forall>i<k. shift_archives E base k d (place base (Suc (Suc i))) = d (place base (Suc i))) \<and>
         shift_archives E base k d (place base (Suc 0)) = None \<and>
         (\<forall>p. (\<forall>i\<le>k. p \<noteq> place base (Suc i)) \<longrightarrow> shift_archives E base k d p = d p)"
  using assms(3)
proof (induction k arbitrary: d)
  case 0 then show ?case by simp
next
  case (Suc k)
  let ?d = "d(place base (Suc (Suc k)) := d (place base (Suc k)), place base (Suc k) := None)"
  have step: "shift_archives E base (Suc k) d = shift_archives E base k ?d"
    unfolding shift_archives.simps
    using move_up [OF assms(1), of d "place base (Suc (Suc k))" "place base (Suc k)"] Suc.prems assms(2)
    by (simp only: place_def nat.simps if_False) simp
  have ih: "\<forall>i<k. shift_archives E base k ?d (place base (Suc (Suc i))) = ?d (place base (Suc i))"
    "shift_archives E base k ?d (place base (Suc 0)) = None"
    "\<forall>p. (\<forall>i\<le>k. p \<noteq> place base (Suc i)) \<longrightarrow> shift_archives E base k ?d p = ?d p"
    using Suc.IH [of ?d, OF fun_upd_same] by (blast, blast, blast)
  have top: "shift_archives E base k ?d (place base (Suc (Suc k))) = d (place base (Suc k))"
    using ih(3) assms(2) by simp
  show ?case
    unfolding step
  proof (intro conjI allI impI)
    fix i assume "i < Suc k"
    then show "shift_archives E base k ?d (place base (Suc (Suc i))) = d (place base (Suc i))"
      using ih(1) top assms(2) by (cases "i = k") simp_all
  next
    fix p assume "\<forall>i\<le>Suc k. p \<noteq> place base (Suc i)"
    then have "\<forall>i\<le>k. p \<noteq> place base (Suc i)" "p \<noteq> place base (Suc (Suc k))" "p \<noteq> place base (Suc k)"
      by auto
    with ih(3) show "shift_archives E base k ?d p = d p" by simp
  qed (rule ih(2))
qed

lemma rotateFiles_disk:
  assumes "disk_works E" "lg_path L \<noteq> []" "lg_backups L = int n" "0 < n"
  shows "lg_disk (rotateFiles E L) =
           (let d2 = shift_archives E (lg_path L) (n - 1) (remove_file (lx_files E) (archive (lg_path L) n) (lg_disk L));
                d3 = (if d2 (lg_path L) \<noteq> None
                      then rename_file E (lg_path L) (lg_path L @ qs ''.1'')
                             (remove_file (lx_files E) (lg_path L @ qs ''.1'') d2)
                      else d2) in
            d3(lg_path L \<mapsto> contents d3 (lg_path L)))"
  using assms by (simp add: rotateFiles_def Let_def open_append_def disk_works_def)

text \<open>Every file moves one place up, the last archive is dropped, and the log starts empty.\<close>

lemma rotateFiles_places:
  assumes "disk_works E" "0x25 \<notin> set (lg_path L)" "lg_path L \<noteq> []" "lg_backups L = int (Suc n)"
  shows "(\<forall>i\<le>n. lg_disk (rotateFiles E L) (place (lg_path L) (Suc i)) = lg_disk L (place (lg_path L) i)) \<and>
         lg_disk (rotateFiles E L) (lg_path L) = Some [] \<and>
         (\<forall>p. (\<forall>i\<le>Suc n. p \<noteq> place (lg_path L) i) \<longrightarrow> lg_disk (rotateFiles E L) p = lg_disk L p)"
proof -
  let ?base = "lg_path L" and ?d = "lg_disk L"
  let ?d1 = "?d(place ?base (Suc n) := None)"
  let ?d2 = "shift_archives E ?base n ?d1"
  have d1: "remove_file (lx_files E) (archive ?base (Suc n)) ?d = ?d1"
    using assms(1) by (simp add: remove_file_def disk_works_def place_def)
  note s = shift_archives_places [OF assms(1,2), of ?d1 n]
  have base2: "?d2 ?base = ?d ?base"
    using s assms(2) by (simp add: place_def)
  let ?d3 = "?d2(place ?base 1 := ?d ?base, ?base := None)"
  have d3: "(if ?d2 ?base \<noteq> None then rename_file E ?base (?base @ qs ''.1'') (remove_file (lx_files E) (?base @ qs ''.1'') ?d2)
             else ?d2) = ?d3"
  proof -
    have "?d2 (place ?base 1) = None" using s assms(2) by simp
    from move_up [of E ?d2 "place ?base 1" ?base] this assms(1,2) base2
    show ?thesis unfolding first_archive [OF assms(2)]
      by (simp only: place_def one_neq_zero if_False) simp
  qed
  have "lg_disk (rotateFiles E L) = ?d3(?base \<mapsto> contents ?d3 ?base)"
    using rotateFiles_disk [OF assms(1,3,4) zero_less_Suc] unfolding Let_def diff_Suc_1 d1 unfolding d3 .
  then have e: "lg_disk (rotateFiles E L) = ?d3(?base := Some [])" by (simp add: contents_def)
  have up: "?d3 (place ?base (Suc i)) = ?d (place ?base i)" if "i \<le> n" for i
    using s that assms(2) by (cases i) (auto simp: place_def)
  have other: "?d3 p = ?d p \<and> p \<noteq> ?base" if far: "\<forall>i\<le>Suc n. p \<noteq> place ?base i" for p
  proof -
    have "p \<noteq> place ?base (Suc i)" if "i \<le> n" for i using far that by auto
    then have "?d2 p = ?d1 p" "?d1 p = ?d p" "p \<noteq> place ?base 1" using s by auto
    moreover have "p \<noteq> ?base" using far by (auto simp: place_def dest: spec [of _ 0])
    ultimately show ?thesis by simp
  qed
  show ?thesis
  proof (intro conjI allI impI)
    fix i assume i: "i \<le> n"
    have ne: "place ?base (Suc i) \<noteq> ?base" using assms(2) by (simp add: place_def)
    show "lg_disk (rotateFiles E L) (place ?base (Suc i)) = ?d (place ?base i)"
      using up [OF i] unfolding e fun_upd_other [OF ne] .
  next
    fix p assume "\<forall>i\<le>Suc n. p \<noteq> place ?base i"
    then have o3: "?d3 p = ?d p" and ne: "p \<noteq> ?base" using other by blast+
    show "lg_disk (rotateFiles E L) p = ?d p"
      using o3 unfolding e fun_upd_other [OF ne] .
  qed (simp add: e)
qed

section \<open>The lines on disk\<close>

text \<open>The oldest archive first.\<close>

fun log_history :: "qstring \<Rightarrow> nat \<Rightarrow> disk \<Rightarrow> bytes" where
  "log_history base 0 d = contents d base"
| "log_history base (Suc n) d = contents d (place base (Suc n)) @ log_history base n d"

lemma history_moves:
  assumes "\<forall>i\<le>n. d' (place base (Suc i)) = d (place base i)" "d' base = Some []"
  shows "log_history base (Suc n) d' = log_history base n d"
  using assms by (induction n) (simp_all add: contents_def place_def)

lemma history_append:
  assumes "0x25 \<notin> set base"
  shows "log_history base n (d(base \<mapsto> contents d base @ x)) = log_history base n d @ x"
  using assms by (induction n) (simp_all add: contents_def place_def)

lemma rotate_history:
  assumes "disk_works E" "0x25 \<notin> set (lg_path L)" "lg_path L \<noteq> []" "lg_backups L = int (Suc n)"
  shows "log_history (lg_path L) (Suc n) (lg_disk L) =
           contents (lg_disk L) (place (lg_path L) (Suc n)) @
           log_history (lg_path L) (Suc n) (lg_disk (rotateFiles E L))"
  using rotateFiles_places [OF assms] history_moves [of n "lg_disk (rotateFiles E L)" "lg_path L" "lg_disk L"]
  by simp

text \<open>The same file, open, under the same policy.\<close>

definition same_file :: "logger \<Rightarrow> logger \<Rightarrow> bool" where
  "same_file L L' \<longleftrightarrow> lg_path L' = lg_path L \<and> lg_open L' = lg_open L \<and> lg_max_size L' = lg_max_size L \<and>
     lg_backups L' = lg_backups L \<and> lg_cmds L' = lg_cmds L \<and> lg_stopped L' = lg_stopped L \<and>
     lg_done L' = lg_done L \<and> lg_dropped L' = lg_dropped L"

definition rotating :: "logger \<Rightarrow> bool" where
  "rotating L \<longleftrightarrow> 0 < lg_max_size L \<and> 0 < lg_backups L"

lemma rotateIfNeeded_history:
  assumes "disk_works E" "0x25 \<notin> set (lg_path L)" "lg_path L \<noteq> []" "lg_open L"
  shows "same_file L (rotateIfNeeded E k L) \<and>
         (\<exists>lost. (lost = [] \<or> rotating L) \<and> log_history (lg_path L) (nat (lg_backups L)) (lg_disk L) =
                 lost @ log_history (lg_path L) (nat (lg_backups L)) (lg_disk (rotateIfNeeded E k L))) \<and>
         (rotating L \<longrightarrow>
            file_size (rotateIfNeeded E k L) = 0 \<or> file_size (rotateIfNeeded E k L) + int k \<le> lg_max_size L)"
proof (cases "lg_max_size L \<le> 0 \<or> lg_backups L \<le> 0 \<or> file_size L + int k \<le> lg_max_size L")
  case True
  then have "rotateIfNeeded E k L = L" by (auto simp: rotateIfNeeded_def)
  with True show ?thesis by (auto simp: same_file_def rotating_def)
next
  case False
  then obtain n where n: "lg_backups L = int (Suc n)"
    by (metis Suc_pred int_nat_eq linorder_le_cases not_less zero_less_nat_eq)
  from False assms have "rotateIfNeeded E k L = rotateFiles E L" by (simp add: rotateIfNeeded_def)
  moreover have same: "same_file L (rotateFiles E L)"
    using assms n by (simp add: same_file_def rotateFiles_def Let_def open_append_def disk_works_def)
  moreover have "file_size (rotateFiles E L) = 0"
    using rotateFiles_places [OF assms(1-3) n] same by (simp add: file_size_def contents_def same_file_def)
  moreover have "nat (lg_backups L) = Suc n" using n by simp
  moreover have "rotating L" using False by (auto simp: rotating_def)
  ultimately show ?thesis using rotate_history [OF assms(1-3) n] by auto
qed

lemma writeTextLine_history:
  fixes line :: qstring
  assumes "disk_works E" "0x25 \<notin> set (lg_path L)" "lg_path L \<noteq> []" "lg_open L"
  defines "L' \<equiv> writeTextLine E line L"
  shows "same_file L L' \<and>
         (\<exists>lost. (lost = [] \<or> rotating L) \<and> log_history (lg_path L) (nat (lg_backups L)) (lg_disk L) @ line_bytes line =
                 lost @ log_history (lg_path L) (nat (lg_backups L)) (lg_disk L')) \<and>
         suffix (line_bytes line) (contents (lg_disk L') (lg_path L)) \<and>
         (rotating L \<longrightarrow>
            file_size L' \<le> max (lg_max_size L) (int (length (line_bytes line))))"
proof -
  let ?R = "rotateIfNeeded E (length (line_bytes line)) L"
  note r = rotateIfNeeded_history [OF assms(1-4), of "length (line_bytes line)"]
  have L': "L' = append_bytes E (line_bytes line) ?R"
    using r assms by (simp add: writeTextLine_def Let_def same_file_def)
  have d: "lg_disk L' = (lg_disk ?R)(lg_path L \<mapsto> contents (lg_disk ?R) (lg_path L) @ line_bytes line)"
    and same: "same_file L L'"
    using r assms(1) by (simp_all add: L' append_bytes_def same_file_def disk_works_def)
  have size: "file_size L' = file_size ?R + int (length (line_bytes line))"
    using same r by (simp add: file_size_def d same_file_def contents_def)
  have "log_history (lg_path L) n (lg_disk L') = log_history (lg_path L) n (lg_disk ?R) @ line_bytes line" for n
    unfolding d by (rule history_append [OF assms(2)])
  moreover have "suffix (line_bytes line) (contents (lg_disk L') (lg_path L))"
    by (simp add: d contents_def suffix_def)
  ultimately show ?thesis using r same size by auto
qed

section \<open>Running the writer\<close>

fun for_file :: "qstring \<Rightarrow> log_cmd \<Rightarrow> bool" where
  "for_file p (CmdLine line path flush) = (path = p)"
| "for_file p (CmdFlushSync q) = True"
| "for_file p (CmdBarrier q) = True"
| "for_file p _ = False"

fun cmd_lines :: "log_cmd \<Rightarrow> qstring list" where
  "cmd_lines (CmdLine line path flush) = [line]"
| "cmd_lines _ = []"

fun cmd_promises :: "log_cmd \<Rightarrow> nat list" where
  "cmd_promises (CmdFlushSync q) = [q]"
| "cmd_promises (CmdBarrier q) = [q]"
| "cmd_promises _ = []"

definition lines_bytes :: "qstring list \<Rightarrow> bytes" where
  "lines_bytes ls = concat (map line_bytes ls)"

definition written :: "logger \<Rightarrow> bytes" where
  "written L = log_history (lg_path L) (nat (lg_backups L)) (lg_disk L)"

definition writer_turns :: "log_env \<Rightarrow> logger \<Rightarrow> logger" where
  \<comment> \<open>the writer works off what is queued\<close>
  "writer_turns E L = (writer_turn E ^^ length (lg_cmds L)) L"

definition writing_to :: "log_env \<Rightarrow> qstring \<Rightarrow> logger \<Rightarrow> bool" where
  "writing_to E p L \<longleftrightarrow> disk_works E \<and> 0x25 \<notin> set p \<and> p \<noteq> [] \<and> lg_path L = p \<and> lg_open L \<and> \<not> lg_stopped L"

definition wrote :: "qstring list \<Rightarrow> nat list \<Rightarrow> logger \<Rightarrow> logger \<Rightarrow> bool" where
  \<comment> \<open>these lines were written and these promises kept\<close>
  "wrote ls ps L L' \<longleftrightarrow>
     lg_path L' = lg_path L \<and> lg_open L' = lg_open L \<and> lg_stopped L' = lg_stopped L \<and>
     lg_max_size L' = lg_max_size L \<and> lg_backups L' = lg_backups L \<and>
     lg_done L' = lg_done L @ ps \<and>
     (\<exists>lost. (lost = [] \<or> rotating L) \<and> written L @ lines_bytes ls = lost @ written L') \<and>
     (ls = [] \<or> suffix (line_bytes (last ls)) (contents (lg_disk L') (lg_path L)))"

lemma wrote_trans:
  assumes "wrote ls ps L L'" "wrote ls' ps' L' L''" "ls' = [] \<Longrightarrow> lg_disk L'' = lg_disk L'"
  shows "wrote (ls @ ls') (ps @ ps') L L''"
proof -
  obtain lost lost' where "lost = [] \<or> rotating L" "written L @ lines_bytes ls = lost @ written L'"
    and "lost' = [] \<or> rotating L'" "written L' @ lines_bytes ls' = lost' @ written L''"
    using assms by (auto simp: wrote_def)
  then have "written L @ lines_bytes (ls @ ls') = (lost @ lost') @ written L''"
    by (simp add: lines_bytes_def) (metis append_assoc)
  moreover have "lost @ lost' = [] \<or> rotating L"
    using \<open>lost = [] \<or> rotating L\<close> \<open>lost' = [] \<or> rotating L'\<close> assms(1) by (auto simp: wrote_def rotating_def)
  ultimately show ?thesis
    using assms by (cases "ls' = []") (auto simp: wrote_def)
qed

lemma writer_turn_wrote:
  assumes "writing_to E p L" "lg_cmds L = c # cs" "for_file p c"
  shows "wrote (cmd_lines c) (cmd_promises c) L (writer_turn E L) \<and> lg_cmds (writer_turn E L) = cs \<and>
         lg_dropped (writer_turn E L) = lg_dropped L \<and> (cmd_lines c = [] \<longrightarrow> lg_disk (writer_turn E L) = lg_disk L)"
proof (cases c)
  case (CmdLine line path flush)
  let ?L = "L\<lparr>lg_cmds := cs\<rparr>"
  have "writer_turn E L = writeTextLine E line ?L"
    using assms CmdLine by (simp add: writer_turn_def writing_to_def write_to_def)
  with writeTextLine_history [of E ?L line] assms CmdLine show ?thesis
    by (auto simp: wrote_def same_file_def writing_to_def written_def rotating_def lines_bytes_def)
qed (use assms in \<open>auto simp: writer_turn_def writing_to_def wrote_def written_def lines_bytes_def\<close>)

lemma writer_turns_wrote:
  assumes "writing_to E p L" "list_all (for_file p) (lg_cmds L)"
  shows "wrote (concat (map cmd_lines (lg_cmds L))) (concat (map cmd_promises (lg_cmds L))) L (writer_turns E L) \<and>
         lg_cmds (writer_turns E L) = [] \<and> lg_dropped (writer_turns E L) = lg_dropped L \<and>
         (concat (map cmd_lines (lg_cmds L)) = [] \<longrightarrow> lg_disk (writer_turns E L) = lg_disk L)"
  using assms
proof (induction "lg_cmds L" arbitrary: L)
  case Nil
  then show ?case by (simp add: writer_turns_def wrote_def lines_bytes_def)
next
  case (Cons c cs)
  let ?L = "writer_turn E L"
  have c: "lg_cmds L = c # cs" using Cons.hyps(2) by simp
  note t = writer_turn_wrote [OF Cons.prems(1) c]
  have turns: "writer_turns E L = writer_turns E ?L"
    using t Cons.prems c by (simp add: writer_turns_def funpow_Suc_right del: funpow.simps)
  have "writing_to E p ?L"
    using t Cons.prems c by (auto simp: writing_to_def wrote_def)
  then have ih: "wrote (concat (map cmd_lines cs)) (concat (map cmd_promises cs)) ?L (writer_turns E ?L) \<and>
         lg_cmds (writer_turns E ?L) = [] \<and> lg_dropped (writer_turns E ?L) = lg_dropped ?L \<and>
         (concat (map cmd_lines cs) = [] \<longrightarrow> lg_disk (writer_turns E ?L) = lg_disk ?L)"
    using Cons.hyps(1) [of ?L] t Cons.prems c by simp
  have "wrote (cmd_lines c @ concat (map cmd_lines cs)) (cmd_promises c @ concat (map cmd_promises cs)) L (writer_turns E ?L)"
    by (rule wrote_trans [of _ _ _ ?L]) (use t ih Cons.prems c in auto)
  then show ?case using ih t Cons.prems c unfolding turns c by auto
qed

section \<open>What a call leaves behind\<close>

definition queued_lines :: "log_env \<Rightarrow> log_call list \<Rightarrow> logger \<Rightarrow> qstring list" where
  "queued_lines E calls L = map (formatLine E \<circ> call_entry) (filter (\<lambda>c. lg_level L \<le> lc_level c) calls)"

lemma log_line_queued:
  assumes "datedLogPath E (lg_configured L) = p" "p \<noteq> []" "lg_enabled L" "length (lg_cmds L) < kMaxAsyncCmds"
  shows "\<exists>cs en. log_line E c L = L\<lparr>lg_cmds := lg_cmds L @ cs, lg_entries := en\<rparr> \<and>
           concat (map cmd_lines cs) = queued_lines E [c] L \<and> list_all (for_file p) cs \<and>
           concat (map cmd_promises cs) = [] \<and> length cs \<le> 1"
proof (cases "lc_level c < lg_level L")
  case True
  then show ?thesis
    by (intro exI [of _ "[]"] exI [of _ "lg_entries L"]) (simp add: log_line_def queued_lines_def)
next
  case False
  let ?e = "call_entry c"
  show ?thesis
    by (rule exI [of _ "[CmdLine (formatLine E ?e) p (lvError \<le> le_level ?e)]"],
        rule exI [of _ "lg_entries (store_entry ?e L)"])
      (use False assms in \<open>auto simp: log_line_def queued_lines_def maybeEnqueueLineToFile_def store_entry_def
        tryEnqueueLineToFile_def enqueueCmd_def Let_def\<close>)
qed

lemma log_calls_queued:
  assumes "datedLogPath E (lg_configured L) = p" "p \<noteq> []" "lg_enabled L"
    and "length (lg_cmds L) + length calls \<le> kMaxAsyncCmds"
  shows "\<exists>cs en. fold (log_line E) calls L = L\<lparr>lg_cmds := lg_cmds L @ cs, lg_entries := en\<rparr> \<and>
           concat (map cmd_lines cs) = queued_lines E calls L \<and> list_all (for_file p) cs \<and>
           concat (map cmd_promises cs) = []"
  using assms
proof (induction calls arbitrary: L)
  case Nil
  then show ?case by (intro exI [of _ "[]"] exI [of _ "lg_entries L"]) (simp add: queued_lines_def)
next
  case (Cons c calls)
  then have "length (lg_cmds L) < kMaxAsyncCmds" by simp
  then obtain cs en where c: "log_line E c L = L\<lparr>lg_cmds := lg_cmds L @ cs, lg_entries := en\<rparr>"
    "concat (map cmd_lines cs) = queued_lines E [c] L" "list_all (for_file p) cs"
    "concat (map cmd_promises cs) = []" "length cs \<le> 1"
    using log_line_queued [of E L p c] Cons.prems by blast
  obtain cs' en' where r: "fold (log_line E) calls (log_line E c L) =
      (log_line E c L)\<lparr>lg_cmds := lg_cmds (log_line E c L) @ cs', lg_entries := en'\<rparr>"
    "concat (map cmd_lines cs') = queued_lines E calls (log_line E c L)" "list_all (for_file p) cs'"
    "concat (map cmd_promises cs') = []"
    using Cons.IH [of "log_line E c L"] Cons.prems c by auto
  show ?case
    by (rule exI [of _ "cs @ cs'"], rule exI [of _ en'])
      (use c r in \<open>simp add: queued_lines_def\<close>)
qed


text \<open>A fatal line that finds room is the last of the file when the process leaves.\<close>

lemma fatal_line_is_last:
  assumes "writing_to E p L" "datedLogPath E (lg_configured L) = p"
    and "list_all (for_file p) (lg_cmds L)" "length (lg_cmds L) < kMaxAsyncCmds"
  shows "barrier \<in> set (lg_done (writer_turns E (logFatal E c barrier L))) \<and>
         suffix (line_bytes (formatLine E (call_entry (c\<lparr>lc_level := lvFatal\<rparr>))))
           (contents (lg_disk (writer_turns E (logFatal E c barrier L))) p)"
proof -
  let ?F = "logFatal E c barrier L" and ?line = "formatLine E (call_entry (c\<lparr>lc_level := lvFatal\<rparr>))"
  have "lg_cmds ?F = lg_cmds L @ [CmdLine ?line p True, CmdBarrier barrier]" "lg_path ?F = p" "writing_to E p ?F"
    using assms by (simp_all add: logFatal_def Let_def store_entry_def tryEnqueueLineToFile_def enqueueCmd_def writing_to_def)
  with writer_turns_wrote [of E p ?F] assms(3) show ?thesis by (auto simp: wrote_def)
qed

definition sample_log_env :: log_env where
  "sample_log_env = \<lparr>lx_files = no_faults, lx_rename = (\<lambda>_ _. True), lx_open = (\<lambda>_. True), lx_write = (\<lambda>_ n. n),
     lx_abs_dir = (\<lambda>_. qs ''d''), lx_base = id, lx_suffix = (\<lambda>_. []), lx_file_path = (\<lambda>d f. d @ qs ''/'' @ f),
     lx_date = qs ''1'', lx_iso = (\<lambda>_. qs ''t'')\<rparr>"

definition sample_logger :: logger where
  "sample_logger = \<lparr>lg_level = lvInfo, lg_enabled = True, lg_configured = qs ''a'', lg_max_size = 0, lg_backups = 3,
     lg_dropped = 0, lg_cmds = [], lg_path = qs ''d/a-1'', lg_open = True, lg_disk = (\<lambda>_. None), lg_done = [],
     lg_stopped = False, lg_entries = None\<rparr>"

definition sample_call :: log_call where
  "sample_call = \<lparr>lc_now = 0, lc_level = lvError, lc_message = qs ''m'', lc_file = qs ''f'', lc_line = 1, lc_func = []\<rparr>"


end
